(* ===== verification/Prelude.thy ===== *)
theory Prelude
  imports Main "HOL-Library.Word" "HOL-Library.Sublist"
begin

text \<open>
  Shared vocabulary of the development: the types that stand for Go's bytes and for
  calls that fail, Go slice expressions with their run-time panics, and generic lemmas
  on lists, sums and maps that the component theories use.

  A Go function that returns \<open>(T, error)\<close> is a HOL function into \<open>'e + 'a\<close>: \<open>Inl\<close>
  holds the error, \<open>Inr\<close> the value. A Go expression that can panic is a function into
  \<open>'a option\<close> at the point of use, with \<open>None\<close> for the panic, or a dedicated
  constructor of the component's outcome type.
\<close>

type_synonym byte = "8 word"

type_synonym ('e, 'a) result = "'e + 'a"

named_theorems go_simps \<open>unfolding rules for the models of Go's standard library\<close>
named_theorems handler_simps \<open>unfolding rules for whole handlers\<close>

section \<open>Sequencing of fallible calls\<close>

definition and_then :: "('e, 'a) result \<Rightarrow> ('a \<Rightarrow> ('e, 'b) result) \<Rightarrow> ('e, 'b) result" where
  "and_then r f = (case r of Inl e \<Rightarrow> Inl e | Inr x \<Rightarrow> f x)"

lemma and_then_simps [simp]:
  "and_then (Inl e) f = Inl e"
  "and_then (Inr x) f = f x"
  by (simp_all add: and_then_def)

lemma and_then_eq_Inr:
  "and_then r f = Inr y \<longleftrightarrow> (\<exists>x. r = Inr x \<and> f x = Inr y)"
  by (cases r) simp_all

lemma and_then_eq_Inl:
  "and_then r f = Inl e \<longleftrightarrow> r = Inl e \<or> (\<exists>x. r = Inr x \<and> f x = Inl e)"
  by (cases r) simp_all

lemma and_then_cong [fundef_cong]:
  "r = r' \<Longrightarrow> (\<And>x. r' = Inr x \<Longrightarrow> f x = f' x) \<Longrightarrow> and_then r f = and_then r' f'"
  by (cases r') simp_all

section \<open>Slices\<close>

text \<open>
  \<open>go_slice xs i j\<close> is Go's \<open>xs[i:j]\<close>: it panics (\<open>None\<close>) unless
  \<open>0 \<le> i \<le> j \<le> len xs\<close>. \<open>go_index xs i\<close> is \<open>xs[i]\<close>.
\<close>

definition go_slice :: "'a list \<Rightarrow> nat \<Rightarrow> nat \<Rightarrow> 'a list option" where
  "go_slice xs i j = (if i \<le> j \<and> j \<le> length xs then Some (take (j - i) (drop i xs)) else None)"

definition go_index :: "'a list \<Rightarrow> nat \<Rightarrow> 'a option" where
  "go_index xs i = (if i < length xs then Some (xs ! i) else None)"

lemma go_slice_in_range [simp]:
  "i \<le> j \<Longrightarrow> j \<le> length xs \<Longrightarrow> go_slice xs i j = Some (take (j - i) (drop i xs))"
  by (simp add: go_slice_def)

lemma go_slice_out_of_range [simp]:
  "j < i \<or> length xs < j \<Longrightarrow> go_slice xs i j = None"
  by (auto simp: go_slice_def)

lemma go_index_in_range [simp]: "i < length xs \<Longrightarrow> go_index xs i = Some (xs ! i)"
  by (simp add: go_index_def)

lemma go_index_out_of_range [simp]: "length xs \<le> i \<Longrightarrow> go_index xs i = None"
  by (simp add: go_index_def)

section \<open>Generic lemmas\<close>

lemma set_dropWhile_subset: "set (dropWhile P xs) \<subseteq> set xs"
  by (auto dest: set_dropWhileD)

lemma map_of_zip_fst_distinct:
  "distinct (map fst ps) \<Longrightarrow> (k, v) \<in> set ps \<Longrightarrow> map_of ps k = Some v"
  by (rule map_of_is_SomeI)

lemma find_Some_in_set: "find P xs = Some x \<Longrightarrow> x \<in> set xs \<and> P x"
  by (auto simp: find_Some_iff in_set_conv_nth)

lemma sum_list_update_int:
  fixes xs :: "int list"
  assumes "i < length xs"
  shows "sum_list (xs[i := v]) = sum_list xs + v - xs ! i"
  using assms
  by (induction xs arbitrary: i) (auto split: nat.split)

end
