(* ===== verification/Go_Strings.thy ===== *)
theory Go_Strings
  imports Prelude
begin

text \<open>
  The parts of Go's \<open>strings\<close>, \<open>strconv\<close> and \<open>net\<close> packages that the program's text
  handling uses. A Go string is a list of bytes, here a \<open>string\<close> (a list of 8-bit
  characters). Case conversion and white space are those of the ASCII range: the bytes
  from 128 upwards are neither letters nor spaces, so Unicode case folding and the
  non-ASCII spaces of \<open>strings.TrimSpace\<close> are outside the model.
\<close>

section \<open>Package strings\<close>

definition is_space :: "char \<Rightarrow> bool" where
  "is_space c \<longleftrightarrow> c = CHR '' '' \<or> (9 \<le> (of_char c :: nat) \<and> (of_char c :: nat) \<le> 13)"

definition TrimSpace :: "string \<Rightarrow> string" where
  "TrimSpace s = rev (dropWhile is_space (rev (dropWhile is_space s)))"

definition lower :: "char \<Rightarrow> char" where
  "lower c = (if 65 \<le> (of_char c :: nat) \<and> (of_char c :: nat) \<le> 90
              then char_of ((of_char c :: nat) + 32) else c)"

definition ToLower :: "string \<Rightarrow> string" where
  "ToLower s = map lower s"

definition EqualFold :: "string \<Rightarrow> string \<Rightarrow> bool" where
  "EqualFold s t \<longleftrightarrow> ToLower s = ToLower t"

definition HasPrefix :: "string \<Rightarrow> string \<Rightarrow> bool" where
  "HasPrefix s p \<longleftrightarrow> prefix p s"

definition HasSuffix :: "string \<Rightarrow> string \<Rightarrow> bool" where
  "HasSuffix s p \<longleftrightarrow> suffix p s"

definition TrimPrefix :: "string \<Rightarrow> string \<Rightarrow> string" where
  "TrimPrefix s p = (if HasPrefix s p then drop (length p) s else s)"

definition TrimSuffix :: "string \<Rightarrow> string \<Rightarrow> string" where
  "TrimSuffix s p = (if HasSuffix s p then take (length s - length p) s else s)"

definition Trim :: "string \<Rightarrow> string \<Rightarrow> string" where
  "Trim s cutset = rev (dropWhile (\<lambda>c. c \<in> set cutset) (rev (dropWhile (\<lambda>c. c \<in> set cutset) s)))"

definition TrimLeft :: "string \<Rightarrow> string \<Rightarrow> string" where
  "TrimLeft s cutset = dropWhile (\<lambda>c. c \<in> set cutset) s"

definition TrimRight :: "string \<Rightarrow> string \<Rightarrow> string" where
  "TrimRight s cutset = rev (dropWhile (\<lambda>c. c \<in> set cutset) (rev s))"

text \<open>\<open>strings.IndexByte\<close> and \<open>strings.LastIndex\<close> of one byte; \<open>None\<close> is Go's \<open>-1\<close>.\<close>

fun IndexByte :: "string \<Rightarrow> char \<Rightarrow> nat option" where
  "IndexByte [] c = None"
| "IndexByte (x # xs) c = (if x = c then Some 0 else map_option Suc (IndexByte xs c))"

fun LastIndexByte :: "string \<Rightarrow> char \<Rightarrow> nat option" where
  "LastIndexByte [] c = None"
| "LastIndexByte (x # xs) c =
     (case LastIndexByte xs c of
        Some i \<Rightarrow> Some (Suc i)
      | None \<Rightarrow> if x = c then Some 0 else None)"

text \<open>\<open>strings.Split\<close> at a one-byte separator: always at least one piece.\<close>

fun split_on :: "char \<Rightarrow> string \<Rightarrow> string list" where
  "split_on c [] = [[]]"
| "split_on c (x # xs) =
     (if x = c then [] # split_on c xs
      else (case split_on c xs of [] \<Rightarrow> [[x]] | p # ps \<Rightarrow> (x # p) # ps))"

fun join_with :: "string \<Rightarrow> string list \<Rightarrow> string" where
  "join_with sep [] = []"
| "join_with sep [p] = p"
| "join_with sep (p # q # ps) = p @ sep @ join_with sep (q # ps)"

text \<open>\<open>strings.Contains\<close>.\<close>

definition Contains :: "string \<Rightarrow> string \<Rightarrow> bool" where
  "Contains s t \<longleftrightarrow> sublist t s"

section \<open>Package strconv\<close>

definition is_digit :: "char \<Rightarrow> bool" where
  "is_digit c \<longleftrightarrow> 48 \<le> (of_char c :: nat) \<and> (of_char c :: nat) \<le> 57"

definition digit_val :: "char \<Rightarrow> nat" where
  "digit_val c = (of_char c :: nat) - 48"

fun dec_val :: "nat \<Rightarrow> string \<Rightarrow> nat" where
  "dec_val acc [] = acc"
| "dec_val acc (c # cs) = dec_val (10 * acc + digit_val c) cs"

text \<open>
  \<open>strconv.Atoi\<close> on a 64-bit platform: an optional sign and at least one digit, and a
  value within \<open>int64\<close>; anything else is an error (\<open>None\<close>).
\<close>

definition Atoi :: "string \<Rightarrow> int option" where
  "Atoi s =
     (let neg = (case s of c # _ \<Rightarrow> c = CHR ''-'' | [] \<Rightarrow> False);
          ds = (case s of c # cs \<Rightarrow> if c = CHR ''-'' \<or> c = CHR ''+'' then cs else s | [] \<Rightarrow> []);
          v = (if neg then - int (dec_val 0 ds) else int (dec_val 0 ds))
      in if ds \<noteq> [] \<and> list_all is_digit ds \<and> - (2 ^ 63) \<le> v \<and> v < 2 ^ 63 then Some v else None)"

definition hex_digit :: "char \<Rightarrow> nat option" where
  "hex_digit c =
     (let n = (of_char c :: nat) in
      if 48 \<le> n \<and> n \<le> 57 then Some (n - 48)
      else if 97 \<le> n \<and> n \<le> 102 then Some (n - 87)
      else if 65 \<le> n \<and> n \<le> 70 then Some (n - 55)
      else None)"

fun hex_val :: "nat \<Rightarrow> string \<Rightarrow> nat option" where
  "hex_val acc [] = Some acc"
| "hex_val acc (c # cs) =
     (case hex_digit c of None \<Rightarrow> None | Some d \<Rightarrow> hex_val (16 * acc + d) cs)"

text \<open>\<open>strconv.ParseInt(s, 16, 64)\<close>.\<close>

definition ParseHex64 :: "string \<Rightarrow> int option" where
  "ParseHex64 s =
     (let neg = (case s of c # _ \<Rightarrow> c = CHR ''-'' | [] \<Rightarrow> False);
          ds = (case s of c # cs \<Rightarrow> if c = CHR ''-'' \<or> c = CHR ''+'' then cs else s | [] \<Rightarrow> [])
      in if ds = [] then None
         else (case hex_val 0 ds of
                 None \<Rightarrow> None
               | Some n \<Rightarrow>
                   let v = (if neg then - int n else int n)
                   in if - (2 ^ 63) \<le> v \<and> v < 2 ^ 63 then Some v else None))"

text \<open>\<open>strconv.Itoa\<close>, on non-negative numbers and on all.\<close>

fun nat_digits :: "nat \<Rightarrow> string" where
  "nat_digits n = (if n < 10 then [char_of (n + 48)]
                   else nat_digits (n div 10) @ [char_of (n mod 10 + 48)])"

declare nat_digits.simps [simp del]

definition Itoa :: "int \<Rightarrow> string" where
  "Itoa i = (if i < 0 then ''-'' @ nat_digits (nat (- i)) else nat_digits (nat i))"

section \<open>Package net: host and port\<close>

datatype addr_error = MissingPort | TooManyColons | MissingBracket | UnexpectedBracket

definition SplitHostPort :: "string \<Rightarrow> addr_error + (string \<times> string)" where
  "SplitHostPort hp =
     (case LastIndexByte hp CHR '':'' of
        None \<Rightarrow> Inl MissingPort
      | Some i \<Rightarrow>
          if hd hp = CHR ''['' then
            (case IndexByte hp CHR '']'' of
               None \<Rightarrow> Inl MissingBracket
             | Some e \<Rightarrow>
                 if e + 1 = length hp then Inl MissingPort
                 else if e + 1 \<noteq> i then
                   (if hp ! (e + 1) = CHR '':'' then Inl TooManyColons else Inl MissingPort)
                 else if CHR ''['' \<in> set (drop 1 hp) then Inl UnexpectedBracket
                 else if CHR '']'' \<in> set (drop (e + 1) hp) then Inl UnexpectedBracket
                 else Inr (take (e - 1) (drop 1 hp), drop (i + 1) hp))
          else if CHR '':'' \<in> set (take i hp) then Inl TooManyColons
          else if CHR ''['' \<in> set hp \<or> CHR '']'' \<in> set hp then Inl UnexpectedBracket
          else Inr (take i hp, drop (i + 1) hp))"

definition JoinHostPort :: "string \<Rightarrow> string \<Rightarrow> string" where
  "JoinHostPort host port =
     (if CHR '':'' \<in> set host then ''['' @ host @ '']:'' @ port else host @ '':'' @ port)"

section \<open>Lemmas on the string functions\<close>

lemma is_space_lower [simp]: "is_space (lower c) = is_space c"
proof (cases "65 \<le> (of_char c :: nat) \<and> (of_char c :: nat) \<le> 90")
  case True
  then have "(of_char (lower c) :: nat) = (of_char c :: nat) + 32"
    by (simp add: lower_def)
  with True show ?thesis
    by (auto simp: is_space_def)
next
  case False
  then show ?thesis by (auto simp: lower_def)
qed

lemma lower_idem [simp]: "lower (lower c) = lower c"
  by (simp add: lower_def)

lemma lower_fixed [simp]:
  "lower CHR '':'' = CHR '':''" "lower CHR ''['' = CHR ''[''" "lower CHR '']'' = CHR '']''"
  "lower CHR ''.'' = CHR ''.''" "lower CHR ''*'' = CHR ''*''"
  by (simp_all add: lower_def)

lemma lower_eq_fixed:
  assumes "(of_char d :: nat) < 65"
  shows "lower c = d \<longleftrightarrow> c = d"
proof (cases "65 \<le> (of_char c :: nat) \<and> (of_char c :: nat) \<le> 90")
  case True
  then have "(of_char (lower c) :: nat) = (of_char c :: nat) + 32"
    by (simp add: lower_def)
  with True assms show ?thesis by auto
next
  case False
  then show ?thesis by (auto simp: lower_def)
qed

lemma lower_eq_bracket [simp]:
  "lower c = CHR ''['' \<longleftrightarrow> c = CHR ''[''" "lower c = CHR '']'' \<longleftrightarrow> c = CHR '']''"
proof -
  have big: "lower c = d \<longleftrightarrow> c = d" if d: "91 \<le> (of_char d :: nat)" "(of_char d :: nat) < 97" for d
  proof (cases "65 \<le> (of_char c :: nat) \<and> (of_char c :: nat) \<le> 90")
    case True
    then have "(of_char (lower c) :: nat) = (of_char c :: nat) + 32"
      by (simp add: lower_def)
    with True d show ?thesis by auto
  next
    case False
    then show ?thesis by (auto simp: lower_def)
  qed
  show "lower c = CHR ''['' \<longleftrightarrow> c = CHR ''[''" "lower c = CHR '']'' \<longleftrightarrow> c = CHR '']''"
    by (rule big; simp)+
qed

lemma lower_eq_punct [simp]:
  "lower c = CHR '':'' \<longleftrightarrow> c = CHR '':''" "lower c = CHR ''.'' \<longleftrightarrow> c = CHR ''.''"
  "lower c = CHR ''*'' \<longleftrightarrow> c = CHR ''*''"
  by (rule lower_eq_fixed; simp)+

lemma ToLower_simps [simp]:
  "ToLower [] = []"
  "ToLower (c # s) = lower c # ToLower s"
  "ToLower (s @ t) = ToLower s @ ToLower t"
  "length (ToLower s) = length s"
  "ToLower (ToLower s) = ToLower s"
  by (simp_all add: ToLower_def)

lemma ToLower_eq_Nil [simp]: "ToLower s = [] \<longleftrightarrow> s = []"
  by (simp add: ToLower_def)

lemma TrimSpace_ToLower: "TrimSpace (ToLower s) = ToLower (TrimSpace s)"
  by (simp add: TrimSpace_def ToLower_def dropWhile_map rev_map o_def)

lemma TrimSpace_Nil [simp]: "TrimSpace [] = []"
  by (simp add: TrimSpace_def)

lemma set_TrimSpace_subset: "set (TrimSpace s) \<subseteq> set s"
proof
  fix c assume "c \<in> set (TrimSpace s)"
  then have "c \<in> set (dropWhile is_space s)"
    unfolding TrimSpace_def by (metis set_dropWhileD set_rev)
  then show "c \<in> set s" by (rule set_dropWhileD)
qed

lemma TrimSpace_no_space: "\<forall>c \<in> set s. \<not> is_space c \<Longrightarrow> TrimSpace s = s"
proof -
  assume "\<forall>c \<in> set s. \<not> is_space c"
  then have "dropWhile is_space s = s" "dropWhile is_space (rev s) = rev s"
    by (metis dropWhile_eq_self_iff hd_in_set set_rev)+
  then show ?thesis by (simp add: TrimSpace_def)
qed

lemma TrimSpace_idem [simp]: "TrimSpace (TrimSpace s) = TrimSpace s"
proof -
  define t where "t = rev (dropWhile is_space (rev (dropWhile is_space s)))"
  have hd_t: "t \<noteq> [] \<Longrightarrow> \<not> is_space (hd t)"
  proof -
    assume "t \<noteq> []"
    have pre: "prefix t (dropWhile is_space s)"
      unfolding t_def using suffix_dropWhile [of is_space "rev (dropWhile is_space s)"]
      by (simp add: suffix_to_prefix)
    with \<open>t \<noteq> []\<close> have "hd t = hd (dropWhile is_space s)" "dropWhile is_space s \<noteq> []"
      by (metis append_is_Nil_conv hd_append2 prefix_def)+
    then show "\<not> is_space (hd t)" using hd_dropWhile by metis
  qed
  have last_t: "t \<noteq> [] \<Longrightarrow> \<not> is_space (last t)"
    unfolding t_def by (metis hd_dropWhile last_rev rev.simps(1))
  have "dropWhile is_space t = t" using hd_t by (cases t) auto
  moreover have "dropWhile is_space (rev t) = rev t"
    using last_t by (cases t rule: rev_cases) auto
  ultimately show ?thesis by (simp add: TrimSpace_def flip: t_def)
qed

lemma prefix_map_lower: "prefix (map lower p) (map lower s) \<longleftrightarrow> map lower p = take (length p) (map lower s)"
  by (metis length_map prefix_def append_eq_conv_conj)

lemma IndexByte_None_iff: "IndexByte s c = None \<longleftrightarrow> c \<notin> set s"
  by (induction s) auto

lemma IndexByte_SomeD:
  "IndexByte s c = Some i \<Longrightarrow> i < length s \<and> s ! i = c \<and> c \<notin> set (take i s)"
  by (induction s arbitrary: i) (auto split: if_splits)

lemma IndexByte_append:
  "c \<notin> set s \<Longrightarrow> IndexByte (s @ c # t) c = Some (length s)"
  by (induction s) auto

lemma LastIndexByte_None_iff: "LastIndexByte s c = None \<longleftrightarrow> c \<notin> set s"
  by (induction s) (auto split: option.splits if_splits)

lemma LastIndexByte_SomeD:
  "LastIndexByte s c = Some i \<Longrightarrow> i < length s \<and> s ! i = c \<and> c \<notin> set (drop (i + 1) s)"
proof (induction s arbitrary: i)
  case (Cons x s)
  then show ?case
    by (cases "LastIndexByte s c") (auto split: if_splits simp: LastIndexByte_None_iff)
qed simp

lemma LastIndexByte_append:
  "c \<notin> set t \<Longrightarrow> LastIndexByte (s @ c # t) c = Some (length s)"
proof (induction s)
  case Nil
  then have "LastIndexByte t c = None" by (simp add: LastIndexByte_None_iff)
  then show ?case by simp
next
  case (Cons x s)
  then show ?case by simp
qed

lemma IndexByte_map_lower:
  assumes "\<And>x. lower x = c \<longleftrightarrow> x = c"
  shows "IndexByte (map lower s) c = IndexByte s c"
  by (induction s) (auto simp: assms)

lemma LastIndexByte_map_lower:
  assumes "\<And>x. lower x = c \<longleftrightarrow> x = c"
  shows "LastIndexByte (map lower s) c = LastIndexByte s c"
  by (induction s) (auto simp: assms split: option.splits)

lemma in_set_map_lower:
  assumes "\<And>x. lower x = c \<longleftrightarrow> x = c"
  shows "c \<in> set (map lower s) \<longleftrightarrow> c \<in> set s"
  using assms by (metis (no_types, lifting) imageE imageI list.set_map)

text \<open>Splitting an address commutes with case folding.\<close>

lemma SplitHostPort_ToLower:
  "SplitHostPort (ToLower s) =
     (case SplitHostPort s of
        Inl e \<Rightarrow> Inl e
      | Inr (h, p) \<Rightarrow> Inr (ToLower h, ToLower p))"
proof (cases "LastIndexByte s CHR '':''")
  case None
  then show ?thesis
    by (simp add: SplitHostPort_def ToLower_def LastIndexByte_map_lower)
next
  case (Some i)
  then have "s \<noteq> []" and i: "i < length s" by (auto dest: LastIndexByte_SomeD)
  have set_low: "c \<in> lower ` A \<longleftrightarrow> c \<in> A" if "\<And>x. lower x = c \<longleftrightarrow> x = c" for c A
    using that by (metis imageE imageI)
  from Some \<open>s \<noteq> []\<close> show ?thesis
    by (auto simp: SplitHostPort_def ToLower_def LastIndexByte_map_lower IndexByte_map_lower
        hd_map take_map drop_map set_low dest: IndexByte_SomeD split: option.split)
qed

lemma split_on_nonempty [simp]: "split_on c s \<noteq> []"
  by (cases s) (auto split: list.splits)

lemma split_on_join: "join_with [c] (split_on c s) = s"
proof (induction s)
  case (Cons x s)
  obtain p ps where sp: "split_on c s = p # ps"
    by (cases "split_on c s") auto
  with Cons show ?case by (cases ps) auto
qed simp

lemma split_on_no_sep: "p \<in> set (split_on c s) \<Longrightarrow> c \<notin> set p"
proof (induction s arbitrary: p)
  case (Cons x s)
  obtain q qs where sp: "split_on c s = q # qs"
    by (cases "split_on c s") auto
  from Cons.IH Cons.prems sp show ?case by (auto split: if_splits)
qed simp

lemma split_on_atom: "c \<notin> set p \<Longrightarrow> split_on c p = [p]"
  by (induction p) auto

lemma split_on_append: "c \<notin> set p \<Longrightarrow> split_on c (p @ c # s) = p # split_on c s"
  by (induction p) auto

lemma join_split_on:
  "ps \<noteq> [] \<Longrightarrow> \<forall>p \<in> set ps. c \<notin> set p \<Longrightarrow> split_on c (join_with [c] ps) = ps"
  by (induction "[c]" ps rule: join_with.induct) (auto simp: split_on_atom split_on_append)

text \<open>
  \<open>net.SplitHostPort\<close> recovers what \<open>net.JoinHostPort\<close> put together, for a host and a
  port without brackets and a port without a colon.
\<close>

lemma SplitHostPort_JoinHostPort:
  assumes "CHR '':'' \<notin> set port" "CHR ''['' \<notin> set port" "CHR '']'' \<notin> set port"
    and "CHR ''['' \<notin> set host" "CHR '']'' \<notin> set host"
  shows "SplitHostPort (JoinHostPort host port) = Inr (host, port)"
proof (cases "CHR '':'' \<in> set host")
  case True
  let ?hp = "(CHR ''['' # host @ [CHR '']'']) @ CHR '':'' # port"
  have last: "LastIndexByte ?hp CHR '':'' = Some (length host + 2)"
    by (subst LastIndexByte_append) (simp_all add: assms)
  have fst: "IndexByte ?hp CHR '']'' = Some (length host + 1)"
    using IndexByte_append [of "CHR '']''" "CHR ''['' # host" "CHR '':'' # port"] assms by simp
  have "JoinHostPort host port = ?hp"
    using True by (simp add: JoinHostPort_def)
  with last fst assms show ?thesis
    by (simp add: SplitHostPort_def del: LastIndexByte.simps IndexByte.simps)
next
  case False
  then have "LastIndexByte (host @ CHR '':'' # port) CHR '':'' = Some (length host)"
    by (intro LastIndexByte_append) (simp add: assms)
  moreover have "hd (host @ CHR '':'' # port) \<noteq> CHR ''[''"
    using assms by (cases host) auto
  ultimately show ?thesis
    using False assms by (simp add: SplitHostPort_def JoinHostPort_def)
qed

lemma nat_digits_nonempty [simp]: "nat_digits n \<noteq> []"
  by (subst nat_digits.simps) simp

lemma digit_char:
  "d < 10 \<Longrightarrow> is_digit (char_of (d + 48 :: nat))" "d < 10 \<Longrightarrow> digit_val (char_of (d + 48 :: nat)) = d"
  by (simp_all add: is_digit_def digit_val_def)

lemma dec_val_append: "dec_val acc (xs @ ys) = dec_val (dec_val acc xs) ys"
  by (induction xs arbitrary: acc) simp_all

lemma nat_digits_props:
  "dec_val 0 (nat_digits n) = n \<and> list_all is_digit (nat_digits n)"
proof (induction n rule: nat_digits.induct)
  case (1 n)
  show ?case
  proof (cases "n < 10")
    case True
    then show ?thesis
      by (subst (1 2) nat_digits.simps) (simp add: digit_char)
  next
    case False
    moreover have "n mod 10 < 10" by simp
    ultimately show ?thesis using 1
      by (subst (1 2) nat_digits.simps) (simp add: digit_char dec_val_append)
  qed
qed

text \<open>\<open>strconv.Atoi\<close> reads back what \<open>strconv.Itoa\<close> prints.\<close>

lemma Atoi_nat_digits: "n < 2 ^ 63 \<Longrightarrow> Atoi (nat_digits n) = Some (int n)"
proof -
  assume n: "n < 2 ^ 63"
  obtain c cs where d: "nat_digits n = c # cs" by (cases "nat_digits n") auto
  have "is_digit c" using nat_digits_props [of n] d by simp
  then have "c \<noteq> CHR ''-''" "c \<noteq> CHR ''+''" by (auto simp: is_digit_def)
  then show ?thesis
    using nat_digits_props [of n] n d by (simp add: Atoi_def Let_def)
qed

lemma Atoi_Itoa: "- (2 ^ 63) \<le> i \<Longrightarrow> i < 2 ^ 63 \<Longrightarrow> Atoi (Itoa i) = Some i"
proof (cases "i < 0")
  case True
  assume "- (2 ^ 63) \<le> i"
  with True show ?thesis
    using nat_digits_props [of "nat (- i)"] by (simp add: Itoa_def Atoi_def Let_def)
next
  case False
  assume "i < 2 ^ 63"
  then have "nat i < 2 ^ 63" using False by (simp add: nat_less_iff)
  with False show ?thesis using Atoi_nat_digits [of "nat i"] by (simp add: Itoa_def)
qed

text \<open>Single punctuation characters are trimmed independently of case.\<close>

lemma TrimPrefix_char_ToLower:
  assumes "\<And>x. lower x = c \<longleftrightarrow> x = c"
  shows "TrimPrefix (ToLower s) [c] = ToLower (TrimPrefix s [c])"
proof -
  have "c = lower x \<longleftrightarrow> c = x" for x using assms [of x] by auto
  then show ?thesis
    by (cases s) (simp_all add: TrimPrefix_def HasPrefix_def ToLower_def)
qed

lemma TrimSuffix_char_ToLower:
  assumes "\<And>x. lower x = c \<longleftrightarrow> x = c"
  shows "TrimSuffix (ToLower s) [c] = ToLower (TrimSuffix s [c])"
proof -
  have "c = lower x \<longleftrightarrow> c = x" for x using assms [of x] by auto
  then show ?thesis
    by (cases s rule: rev_cases) (simp_all add: TrimSuffix_def HasSuffix_def ToLower_def)
qed

lemma TrimSuffix_snoc [simp]: "TrimSuffix (s @ [c]) [c] = s"
  by (simp add: TrimSuffix_def HasSuffix_def)

lemma TrimSuffix_other: "s = [] \<or> last s \<noteq> c \<Longrightarrow> TrimSuffix s [c] = s"
  by (cases s rule: rev_cases) (auto simp: TrimSuffix_def HasSuffix_def)

lemma TrimPrefix_other: "s = [] \<or> hd s \<noteq> c \<Longrightarrow> TrimPrefix s [c] = s"
  by (cases s) (auto simp: TrimPrefix_def HasPrefix_def)

text \<open>Unfolding rules that evaluate the text functions on literals.\<close>

lemmas str_eval = TrimSpace_def is_space_def ToLower_def lower_def char_of_def bit_0
  HasPrefix_def HasSuffix_def suffix_to_prefix TrimPrefix_def TrimSuffix_def Trim_def
  SplitHostPort_def

end
