(* ===== verification/Config_Source.thy ===== *)
theory Config_Source
  imports Go_Strings
begin

text \<open>
  What the two managers of remote configuration (\<open>cmd/proxy/domainpolicy/manager.go\<close> and
  \<open>cmd/proxy/runtimeconfig/manager.go\<close>) share: the environment they run in, and the
  contract that both of them keep, stated as a locale.

  The environment is an argument of every operation. \<open>http_env\<close> is the URL parser and
  the HTTP client, whose answer to a request is arbitrary. \<open>fs_env\<close> says which file
  operations of a call fail. File contents and HTTP bodies are strings. Errors are
  values of data types instead of the texts that \<open>Error()\<close> prints.
\<close>

section \<open>Environment\<close>

record http_response =
  StatusCode :: int
  body_read :: "string + string"

record 'u http_env =
  url_Parse :: "string \<Rightarrow> string + 'u"
  with_query :: "'u \<Rightarrow> (string \<times> string) list \<Rightarrow> string"
  NewRequest :: "string \<Rightarrow> string option"
  client_Do :: "string \<Rightarrow> string + http_response"

datatype fetch_error =
    UrlError string
  | RequestError string
  | TransportError string
  | StatusError int
  | BodyError string

text \<open>The files by path, and the faults of one call.\<close>

type_synonym files = "string \<rightharpoonup> string"

record fs_env =
  read_fault :: "string option"
  mkdir_fault :: "string option"
  temp_fault :: "string option"
  temp_name :: string
  write_fault :: "(string \<times> string) option"
  close_fault :: "string option"
  remove_fails :: bool
  rename_fault :: "string option"

text \<open>\<open>os.Remove\<close> with its error ignored, as every caller does.\<close>

definition os_Remove :: "fs_env \<Rightarrow> string \<Rightarrow> files \<Rightarrow> files" where
  "os_Remove env path fs = (if remove_fails env then fs else fs(path := None))"

datatype read_result = ReadOk string | NotExist | ReadFault string

definition ReadFile :: "fs_env \<Rightarrow> string \<Rightarrow> files \<Rightarrow> read_result" where
  "ReadFile env path fs =
     (case read_fault env of
        Some e \<Rightarrow> ReadFault e
      | None \<Rightarrow> (case fs path of None \<Rightarrow> NotExist | Some b \<Rightarrow> ReadOk b))"

text \<open>A file system call with no faults, and \<open>TempFile\<close>'s promise of a fresh name.\<close>

definition no_faults :: "string \<Rightarrow> fs_env" where
  "no_faults tmp = \<lparr>read_fault = None, mkdir_fault = None, temp_fault = None, temp_name = tmp,
     write_fault = None, close_fault = None, remove_fails = False, rename_fault = None\<rparr>"

definition fresh_temp :: "fs_env \<Rightarrow> string \<Rightarrow> files \<Rightarrow> bool" where
  "fresh_temp env path fs \<longleftrightarrow> temp_name env \<noteq> path \<and> fs (temp_name env) = None"

section \<open>The GET request\<close>

text \<open>The end of both \<open>fetch\<close> functions, from the request on.\<close>

definition http_get :: "'u http_env \<Rightarrow> string \<Rightarrow> fetch_error + string" where
  "http_get env u =
     (case NewRequest env u of
        Some e \<Rightarrow> Inl (RequestError e)
      | None \<Rightarrow>
          (case client_Do env u of
             Inl e \<Rightarrow> Inl (TransportError e)
           | Inr resp \<Rightarrow>
               if StatusCode resp < 200 \<or> 300 \<le> StatusCode resp
               then Inl (StatusError (StatusCode resp))
               else (case body_read resp of Inl e \<Rightarrow> Inl (BodyError e) | Inr b \<Rightarrow> Inr b)))"

lemma http_get_success:
  "http_get env u = Inr b \<longleftrightarrow>
     NewRequest env u = None \<and>
     (\<exists>resp. client_Do env u = Inr resp \<and> 200 \<le> StatusCode resp \<and> StatusCode resp < 300 \<and>
        body_read resp = Inr b)"
  by (auto simp: http_get_def split: option.splits sum.splits)

section \<open>The contract of a configuration manager\<close>

text \<open>
  A manager reloads its configuration from outside. \<open>outcome\<close> is what a reload finds in
  an environment: nothing to do, an error, or a configuration. It depends on the
  manager's options alone, and no reload changes these.
\<close>

definition run_reloads :: "('env \<Rightarrow> 's \<Rightarrow> 's \<times> 'err option) \<Rightarrow> 's \<Rightarrow> 'env list \<Rightarrow> 's" where
  "run_reloads reload s envs = foldl (\<lambda>s e. fst (reload e s)) s envs"

fun good_configs :: "('env \<Rightarrow> ('err + 'c) option) \<Rightarrow> 'env list \<Rightarrow> 'c list" where
  "good_configs oc [] = []"
| "good_configs oc (e # es) =
     (case oc e of Some (Inr c) \<Rightarrow> c # good_configs oc es | _ \<Rightarrow> good_configs oc es)"

definition last_or :: "'c option \<Rightarrow> 'c list \<Rightarrow> 'c option" where
  "last_or c cs = (if cs = [] then c else Some (last cs))"

lemma good_configs_append: "good_configs f (xs @ ys) = good_configs f xs @ good_configs f ys"
  by (induction xs) (auto split: option.split sum.split)

lemma last_or_append: "last_or (last_or c xs) ys = last_or c (xs @ ys)"
  by (simp add: last_or_def)

locale config_manager =
  fixes reload :: "'env \<Rightarrow> 's \<Rightarrow> 's \<times> 'err option"
    and config :: "'s \<Rightarrow> 'c option"
    and last_error :: "'s \<Rightarrow> 'err option"
    and key :: "'s \<Rightarrow> 'k"
    and outcome :: "'env \<Rightarrow> 's \<Rightarrow> ('err + 'c) option"
  assumes reload_disabled: "outcome e s = None \<Longrightarrow> reload e s = (s, None)"
    and reload_failed: "outcome e s = Some (Inl err) \<Longrightarrow>
          config (fst (reload e s)) = config s \<and> snd (reload e s) = Some err \<and>
          last_error (fst (reload e s)) = Some err"
    and reload_ok: "outcome e s = Some (Inr c) \<Longrightarrow>
          config (fst (reload e s)) = Some c \<and> snd (reload e s) = None \<and>
          last_error (fst (reload e s)) = None"
    and reload_key: "key (fst (reload e s)) = key s"
    and outcome_key: "key s = key t \<Longrightarrow> outcome e s = outcome e t"
begin

lemma outcome_reload: "outcome e' (fst (reload e s)) = outcome e' s"
  by (rule outcome_key) (rule reload_key)

lemma config_reload:
  "config (fst (reload e s)) =
     (case outcome e s of Some (Inr c) \<Rightarrow> Some c | _ \<Rightarrow> config s)"
  using reload_disabled [of e s] reload_failed [of e s] reload_ok [of e s]
  by (auto split: option.split sum.split)

text \<open>The last good configuration stays in force.\<close>

lemma run_config:
  "config (run_reloads reload s envs) = last_or (config s) (good_configs (\<lambda>e. outcome e s) envs)"
proof (induction envs arbitrary: s)
  case (Cons e es)
  have "(\<lambda>e'. outcome e' (fst (reload e s))) = (\<lambda>e'. outcome e' s)"
    by (rule ext) (rule outcome_reload)
  with Cons.IH [of "fst (reload e s)"] show ?case
    by (auto simp: run_reloads_def last_or_def config_reload split: option.split sum.split)
qed (simp add: run_reloads_def last_or_def)

lemma run_key: "key (run_reloads reload s envs) = key s"
  by (induction envs arbitrary: s) (simp_all add: run_reloads_def reload_key)

lemma run_configured: "config s \<noteq> None \<Longrightarrow> config (run_reloads reload s envs) \<noteq> None"
  by (simp add: run_config last_or_def)

text \<open>A reload reports an error exactly when it leaves the configuration alone and was not idle.\<close>

lemma reload_error_iff: "snd (reload e s) = Some err \<longleftrightarrow> outcome e s = Some (Inl err)"
  using reload_disabled [of e s] reload_failed [of e s] reload_ok [of e s]
  by (cases "outcome e s"; cases "the (outcome e s)") auto

end

end
