(* ===== verification/Go_Net.thy ===== *)
theory Go_Net
  imports Go_Strings
begin

unbundle bit_operations_syntax

text \<open>
  IP addresses and networks as package \<open>net\<close> has them: a \<open>net.IP\<close> is a byte slice of
  length 4 or 16, a \<open>net.IPNet\<close> is an address and a mask of the same length. The
  parsers follow \<open>net/netip\<close>: dotted decimal without leading zeros, and colon separated
  groups of up to four hexadecimal digits with at most one ellipsis and an optional
  embedded IPv4 tail. A zone makes \<open>net.ParseIP\<close> and \<open>net.ParseCIDR\<close> fail.
\<close>

type_synonym ip = "byte list"

record ipnet =
  net_ip :: ip
  net_mask :: "byte list"

section \<open>Parsing\<close>

definition v4_in_v6_prefix :: "byte list" where
  "v4_in_v6_prefix = replicate 10 0 @ [255, 255]"

definition parse_octet :: "string \<Rightarrow> byte option" where
  "parse_octet s =
     (if s \<noteq> [] \<and> list_all is_digit s \<and> (length s = 1 \<or> hd s \<noteq> CHR ''0'') \<and> dec_val 0 s \<le> 255
      then Some (of_nat (dec_val 0 s)) else None)"

text \<open>\<open>parseIPv4Fields\<close>: exactly four octets.\<close>

definition parse_v4 :: "string \<Rightarrow> byte list option" where
  "parse_v4 s =
     (case map parse_octet (split_on CHR ''.'' s) of
        [Some a, Some b, Some c, Some d] \<Rightarrow> Some [a, b, c, d]
      | _ \<Rightarrow> None)"

text \<open>
  The loop of \<open>parseIPv6\<close>. \<open>acc\<close> holds the bytes stored so far (\<open>i = length acc\<close>),
  \<open>ell\<close> the position of the ellipsis. The result is the remaining text, the bytes and
  the ellipsis position. Every iteration consumes at least one digit, so the length of
  the text is enough fuel; the entry point supplies it.
\<close>

definition is_hex :: "char \<Rightarrow> bool" where
  "is_hex c \<longleftrightarrow> hex_digit c \<noteq> None"

fun v6_loop :: "nat \<Rightarrow> string \<Rightarrow> byte list \<Rightarrow> nat option
    \<Rightarrow> (string \<times> byte list \<times> nat option) option" where
  "v6_loop 0 s acc ell = Some (s, acc, ell)"
| "v6_loop (Suc n) s acc ell =
     (if 16 \<le> length acc then Some (s, acc, ell)
      else
        let ds = takeWhile is_hex s; rest = dropWhile is_hex s in
        if ds = [] \<or> 4 < length ds then None
        else if rest \<noteq> [] \<and> hd rest = CHR ''.'' then
          (if (ell = None \<and> length acc \<noteq> 12) \<or> 16 < length acc + 4 then None
           else (case parse_v4 s of
                   None \<Rightarrow> None
                 | Some v4 \<Rightarrow> Some ([], acc @ v4, ell)))
        else
          let v = the (hex_val 0 ds);
              acc' = acc @ [of_nat (v div 256), of_nat (v mod 256)] in
          case rest of
            [] \<Rightarrow> Some ([], acc', ell)
          | c # tail \<Rightarrow>
              if c \<noteq> CHR '':'' \<or> tail = [] then None
              else if hd tail = CHR '':'' then
                (if ell \<noteq> None then None
                 else if tl tail = [] then Some ([], acc', Some (length acc'))
                 else v6_loop n (tl tail) acc' (Some (length acc')))
              else v6_loop n tail acc' ell)"

definition parse_v6 :: "string \<Rightarrow> byte list option" where
  "parse_v6 s =
     (let lead = (take 2 s = ''::''); s' = (if lead then drop 2 s else s) in
      if lead \<and> s' = [] then Some (replicate 16 0)
      else (case v6_loop (Suc (length s')) s' [] (if lead then Some 0 else None) of
              None \<Rightarrow> None
            | Some (rest, acc, ell) \<Rightarrow>
                if rest \<noteq> [] then None
                else if length acc < 16 then
                  (case ell of
                     None \<Rightarrow> None
                   | Some e \<Rightarrow> Some (take e acc @ replicate (16 - length acc) 0 @ drop e acc))
                else if ell \<noteq> None then None
                else Some acc))"

text \<open>
  \<open>netip.ParseAddr\<close> looks at the first of \<open>.\<close>, \<open>:\<close> and \<open>%\<close>. The boolean of the result
  tells whether the address is an IPv4 one (\<open>BitLen\<close> 32); a text with a zone has no
  result, since both callers reject it.
\<close>

datatype parsed_addr = Addr4 "byte list" | Addr6 "byte list"

definition ParseAddr :: "string \<Rightarrow> parsed_addr option" where
  "ParseAddr s =
     (if CHR ''%'' \<in> set s then None
      else (case find (\<lambda>c. c = CHR ''.'' \<or> c = CHR '':'') s of
              None \<Rightarrow> None
            | Some c \<Rightarrow>
                if c = CHR ''.'' then map_option Addr4 (parse_v4 s)
                else map_option Addr6 (parse_v6 s)))"

fun As16 :: "parsed_addr \<Rightarrow> ip" where
  "As16 (Addr4 b) = v4_in_v6_prefix @ b"
| "As16 (Addr6 b) = b"

fun BitLen :: "parsed_addr \<Rightarrow> nat" where
  "BitLen (Addr4 b) = 32"
| "BitLen (Addr6 b) = 128"

definition ParseIP :: "string \<Rightarrow> ip option" where
  "ParseIP s = map_option As16 (ParseAddr s)"

section \<open>Addresses and networks\<close>

definition To4 :: "ip \<Rightarrow> ip option" where
  "To4 a =
     (if length a = 4 then Some a
      else if length a = 16 \<and> take 12 a = v4_in_v6_prefix then Some (drop 12 a)
      else None)"

definition IP_Equal :: "ip \<Rightarrow> ip \<Rightarrow> bool" where
  "IP_Equal a b \<longleftrightarrow>
     (if length a = length b then a = b
      else if length a = 4 \<and> length b = 16 then take 12 b = v4_in_v6_prefix \<and> a = drop 12 b
      else if length a = 16 \<and> length b = 4 then take 12 a = v4_in_v6_prefix \<and> drop 12 a = b
      else False)"

text \<open>\<open>CIDRMask(ones, bits)\<close>: byte by byte, eight leading ones at a time.\<close>

fun cidr_mask :: "nat \<Rightarrow> nat \<Rightarrow> byte list" where
  "cidr_mask ones 0 = []"
| "cidr_mask ones (Suc l) =
     (if 8 \<le> ones then 255 # cidr_mask (ones - 8) l
      else NOT (drop_bit ones 255) # cidr_mask 0 l)"

definition CIDRMask :: "nat \<Rightarrow> nat \<Rightarrow> byte list" where
  "CIDRMask ones bits = cidr_mask ones (bits div 8)"

definition IP_Mask :: "ip \<Rightarrow> byte list \<Rightarrow> ip option" where
  "IP_Mask a m =
     (let m' = (if length m = 16 \<and> length a = 4 \<and> take 12 m = replicate 12 255 then drop 12 m else m);
          a' = (if length m' = 4 \<and> length a = 16 \<and> take 12 a = v4_in_v6_prefix then drop 12 a else a)
      in if length a' \<noteq> length m' then None else Some (map2 (AND) a' m'))"

text \<open>\<open>dtoi\<close>: a decimal number below the package's bound \<open>0xFFFFFF\<close>.\<close>

definition dtoi :: "string \<Rightarrow> nat option" where
  "dtoi s = (if s \<noteq> [] \<and> list_all is_digit s \<and> dec_val 0 s < 16777215 then Some (dec_val 0 s) else None)"

definition ParseCIDR :: "string \<Rightarrow> (ip \<times> ipnet) option" where
  "ParseCIDR s =
     (case IndexByte s CHR ''/'' of
        None \<Rightarrow> None
      | Some i \<Rightarrow>
          (case (ParseAddr (take i s), dtoi (drop (i + 1) s)) of
             (Some a, Some n) \<Rightarrow>
               if n \<le> BitLen a then
                 (let m = CIDRMask n (BitLen a) in
                  case IP_Mask (As16 a) m of
                    None \<Rightarrow> None
                  | Some nip \<Rightarrow> Some (As16 a, \<lparr>net_ip = nip, net_mask = m\<rparr>))
               else None
           | _ \<Rightarrow> None))"

text \<open>\<open>networkNumberAndMask\<close> and \<open>(*IPNet).Contains\<close>.\<close>

definition networkNumberAndMask :: "ipnet \<Rightarrow> (ip \<times> byte list) option" where
  "networkNumberAndMask n =
     (let a = (case To4 (net_ip n) of Some x \<Rightarrow> x | None \<Rightarrow> net_ip n); m = net_mask n in
      if length a \<noteq> 4 \<and> length a \<noteq> 16 then None
      else if length m = 4 then (if length a = 4 then Some (a, m) else None)
      else if length m = 16 then Some (a, if length a = 4 then drop 12 m else m)
      else None)"

definition IPNet_Contains :: "ipnet \<Rightarrow> ip \<Rightarrow> bool" where
  "IPNet_Contains n a =
     (let a' = (case To4 a of Some x \<Rightarrow> x | None \<Rightarrow> a) in
      case networkNumberAndMask n of
        None \<Rightarrow> a' = []
      | Some (nn, m) \<Rightarrow>
          length a' = length nn \<and> map2 (AND) nn m = map2 (AND) a' m)"

definition IsLoopback :: "ip \<Rightarrow> bool" where
  "IsLoopback a \<longleftrightarrow>
     (case To4 a of Some x \<Rightarrow> hd x = 127 | None \<Rightarrow> a = replicate 15 0 @ [1])"

text \<open>\<open>IsLinkLocalUnicast\<close> and \<open>IsLinkLocalMulticast\<close> of the standard library.\<close>

definition IsLinkLocalUnicast :: "ip \<Rightarrow> bool" where
  "IsLinkLocalUnicast a \<longleftrightarrow>
     (case To4 a of
        Some x \<Rightarrow> x ! 0 = 169 \<and> x ! 1 = 254
      | None \<Rightarrow> length a = 16 \<and> a ! 0 = 0xfe \<and> and (a ! 1) 0xc0 = 0x80)"

definition IsLinkLocalMulticast :: "ip \<Rightarrow> bool" where
  "IsLinkLocalMulticast a \<longleftrightarrow>
     (case To4 a of
        Some x \<Rightarrow> x ! 0 = 224 \<and> x ! 1 = 0 \<and> x ! 2 = 0
      | None \<Rightarrow> length a = 16 \<and> a ! 0 = 0xff \<and> and (a ! 1) 0x0f = 0x02)"

section \<open>Networks are sets of addresses with a common prefix of bits\<close>

definition byte_bits :: "byte \<Rightarrow> bool list" where
  "byte_bits b = map (bit b) [7, 6, 5, 4, 3, 2, 1, 0]"

definition ip_bits :: "byte list \<Rightarrow> bool list" where
  "ip_bits bs = concat (map byte_bits bs)"

lemma length_byte_bits [simp]: "length (byte_bits b) = 8"
  by (simp add: byte_bits_def)

lemma length_ip_bits [simp]: "length (ip_bits bs) = 8 * length bs"
  by (induction bs) (simp_all add: ip_bits_def)

lemma ip_bits_Cons: "ip_bits (b # bs) = byte_bits b @ ip_bits bs"
  by (simp add: ip_bits_def)

lemma nth_byte_bits: "i < 8 \<Longrightarrow> byte_bits b ! i = bit b (7 - i)"
proof -
  assume "i < 8"
  then consider "i = 0" | "i = 1" | "i = 2" | "i = 3" | "i = 4" | "i = 5" | "i = 6" | "i = 7"
    by linarith
  then show ?thesis by cases (simp_all add: byte_bits_def)
qed

lemma byte_bits_inject: "byte_bits x = byte_bits y \<longleftrightarrow> x = y"
proof
  assume eq: "byte_bits x = byte_bits y"
  show "x = y"
  proof (rule bit_word_eqI)
    fix n assume "n < LENGTH(8)"
    then have "byte_bits x ! (7 - n) = bit x n" "byte_bits y ! (7 - n) = bit y n"
      by (simp_all add: nth_byte_bits)
    with eq show "bit x n = bit y n" by simp
  qed
qed simp

lemma bit_byte_255: "bit (255 :: byte) m \<longleftrightarrow> m < 8"
proof -
  have "bit (mask 8 :: byte) m \<longleftrightarrow> m < 8" unfolding bit_mask_iff by auto
  then show ?thesis by (simp add: mask_eq_exp_minus_1)
qed

lemma bit_prefix_mask:
  "bit (NOT (drop_bit k (255 :: byte))) j \<longleftrightarrow> j < 8 \<and> 8 \<le> k + j"
  unfolding bit_not_iff bit_drop_bit_eq o_apply bit_byte_255 by (auto simp: bit_byte_255)

lemma and_empty_mask: "b AND NOT (drop_bit 0 (255 :: byte)) = 0"
  by (rule bit_word_eqI) (simp add: bit_and_iff bit_prefix_mask del: drop_bit_0)

lemma and_full_byte: "b AND (255 :: byte) = b"
  by (rule bit_word_eqI) (unfold bit_and_iff bit_byte_255, simp)

lemma and_prefix_mask_eq:
  assumes "k \<le> 8"
  shows "x AND NOT (drop_bit k (255 :: byte)) = y AND NOT (drop_bit k 255)
     \<longleftrightarrow> take k (byte_bits x) = take k (byte_bits y)"
proof -
  have "x AND NOT (drop_bit k (255 :: byte)) = y AND NOT (drop_bit k 255)
     \<longleftrightarrow> (\<forall>j < 8. 8 \<le> k + j \<longrightarrow> bit x j = bit y j)"
    by (auto simp: bit_eq_iff [where 'a = "8 word"] bit_and_iff bit_prefix_mask)
  also have "\<dots> \<longleftrightarrow> (\<forall>i < k. bit x (7 - i) = bit y (7 - i))"
  proof (rule iffI; intro allI impI)
    fix i assume "\<forall>j < 8. 8 \<le> k + j \<longrightarrow> bit x j = bit y j" "i < k"
    with assms show "bit x (7 - i) = bit y (7 - i)" by simp
  next
    fix j :: nat assume h: "\<forall>i < k. bit x (7 - i) = bit y (7 - i)" "j < 8" "8 \<le> k + j"
    have "bit x (7 - (7 - j)) = bit y (7 - (7 - j))"
      by (rule h(1) [rule_format, of "7 - j"]) (use h(2,3) in linarith)
    with h(2) show "bit x j = bit y j" by simp
  qed
  also have "\<dots> \<longleftrightarrow> take k (byte_bits x) = take k (byte_bits y)"
    using assms by (simp add: list_eq_iff_nth_eq nth_byte_bits)
  finally show ?thesis .
qed

lemma length_cidr_mask [simp]: "length (cidr_mask n l) = l"
  by (induction l arbitrary: n) auto

lemma cidr_mask_0_and: "length a = l \<Longrightarrow> map2 (AND) a (cidr_mask 0 l) = replicate l 0"
proof (induction l arbitrary: a)
  case (Suc l)
  then obtain b bs where "a = b # bs" "length bs = l" by (cases a) auto
  with Suc.IH show ?case using and_empty_mask [of b] by simp
qed simp

lemma cidr_mask_agree:
  assumes "length a = l" "length b = l" "n \<le> 8 * l"
  shows "map2 (AND) a (cidr_mask n l) = map2 (AND) b (cidr_mask n l)
     \<longleftrightarrow> take n (ip_bits a) = take n (ip_bits b)"
  using assms
proof (induction l arbitrary: a b n)
  case (Suc l)
  then obtain x a' y b' where ab: "a = x # a'" "b = y # b'" "length a' = l" "length b' = l"
    by (cases a; cases b) auto
  show ?case
  proof (cases "8 \<le> n")
    case True
    from Suc.IH [of a' b' "n - 8"] Suc.prems ab True show ?thesis
      by (simp add: ip_bits_Cons and_full_byte byte_bits_inject)
  next
    case False
    with ab show ?thesis
      by (simp add: ip_bits_Cons cidr_mask_0_and and_prefix_mask_eq)
  qed
qed (simp add: ip_bits_def)

lemma map2_and_idem:
  "length a = length m \<Longrightarrow> map2 (AND) (map2 (AND) a m) m = map2 (AND) a (m :: byte list)"
  by (induction a m rule: list_induct2) simp_all

lemma v4_prefix_length [simp]: "length v4_in_v6_prefix = 12"
  by (simp add: v4_in_v6_prefix_def)

lemma To4_As16_v4 [simp]: "length x = 4 \<Longrightarrow> To4 (v4_in_v6_prefix @ x) = Some x"
  by (simp add: To4_def)

lemma To4_length: "To4 a = Some x \<Longrightarrow> length x = 4"
  by (auto simp: To4_def split: if_splits)

lemma parse_v4_length: "parse_v4 s = Some bs \<Longrightarrow> length bs = 4"
  by (auto simp: parse_v4_def split: list.splits option.splits)

lemma v6_loop_length:
  "v6_loop n s acc ell = Some (r, acc', ell') \<Longrightarrow> length acc \<le> 16 \<Longrightarrow> even (length acc) \<Longrightarrow>
   length acc' \<le> 16"
proof (induction n arbitrary: s acc ell)
  case (Suc n)
  have two: "length acc < 16 \<Longrightarrow> length acc + 2 \<le> 16"
    using Suc.prems(3) by (auto elim!: evenE)
  show ?case
    using Suc.prems two
    by (auto simp: Let_def dest!: Suc.IH parse_v4_length split: if_splits option.splits list.splits)
qed auto

lemma parse_v6_length:
  assumes "parse_v6 s = Some bs"
  shows "length bs = 16"
proof -
  have pad: "length (take e acc @ replicate (16 - length acc) 0 @ drop e acc) = 16"
    if "length acc < 16" for e and acc :: "byte list"
    using that by (simp add: min_def)
  show ?thesis
  proof (cases "take 2 s = ''::'' \<and> drop 2 s = []")
    case True
    with assms show ?thesis by (auto simp: parse_v6_def)
  next
    case False
    with assms obtain n t e rest acc ell where
      loop: "v6_loop n t [] e = Some (rest, acc, ell)" and
      res: "(if length acc < 16
             then (case ell of None \<Rightarrow> None
                   | Some e \<Rightarrow> Some (take e acc @ replicate (16 - length acc) 0 @ drop e acc))
             else if ell \<noteq> None then None else Some acc) = Some bs"
      unfolding parse_v6_def Let_def
      by (auto simp del: v6_loop.simps split: option.splits if_splits)
    have "length acc \<le> 16" using v6_loop_length [OF loop] by simp
    with res show ?thesis
      by (auto simp: pad split: if_splits option.splits)
  qed
qed

lemma ParseAddr_length:
  assumes "ParseAddr s = Some a"
  shows "length (As16 a) = 16 \<and> (\<forall>x. a = Addr4 x \<longrightarrow> length x = 4)"
  using assms
  by (auto simp: ParseAddr_def dest!: parse_v4_length parse_v6_length split: if_splits option.splits)

lemma ParseIP_length: "ParseIP s = Some a \<Longrightarrow> length a = 16"
  by (auto simp: ParseIP_def dest: ParseAddr_length)

text \<open>An IPv4 network contains the addresses that share its first \<open>n\<close> bits.\<close>

lemma ParseCIDR_v4_contains:
  assumes "IndexByte s CHR ''/'' = Some i"
    and "ParseAddr (take i s) = Some (Addr4 x)"
    and "dtoi (drop (i + 1) s) = Some n" and "n \<le> 32"
  shows "\<exists>a net. ParseCIDR s = Some (a, net) \<and>
     (\<forall>b. IPNet_Contains net b \<longleftrightarrow>
        (\<exists>y. To4 b = Some y \<and> take n (ip_bits y) = take n (ip_bits x)))"
proof -
  have lx: "length x = 4" using ParseAddr_length [OF assms(2)] by simp
  define m where "m = CIDRMask n 32"
  define net where "net = \<lparr>net_ip = map2 (AND) x m, net_mask = m\<rparr>"
  have lm: "length m = 4" by (simp add: m_def CIDRMask_def)
  have "ParseCIDR s = Some (v4_in_v6_prefix @ x, net)"
    using assms lx lm by (simp add: ParseCIDR_def IP_Mask_def Let_def net_def flip: m_def)
  moreover have "IPNet_Contains net b \<longleftrightarrow>
      (\<exists>y. To4 b = Some y \<and> take n (ip_bits y) = take n (ip_bits x))" for b
  proof (cases "To4 b")
    case None
    then have "length b \<noteq> 4" by (simp add: To4_def split: if_splits)
    with None lm lx show ?thesis
      by (auto simp: IPNet_Contains_def networkNumberAndMask_def To4_def net_def Let_def)
  next
    case (Some y)
    have ly: "length y = 4" using Some by (rule To4_length)
    have "IPNet_Contains net b \<longleftrightarrow> map2 (AND) x m = map2 (AND) y m"
      using Some ly lm lx
      by (simp add: IPNet_Contains_def networkNumberAndMask_def To4_def net_def Let_def map2_and_idem)
    also have "\<dots> \<longleftrightarrow> take n (ip_bits x) = take n (ip_bits y)"
      using cidr_mask_agree [of x 4 y n] lx ly assms(4) by (simp add: m_def CIDRMask_def)
    finally show ?thesis using Some by auto
  qed
  ultimately show ?thesis by blast
qed

text \<open>An IPv6 network that is not IPv4-mapped contains the proper IPv6 addresses that
  share its first \<open>n\<close> bits.\<close>

lemma ParseCIDR_v6_contains:
  assumes "IndexByte s CHR ''/'' = Some i"
    and "ParseAddr (take i s) = Some (Addr6 x)"
    and "dtoi (drop (i + 1) s) = Some n" and "n \<le> 128"
  shows "\<exists>a net. ParseCIDR s = Some (a, net) \<and>
     (To4 (net_ip net) = None \<longrightarrow>
       (\<forall>b. length b = 16 \<longrightarrow>
          (IPNet_Contains net b \<longleftrightarrow> To4 b = None \<and> take n (ip_bits b) = take n (ip_bits x))))"
proof -
  have lx: "length x = 16" using ParseAddr_length [OF assms(2)] by simp
  define m where "m = CIDRMask n 128"
  define net where "net = \<lparr>net_ip = map2 (AND) x m, net_mask = m\<rparr>"
  have lm: "length m = 16" by (simp add: m_def CIDRMask_def)
  have "ParseCIDR s = Some (x, net)"
    using assms lx lm by (simp add: ParseCIDR_def IP_Mask_def Let_def net_def flip: m_def)
  moreover have "IPNet_Contains net b \<longleftrightarrow> To4 b = None \<and> take n (ip_bits b) = take n (ip_bits x)"
    if v6: "To4 (net_ip net) = None" and lb: "length b = 16" for b
  proof (cases "To4 b")
    case None
    have "IPNet_Contains net b \<longleftrightarrow> map2 (AND) x m = map2 (AND) b m"
      using None v6 lb lm lx
      by (simp add: IPNet_Contains_def networkNumberAndMask_def net_def Let_def map2_and_idem)
    also have "\<dots> \<longleftrightarrow> take n (ip_bits x) = take n (ip_bits b)"
      using cidr_mask_agree [of x 16 b n] lx lb assms(4) by (simp add: m_def CIDRMask_def)
    finally show ?thesis using None by auto
  next
    case (Some y)
    have "length y = 4" using Some by (rule To4_length)
    with Some v6 lm lx show ?thesis
      by (simp add: IPNet_Contains_def networkNumberAndMask_def net_def Let_def)
  qed
  ultimately show ?thesis by blast
qed

lemma find_append_skip: "\<forall>x \<in> set xs. \<not> P x \<Longrightarrow> find P (xs @ ys) = find P ys"
  by (induction xs) auto

lemma parse_v4_ParseAddr:
  assumes "parse_v4 s = Some x"
  shows "ParseAddr s = Some (Addr4 x)"
proof -
  obtain a b c d where sp: "split_on CHR ''.'' s = [a, b, c, d]"
    and oct: "\<forall>u \<in> {a, b, c, d}. parse_octet u \<noteq> None"
    using assms by (auto simp: parse_v4_def split: list.splits option.splits)
  have digits: "\<forall>u \<in> {a, b, c, d}. \<forall>ch \<in> set u. is_digit ch"
    using oct by (auto simp: parse_octet_def list_all_iff split: if_splits)
  have s: "s = a @ CHR ''.'' # (b @ CHR ''.'' # c @ CHR ''.'' # d)"
    using split_on_join [of "CHR ''.''" s] sp by simp
  have nd: "\<not> is_digit CHR ''%''" "\<not> is_digit CHR ''.''" "\<not> is_digit CHR '':''"
    by (simp_all add: is_digit_def)
  have "\<forall>ch \<in> set a. \<not> (ch = CHR ''.'' \<or> ch = CHR '':'')" using digits nd by auto
  then have "find (\<lambda>ch. ch = CHR ''.'' \<or> ch = CHR '':'') s = Some CHR ''.''"
    unfolding s by (simp add: find_append_skip)
  moreover have "CHR ''%'' \<notin> set s" using digits nd unfolding s by auto
  ultimately show ?thesis using assms by (simp add: ParseAddr_def)
qed

text \<open>Unfolding rules that evaluate the address parsers on literals.\<close>

lemmas net_eval = ParseCIDR_def ParseIP_def ParseAddr_def parse_v4_def parse_octet_def
  dtoi_def is_digit_def digit_val_def v4_in_v6_prefix_def To4_def

end
