(* ===== verification/Domain_Policy.thy ===== *)
theory Domain_Policy
  imports Go_Net
begin

text \<open>
  The policy engine of \<open>cmd/proxy/domainpolicy/policy.go\<close>: compiling a rule document
  into matcher sets and deciding a connection from its domain and target address. The
  abstract specification at the end reads a decision off the document itself, entry by
  entry; the refinement lemma says that the compiled form implements it.
\<close>

section \<open>Data\<close>

definition DirectionInbound :: string where "DirectionInbound = ''inbound''"
definition DirectionOutbound :: string where "DirectionOutbound = ''outbound''"
definition ModeDefaultAllow :: string where "ModeDefaultAllow = ''default_allow''"
definition ModeDefaultDeny :: string where "ModeDefaultDeny = ''default_deny''"

lemmas policy_consts =
  DirectionInbound_def DirectionOutbound_def ModeDefaultAllow_def ModeDefaultDeny_def

record rule_document =
  Direction :: string
  Mode :: string
  AllowList :: "string list"
  BlockList :: "string list"

record config_document =
  Rules :: "rule_document list"

record matcher_set =
  domains :: "string set"
  wildcardDomains :: "string list"
  ips :: "ip list"
  nets :: "ipnet list"

record direction_policy =
  mode :: string
  allow :: matcher_set
  block :: matcher_set

record policy =
  rules :: "string \<rightharpoonup> direction_policy"

record decision =
  Allowed :: bool
  Reason :: string

record rule_summary =
  SummaryMode :: string
  AllowCount :: nat
  BlockCount :: nat

datatype compile_error =
    UnsupportedDirection string
  | UnsupportedMode string
  | InvalidWildcard string
  | AllowListError string compile_error
  | BlockListError string compile_error

section \<open>Normalising names and addresses\<close>

definition strip_port :: "string \<Rightarrow> string" where
  "strip_port host = (case SplitHostPort host of Inr (h, _) \<Rightarrow> h | Inl _ \<Rightarrow> host)"

definition normalizeDomain :: "string \<Rightarrow> string" where
  "normalizeDomain value =
     (let host = TrimSpace value in
      if host = [] then []
      else ToLower (TrimSuffix (TrimSuffix (TrimPrefix (strip_port host) ''['') '']'') ''.''))"

definition extractIP :: "string \<Rightarrow> ip option" where
  "extractIP value =
     (let host = TrimSpace value in
      if host = [] then None
      else ParseIP (TrimSuffix (TrimPrefix (strip_port host) ''['') '']''))"

section \<open>Compiling\<close>

definition empty_matcher :: matcher_set where
  "empty_matcher = \<lparr>domains = {}, wildcardDomains = [], ips = [], nets = []\<rparr>"

text \<open>One turn of the loop of \<open>compileMatcherSet\<close>.\<close>

definition add_entry :: "string \<Rightarrow> matcher_set \<Rightarrow> compile_error + matcher_set" where
  "add_entry rawValue ms =
     (let value = TrimSpace rawValue in
      if value = [] then Inr ms
      else (case ParseCIDR value of
              Some (_, ipNet) \<Rightarrow> Inr (ms\<lparr>nets := nets ms @ [ipNet]\<rparr>)
            | None \<Rightarrow>
                (case ParseIP (Trim value ''[]'') of
                   Some a \<Rightarrow> Inr (ms\<lparr>ips := ips ms @ [a]\<rparr>)
                 | None \<Rightarrow>
                     let domain = normalizeDomain value in
                     if domain = [] then Inr ms
                     else if HasPrefix domain ''*.'' then
                       let suff = TrimPrefix domain ''*.'' in
                       if suff = [] then Inl (InvalidWildcard rawValue)
                       else Inr (ms\<lparr>wildcardDomains := wildcardDomains ms @ [suff]\<rparr>)
                     else Inr (ms\<lparr>domains := insert domain (domains ms)\<rparr>))))"

fun add_entries :: "string list \<Rightarrow> matcher_set \<Rightarrow> compile_error + matcher_set" where
  "add_entries [] ms = Inr ms"
| "add_entries (v # vs) ms = and_then (add_entry v ms) (add_entries vs)"

definition compileMatcherSet :: "string list \<Rightarrow> compile_error + matcher_set" where
  "compileMatcherSet values = add_entries values empty_matcher"

definition compile_rule :: "rule_document \<Rightarrow> compile_error + (string \<times> direction_policy)" where
  "compile_rule rule =
     (let direction = ToLower (TrimSpace (Direction rule)) in
      if direction \<noteq> DirectionInbound \<and> direction \<noteq> DirectionOutbound
      then Inl (UnsupportedDirection (Direction rule))
      else
        let m0 = ToLower (TrimSpace (Mode rule));
            m = (if m0 = [] then ModeDefaultAllow else m0) in
        if m \<noteq> ModeDefaultAllow \<and> m \<noteq> ModeDefaultDeny then Inl (UnsupportedMode (Mode rule))
        else (case compileMatcherSet (AllowList rule) of
                Inl e \<Rightarrow> Inl (AllowListError direction e)
              | Inr al \<Rightarrow>
                  (case compileMatcherSet (BlockList rule) of
                     Inl e \<Rightarrow> Inl (BlockListError direction e)
                   | Inr bl \<Rightarrow> Inr (direction, \<lparr>mode = m, allow = al, block = bl\<rparr>))))"

fun compile_rules :: "rule_document list \<Rightarrow> (string \<rightharpoonup> direction_policy)
    \<Rightarrow> compile_error + (string \<rightharpoonup> direction_policy)" where
  "compile_rules [] p = Inr p"
| "compile_rules (r # rs) p =
     and_then (compile_rule r) (\<lambda>(direction, dp). compile_rules rs (p(direction \<mapsto> dp)))"

definition Compile :: "config_document \<Rightarrow> compile_error + policy" where
  "Compile doc = and_then (compile_rules (Rules doc) Map.empty) (\<lambda>m. Inr \<lparr>rules = m\<rparr>)"

text \<open>
  \<open>Parse\<close> decodes the document first. The JSON decoder is a parameter: the error it
  returns, or the document it fills in.
\<close>

datatype 'e parse_error = DecodeError 'e | CompileError compile_error

definition Parse :: "('b \<Rightarrow> 'e + config_document) \<Rightarrow> 'b \<Rightarrow> 'e parse_error + policy" where
  "Parse unmarshal body =
     (case unmarshal body of
        Inl e \<Rightarrow> Inl (DecodeError e)
      | Inr doc \<Rightarrow> (case Compile doc of Inl e \<Rightarrow> Inl (CompileError e) | Inr p \<Rightarrow> Inr p))"

section \<open>Deciding\<close>

definition matches :: "matcher_set \<Rightarrow> string \<Rightarrow> ip option \<Rightarrow> bool" where
  "matches m domain ip \<longleftrightarrow>
     (domain \<noteq> [] \<and>
        (domain \<in> domains m \<or>
         list_ex (\<lambda>suff. HasSuffix domain (''.'' @ suff) \<and> domain \<noteq> suff) (wildcardDomains m))) \<or>
     (case ip of
        None \<Rightarrow> False
      | Some a \<Rightarrow> list_ex (\<lambda>item. IP_Equal item a) (ips m) \<or>
                  list_ex (\<lambda>network. IPNet_Contains network a) (nets m))"

definition matcher_count :: "matcher_set \<Rightarrow> nat" where
  "matcher_count m =
     card (domains m) + length (wildcardDomains m) + length (ips m) + length (nets m)"

definition allowed :: decision where "allowed = \<lparr>Allowed = True, Reason = []\<rparr>"
definition denied :: "string \<Rightarrow> decision" where "denied r = \<lparr>Allowed = False, Reason = r\<rparr>"

definition Evaluate :: "policy option \<Rightarrow> string \<Rightarrow> string \<Rightarrow> string \<Rightarrow> decision" where
  "Evaluate p direction domain targetAddr =
     (case p of
        None \<Rightarrow> allowed
      | Some pol \<Rightarrow>
          (case rules pol direction of
             None \<Rightarrow> allowed
           | Some rule \<Rightarrow>
               let normalizedDomain = normalizeDomain domain; targetIP = extractIP targetAddr in
               if mode rule = ModeDefaultAllow then
                 (if matches (block rule) normalizedDomain targetIP
                  then denied ''domain_policy_blocklist'' else allowed)
               else if mode rule = ModeDefaultDeny then
                 (if matches (allow rule) normalizedDomain targetIP
                  then allowed else denied ''domain_policy_allowlist'')
               else allowed))"

definition Summary :: "policy option \<Rightarrow> (string \<rightharpoonup> rule_summary)" where
  "Summary p =
     (case p of
        None \<Rightarrow> Map.empty
      | Some pol \<Rightarrow> (\<lambda>direction. map_option
          (\<lambda>rule. \<lparr>SummaryMode = mode rule, AllowCount = matcher_count (allow rule),
                   BlockCount = matcher_count (block rule)\<rparr>) (rules pol direction)))"

section \<open>The abstract specification\<close>

text \<open>What one entry of an allow or block list says about a connection.\<close>

definition entry_matches :: "string \<Rightarrow> string \<Rightarrow> ip option \<Rightarrow> bool" where
  "entry_matches raw domain ip \<longleftrightarrow>
     (let value = TrimSpace raw in
      value \<noteq> [] \<and>
      (case ParseCIDR value of
         Some (_, n) \<Rightarrow> (\<exists>a. ip = Some a \<and> IPNet_Contains n a)
       | None \<Rightarrow>
           (case ParseIP (Trim value ''[]'') of
              Some item \<Rightarrow> (\<exists>a. ip = Some a \<and> IP_Equal item a)
            | None \<Rightarrow>
                let d = normalizeDomain value in
                d \<noteq> [] \<and> domain \<noteq> [] \<and>
                (if HasPrefix d ''*.''
                 then (\<exists>sub. domain = sub @ ''.'' @ TrimPrefix d ''*.'')
                 else domain = d))))"

definition rule_direction :: "rule_document \<Rightarrow> string" where
  "rule_direction r = ToLower (TrimSpace (Direction r))"

definition deny_by_default :: "rule_document \<Rightarrow> bool" where
  "deny_by_default r \<longleftrightarrow> ToLower (TrimSpace (Mode r)) = ModeDefaultDeny"

text \<open>The last rule of a direction is the one in force; without a rule traffic passes.\<close>

definition policy_spec :: "config_document \<Rightarrow> string \<Rightarrow> string \<Rightarrow> string \<Rightarrow> decision" where
  "policy_spec doc direction domain target =
     (case find (\<lambda>r. rule_direction r = direction) (rev (Rules doc)) of
        None \<Rightarrow> allowed
      | Some r \<Rightarrow>
          let d = normalizeDomain domain; a = extractIP target in
          if deny_by_default r
          then (if \<exists>v \<in> set (AllowList r). entry_matches v d a
                then allowed else denied ''domain_policy_allowlist'')
          else (if \<exists>v \<in> set (BlockList r). entry_matches v d a
                then denied ''domain_policy_blocklist'' else allowed))"

text \<open>A document is well formed when every rule names a direction and a mode and no
  entry is a wildcard without a suffix.\<close>

definition bad_wildcard :: "string \<Rightarrow> bool" where
  "bad_wildcard raw \<longleftrightarrow>
     (let v = TrimSpace raw in
      v \<noteq> [] \<and> ParseCIDR v = None \<and> ParseIP (Trim v ''[]'') = None \<and> normalizeDomain v = ''*.'')"

definition rule_ok :: "rule_document \<Rightarrow> bool" where
  "rule_ok r \<longleftrightarrow>
     rule_direction r \<in> {DirectionInbound, DirectionOutbound} \<and>
     ToLower (TrimSpace (Mode r)) \<in> {[], ModeDefaultAllow, ModeDefaultDeny} \<and>
     (\<forall>v \<in> set (AllowList r) \<union> set (BlockList r). \<not> bad_wildcard v)"

section \<open>Compiled matcher sets mean their entries\<close>

lemma proper_suffix_iff:
  "HasSuffix domain (''.'' @ suff) \<and> domain \<noteq> suff \<longleftrightarrow> (\<exists>sub. domain = sub @ ''.'' @ suff)"
  by (auto simp: HasSuffix_def suffix_def)

lemma TrimPrefix_eq_Nil:
  "HasPrefix d p \<Longrightarrow> TrimPrefix d p = [] \<longleftrightarrow> d = p"
  by (auto simp: TrimPrefix_def HasPrefix_def prefix_def)

lemma matches_empty [simp]: "\<not> matches empty_matcher d a"
  by (simp add: matches_def empty_matcher_def split: option.split)

lemma matches_add:
  "matches (ms\<lparr>nets := nets ms @ [n]\<rparr>) d a \<longleftrightarrow>
     matches ms d a \<or> (\<exists>x. a = Some x \<and> IPNet_Contains n x)"
  "matches (ms\<lparr>ips := ips ms @ [i]\<rparr>) d a \<longleftrightarrow>
     matches ms d a \<or> (\<exists>x. a = Some x \<and> IP_Equal i x)"
  "matches (ms\<lparr>wildcardDomains := wildcardDomains ms @ [w]\<rparr>) d a \<longleftrightarrow>
     matches ms d a \<or> (d \<noteq> [] \<and> (\<exists>sub. d = sub @ ''.'' @ w))"
  "matches (ms\<lparr>domains := insert e (domains ms)\<rparr>) d a \<longleftrightarrow>
     matches ms d a \<or> (d \<noteq> [] \<and> d = e)"
  using proper_suffix_iff [of d w] unfolding matches_def
  by (auto split: option.splits)

lemma add_entry_Inr:
  assumes "add_entry v ms = Inr ms'"
  shows "matches ms' d a \<longleftrightarrow> matches ms d a \<or> entry_matches v d a"
proof -
  let ?v = "TrimSpace v"
  consider (empty) "?v = []"
    | (net) n x where "?v \<noteq> []" "ParseCIDR ?v = Some (x, n)"
    | (ip) i where "?v \<noteq> []" "ParseCIDR ?v = None" "ParseIP (Trim ?v ''[]'') = Some i"
    | (name) "?v \<noteq> []" "ParseCIDR ?v = None" "ParseIP (Trim ?v ''[]'') = None"
    by (cases "ParseCIDR ?v"; cases "ParseIP (Trim ?v ''[]'')") auto
  then show ?thesis
  proof cases
    case name
    then show ?thesis
      using assms
      by (auto simp: add_entry_def entry_matches_def Let_def matches_add split: if_splits)
  next
    case empty
    with assms show ?thesis by (simp add: add_entry_def entry_matches_def)
  next
    case net
    with assms show ?thesis by (auto simp: add_entry_def entry_matches_def Let_def matches_add)
  next
    case ip
    with assms show ?thesis by (auto simp: add_entry_def entry_matches_def Let_def matches_add)
  qed
qed

lemma add_entry_Inl_iff:
  "(\<exists>e. add_entry v ms = Inl e) \<longleftrightarrow> bad_wildcard v"
proof -
  have "HasPrefix ''*.'' ''*.''" by (simp add: HasPrefix_def)
  then show ?thesis
    by (auto simp: add_entry_def bad_wildcard_def Let_def TrimPrefix_eq_Nil
        split: option.splits if_splits)
qed

lemma add_entries_Inr:
  "add_entries vs ms = Inr ms' \<Longrightarrow>
   matches ms' d a \<longleftrightarrow> matches ms d a \<or> (\<exists>v \<in> set vs. entry_matches v d a)"
proof (induction vs arbitrary: ms)
  case (Cons v vs)
  then obtain ms1 where "add_entry v ms = Inr ms1" "add_entries vs ms1 = Inr ms'"
    by (auto simp: and_then_eq_Inr)
  with Cons.IH add_entry_Inr show ?case by auto
qed simp

lemma add_entries_Inl_iff:
  "(\<exists>e. add_entries vs ms = Inl e) \<longleftrightarrow> (\<exists>v \<in> set vs. bad_wildcard v)"
proof (induction vs arbitrary: ms)
  case (Cons v vs)
  show ?case
  proof (cases "add_entry v ms")
    case (Inl e)
    then show ?thesis using add_entry_Inl_iff [of v ms] by auto
  next
    case (Inr ms1)
    then have "\<not> bad_wildcard v" using add_entry_Inl_iff [of v ms] by auto
    with Inr Cons.IH [of ms1] show ?thesis by simp
  qed
qed simp

lemma compileMatcherSet_Inr:
  "compileMatcherSet vs = Inr ms \<Longrightarrow> matches ms d a \<longleftrightarrow> (\<exists>v \<in> set vs. entry_matches v d a)"
  unfolding compileMatcherSet_def using add_entries_Inr by fastforce

lemma compileMatcherSet_Inl_iff:
  "(\<exists>e. compileMatcherSet vs = Inl e) \<longleftrightarrow> (\<exists>v \<in> set vs. bad_wildcard v)"
  unfolding compileMatcherSet_def by (rule add_entries_Inl_iff)

section \<open>Compiled documents mean their rules\<close>

lemma ModeDefaultAllow_neq [simp]:
  "ModeDefaultAllow \<noteq> []" "ModeDefaultDeny \<noteq> []" "ModeDefaultAllow \<noteq> ModeDefaultDeny"
  "ModeDefaultDeny \<noteq> ModeDefaultAllow" "[] \<noteq> ModeDefaultAllow" "[] \<noteq> ModeDefaultDeny"
  by (simp_all add: policy_consts)

lemma compile_rule_Inr:
  assumes "compile_rule r = Inr (dir, dp)"
  shows "dir = rule_direction r" "dir \<in> {DirectionInbound, DirectionOutbound}"
    "mode dp = (if deny_by_default r then ModeDefaultDeny else ModeDefaultAllow)"
    "compileMatcherSet (AllowList r) = Inr (allow dp)"
    "compileMatcherSet (BlockList r) = Inr (block dp)"
  using assms
  by (auto simp: compile_rule_def rule_direction_def deny_by_default_def Let_def
      split: if_splits sum.splits)

lemma compile_rule_Inl_iff: "(\<exists>e. compile_rule r = Inl e) \<longleftrightarrow> \<not> rule_ok r"
proof -
  have bad: "(\<exists>e. compileMatcherSet l = Inl e) \<longleftrightarrow> (\<exists>v \<in> set l. bad_wildcard v)" for l
    by (rule compileMatcherSet_Inl_iff)
  have good: "(\<exists>m. compileMatcherSet l = Inr m) \<longleftrightarrow> \<not> (\<exists>v \<in> set l. bad_wildcard v)" for l
    using bad [of l] by (metis obj_sumE sum.simps(4))
  show ?thesis
    using bad [of "AllowList r"] bad [of "BlockList r"] good [of "AllowList r"] good [of "BlockList r"]
    by (auto simp: compile_rule_def rule_ok_def rule_direction_def Let_def
        split: sum.splits)
qed

lemma compile_rules_Inr:
  "compile_rules rs p = Inr m \<Longrightarrow>
   m dir = (case find (\<lambda>r. rule_direction r = dir) (rev rs) of
              None \<Rightarrow> p dir
            | Some r \<Rightarrow> (case compile_rule r of Inr (_, dp) \<Rightarrow> Some dp | Inl _ \<Rightarrow> None))
   \<and> (\<forall>r \<in> set rs. \<exists>x. compile_rule r = Inr x)"
proof (induction rs arbitrary: p)
  case (Cons r rs)
  then obtain d dp where r: "compile_rule r = Inr (d, dp)"
    and rest: "compile_rules rs (p(d \<mapsto> dp)) = Inr m"
    by (auto simp: and_then_eq_Inr)
  have d: "d = rule_direction r" by (rule compile_rule_Inr [OF r])
  have find_snoc: "find P (xs @ [y]) = (case find P xs of None \<Rightarrow> if P y then Some y else None | Some z \<Rightarrow> Some z)"
    for P :: "rule_document \<Rightarrow> bool" and xs y
    by (induction xs) auto
  from Cons.IH [OF rest] r d show ?case
    by (auto simp: find_snoc split: option.splits)
qed simp

lemma compile_rules_Inl_iff:
  "(\<exists>e. compile_rules rs p = Inl e) \<longleftrightarrow> (\<exists>r \<in> set rs. \<not> rule_ok r)"
proof (induction rs arbitrary: p)
  case (Cons r rs)
  show ?case
  proof (cases "compile_rule r")
    case (Inl e)
    then show ?thesis using compile_rule_Inl_iff [of r] by auto
  next
    case (Inr x)
    then have "rule_ok r" using compile_rule_Inl_iff [of r] by auto
    with Inr Cons.IH show ?thesis by (cases x) simp
  qed
qed simp

lemma Compile_Inr_rules:
  assumes "Compile doc = Inr p"
  shows "rules p dir =
    (case find (\<lambda>r. rule_direction r = dir) (rev (Rules doc)) of
       None \<Rightarrow> None
     | Some r \<Rightarrow> (case compile_rule r of Inr (_, dp) \<Rightarrow> Some dp | Inl _ \<Rightarrow> None))"
    and "\<forall>r \<in> set (Rules doc). \<exists>x. compile_rule r = Inr x"
  using assms by (auto simp: Compile_def and_then_eq_Inr dest!: compile_rules_Inr split: option.splits)

lemma Evaluate_Compile:
  assumes "Compile doc = Inr p"
  shows "Evaluate (Some p) dir domain target = policy_spec doc dir domain target"
proof (cases "find (\<lambda>r. rule_direction r = dir) (rev (Rules doc))")
  case None
  with Compile_Inr_rules [OF assms] show ?thesis
    by (simp add: Evaluate_def policy_spec_def)
next
  case (Some r)
  then have "r \<in> set (Rules doc)" by (auto dest: find_Some_in_set)
  with Compile_Inr_rules(2) [OF assms] obtain d dp where r: "compile_rule r = Inr (d, dp)"
    by fastforce
  with Some Compile_Inr_rules(1) [OF assms] have rule: "rules p dir = Some dp" by simp
  note dp = compile_rule_Inr [OF r]
  show ?thesis
    using rule Some dp(3) compileMatcherSet_Inr [OF dp(4)] compileMatcherSet_Inr [OF dp(5)]
    by (simp add: Evaluate_def policy_spec_def Let_def)
qed

section \<open>Normal forms of names\<close>

lemma strip_port_ToLower: "strip_port (ToLower s) = ToLower (strip_port s)"
  by (auto simp: strip_port_def SplitHostPort_ToLower split: sum.split)

lemma normalizeDomain_ToLower: "normalizeDomain (ToLower s) = normalizeDomain s"
  by (simp add: normalizeDomain_def TrimSpace_ToLower strip_port_ToLower
      TrimPrefix_char_ToLower TrimSuffix_char_ToLower Let_def)

definition plain_name :: "string \<Rightarrow> bool" where
  "plain_name h \<longleftrightarrow> h \<noteq> [] \<and> last h \<noteq> CHR ''.'' \<and> (\<forall>c \<in> set h. \<not> is_space c) \<and>
     CHR '':'' \<notin> set h \<and> CHR ''['' \<notin> set h \<and> CHR '']'' \<notin> set h"

definition plain_port :: "string \<Rightarrow> bool" where
  "plain_port p \<longleftrightarrow>
     (\<forall>c \<in> set p. \<not> is_space c) \<and>
     CHR '':'' \<notin> set p \<and> CHR ''['' \<notin> set p \<and> CHR '']'' \<notin> set p"

lemma strip_port_atom: "CHR '':'' \<notin> set s \<Longrightarrow> strip_port s = s"
  by (simp add: strip_port_def SplitHostPort_def LastIndexByte_None_iff [THEN iffD2])

lemma strip_port_JoinHostPort:
  assumes "plain_port port" "CHR ''['' \<notin> set h" "CHR '']'' \<notin> set h"
  shows "strip_port (JoinHostPort h port) = h"
proof -
  have "CHR '':'' \<notin> set port" "CHR ''['' \<notin> set port" "CHR '']'' \<notin> set port"
    using assms(1) unfolding plain_port_def by blast+
  from SplitHostPort_JoinHostPort [OF this assms(2,3)] show ?thesis
    by (simp add: strip_port_def)
qed

lemma brackets_dot_trim:
  assumes "CHR ''['' \<notin> set h" "CHR '']'' \<notin> set h" "h \<noteq> []" "last h \<noteq> CHR ''.''"
  shows "TrimSuffix (TrimSuffix (TrimPrefix h ''['') '']'') ''.'' = h"
    "TrimSuffix (TrimSuffix (TrimPrefix (h @ ''.'') ''['') '']'') ''.'' = h"
proof -
  have "hd h \<noteq> CHR ''[''" "last h \<noteq> CHR '']''"
    using assms by (metis hd_in_set last_in_set)+
  with assms show "TrimSuffix (TrimSuffix (TrimPrefix h ''['') '']'') ''.'' = h"
    "TrimSuffix (TrimSuffix (TrimPrefix (h @ ''.'') ''['') '']'') ''.'' = h"
    by (simp_all add: TrimPrefix_other TrimSuffix_other)
qed

lemma normalizeDomain_plain:
  assumes h: "plain_name h"
  shows "normalizeDomain h = ToLower h"
    "normalizeDomain (h @ ''.'') = ToLower h"
proof -
  have "\<not> is_space CHR ''.''" by (simp add: is_space_def)
  then have "TrimSpace h = h" "TrimSpace (h @ ''.'') = h @ ''.''"
    using h by (simp_all add: plain_name_def TrimSpace_no_space)
  moreover have "strip_port h = h" "strip_port (h @ ''.'') = h @ ''.''"
    using h by (simp_all add: plain_name_def strip_port_atom)
  moreover have "CHR ''['' \<notin> set h" "CHR '']'' \<notin> set h" "h \<noteq> []" "last h \<noteq> CHR ''.''"
    using h by (simp_all add: plain_name_def)
  ultimately show "normalizeDomain h = ToLower h" "normalizeDomain (h @ ''.'') = ToLower h"
    using brackets_dot_trim [of h] by (simp_all add: normalizeDomain_def)
qed

lemma Evaluate_cong:
  "normalizeDomain d = normalizeDomain d' \<Longrightarrow> Evaluate p dir d t = Evaluate p dir d' t"
  by (simp add: Evaluate_def Let_def split: option.split)

lemma normalizeDomain_port:
  assumes h: "plain_name h" and p: "plain_port p"
  shows "normalizeDomain (JoinHostPort h p) = ToLower h"
proof -
  have br: "CHR ''['' \<notin> set h" "CHR '']'' \<notin> set h" "h \<noteq> []" "last h \<noteq> CHR ''.''"
    and "CHR '':'' \<notin> set h"
    using h by (simp_all add: plain_name_def)
  then have join: "JoinHostPort h p = h @ '':'' @ p" by (simp add: JoinHostPort_def)
  have "\<not> is_space CHR '':''" by (simp add: is_space_def)
  then have "TrimSpace (JoinHostPort h p) = JoinHostPort h p"
    using h p unfolding join
    by (intro TrimSpace_no_space) (simp add: plain_name_def plain_port_def ball_Un)
  moreover have "strip_port (JoinHostPort h p) = h"
    using br p by (intro strip_port_JoinHostPort)
  moreover have "JoinHostPort h p \<noteq> []" by (simp add: join)
  ultimately show ?thesis
    using brackets_dot_trim [OF br] by (simp add: normalizeDomain_def)
qed

section \<open>Properties\<close>

text \<open>
  C1. The policy engine implements its specification: once a document compiles, the
  decision for a direction, a domain and a target address is the one the last rule of
  that direction gives when its list is read entry by entry (networks, addresses,
  wildcard and exact names), with a block list reason or an allow list reason when the
  connection is refused.
\<close>

theorem Evaluate_refines_spec:
  assumes "Compile doc = Inr p"
  shows "Evaluate (Some p) dir domain target = policy_spec doc dir domain target"
  by (rule Evaluate_Compile [OF assms])

definition sample_document :: config_document where
  "sample_document = \<lparr>Rules =
     [\<lparr>Direction = ''outbound'', Mode = ''default_allow'', AllowList = [],
       BlockList = [''*.Blocked.example'', ''bad.example.com'']\<rparr>,
      \<lparr>Direction = '' Inbound'', Mode = ''default_deny'', AllowList = [''192.0.2.10''],
       BlockList = []\<rparr>]\<rparr>"

lemma sample_document_compiles: "\<exists>p. Compile sample_document = Inr p"
  by (simp add: sample_document_def Compile_def compile_rule_def Let_def str_eval policy_consts
      compileMatcherSet_def add_entry_def net_eval normalizeDomain_def strip_port_def)

theorem Evaluate_refines_spec_witness:
  "\<exists>p. Compile sample_document = Inr p \<and>
     Evaluate (Some p) ''outbound'' ''api.blocked.example:443'' ''203.0.113.10:443'' =
       denied ''domain_policy_blocklist'' \<and>
     Evaluate (Some p) ''outbound'' ''blocked.example'' ''203.0.113.10:443'' = allowed"
proof -
  obtain p where p: "Compile sample_document = Inr p" using sample_document_compiles by blast
  have "policy_spec sample_document ''outbound'' ''api.blocked.example:443'' ''203.0.113.10:443''
      = denied ''domain_policy_blocklist''"
    "policy_spec sample_document ''outbound'' ''blocked.example'' ''203.0.113.10:443'' = allowed"
    by (simp_all add: policy_spec_def sample_document_def rule_direction_def str_eval
        deny_by_default_def policy_consts entry_matches_def net_eval normalizeDomain_def
        strip_port_def)
  with p Evaluate_refines_spec [OF p] show ?thesis by metis
qed


text \<open>
  C3. The decision does not depend on how a name is written: the case of its letters, a
  trailing dot and a port after the name make no difference.
\<close>

theorem Evaluate_name_forms:
  assumes "plain_name h" and "plain_port port" and "ToLower h' = ToLower h"
  shows "Evaluate p dir h' target = Evaluate p dir h target \<and>
    Evaluate p dir (h @ ''.'') target = Evaluate p dir h target \<and>
    Evaluate p dir (JoinHostPort h port) target = Evaluate p dir h target"
proof -
  have "normalizeDomain h' = normalizeDomain h"
    using assms(3) normalizeDomain_ToLower by metis
  moreover have "normalizeDomain (h @ ''.'') = normalizeDomain h"
    "normalizeDomain (JoinHostPort h port) = normalizeDomain h"
    using normalizeDomain_plain [OF assms(1)] normalizeDomain_port [OF assms(1,2)]
    by (simp_all only:)
  ultimately show ?thesis by (intro conjI Evaluate_cong)
qed

theorem Evaluate_name_forms_witness:
  "\<forall>p dir t.
     Evaluate p dir ''API.Example.com'' t = Evaluate p dir ''api.example.com'' t \<and>
     Evaluate p dir (''api.example.com'' @ ''.'') t = Evaluate p dir ''api.example.com'' t \<and>
     Evaluate p dir (JoinHostPort ''api.example.com'' ''443'') t = Evaluate p dir ''api.example.com'' t"
proof -
  have "plain_name ''api.example.com''" "plain_port ''443''"
    "ToLower ''API.Example.com'' = ToLower ''api.example.com''"
    by (simp_all add: plain_name_def plain_port_def str_eval)
  from Evaluate_name_forms [OF this] show ?thesis by blast
qed

lemma entry_matches_network:
  assumes "TrimSpace entry = addr @ ''/'' @ len" and "CHR ''/'' \<notin> set addr"
    and "parse_v4 addr = Some x" and "dtoi len = Some n" and "n \<le> 32"
    and "To4 t = Some y" and "take n (ip_bits y) = take n (ip_bits x)"
  shows "entry_matches entry domain (Some t)"
proof -
  let ?v = "addr @ ''/'' @ len"
  have idx: "IndexByte ?v CHR ''/'' = Some (length addr)"
    using IndexByte_append [OF assms(2)] by simp
  have "ParseAddr addr = Some (Addr4 x)" using assms(3) by (rule parse_v4_ParseAddr)
  then have "\<exists>a net. ParseCIDR ?v = Some (a, net) \<and>
     (\<forall>b. IPNet_Contains net b \<longleftrightarrow> (\<exists>y. To4 b = Some y \<and> take n (ip_bits y) = take n (ip_bits x)))"
    using assms(4,5) by (intro ParseCIDR_v4_contains [OF idx]) simp_all
  with assms(1,6,7) show ?thesis by (auto simp: entry_matches_def)
qed

text \<open>
  A blocked IPv4 network is blocked by address whatever the name: under a default
  allow rule, a connection whose target address shares the first \<open>n\<close> bits of a block
  list entry \<open>a.b.c.d/n\<close> is refused, for every domain the client presents.
\<close>

theorem blocked_network_denied:
  assumes "Compile doc = Inr p"
    and "find (\<lambda>r. rule_direction r = dir) (rev (Rules doc)) = Some r" and "\<not> deny_by_default r"
    and "entry \<in> set (BlockList r)" and "TrimSpace entry = addr @ ''/'' @ len"
    and "CHR ''/'' \<notin> set addr" and "parse_v4 addr = Some x" and "dtoi len = Some n" and "n \<le> 32"
    and "extractIP target = Some t" and "To4 t = Some y"
    and "take n (ip_bits y) = take n (ip_bits x)"
  shows "Evaluate (Some p) dir domain target = denied ''domain_policy_blocklist''"
proof -
  have "entry_matches entry (normalizeDomain domain) (Some t)"
    by (rule entry_matches_network [OF assms(5-9) assms(11,12)])
  with assms(2-4) assms(10) have "policy_spec doc dir domain target = denied ''domain_policy_blocklist''"
    by (auto simp: policy_spec_def)
  with Evaluate_Compile [OF assms(1)] show ?thesis by simp
qed

definition network_document :: config_document where
  "network_document = \<lparr>Rules =
     [\<lparr>Direction = ''outbound'', Mode = [], AllowList = [], BlockList = ['' 198.51.100.0/24'']\<rparr>]\<rparr>"

lemma network_document_compiles: "\<exists>p. Compile network_document = Inr p"
proof -
  have "rule_ok r" if "r \<in> set (Rules network_document)" for r
    using that by (simp add: network_document_def rule_ok_def rule_direction_def str_eval
        policy_consts bad_wildcard_def normalizeDomain_def strip_port_def)
  then have "\<not> (\<exists>e. compile_rules (Rules network_document) Map.empty = Inl e)"
    using compile_rules_Inl_iff [of "Rules network_document" Map.empty] by blast
  then show ?thesis
    by (cases "compile_rules (Rules network_document) Map.empty") (simp_all add: Compile_def)
qed

theorem blocked_network_denied_witness:
  "\<exists>p. Compile network_document = Inr p \<and>
     Evaluate (Some p) ''outbound'' ''innocent.example'' ''198.51.100.25:443''
       = denied ''domain_policy_blocklist''"
proof -
  obtain p where p: "Compile network_document = Inr p" using network_document_compiles by blast
  let ?r = "\<lparr>Direction = ''outbound'', Mode = [], AllowList = [], BlockList = ['' 198.51.100.0/24'']\<rparr>"
  have "find (\<lambda>r. rule_direction r = ''outbound'') (rev (Rules network_document)) = Some ?r"
    "\<not> deny_by_default ?r" "'' 198.51.100.0/24'' \<in> set (BlockList ?r)"
    "TrimSpace '' 198.51.100.0/24'' = ''198.51.100.0'' @ ''/'' @ ''24''"
    "CHR ''/'' \<notin> set ''198.51.100.0''"
    by (simp_all add: network_document_def rule_direction_def str_eval deny_by_default_def policy_consts)
  moreover have "parse_v4 ''198.51.100.0'' = Some [198, 51, 100, 0]" "dtoi ''24'' = Some 24"
    "(24 :: nat) \<le> 32"
    by (simp_all add: net_eval)
  moreover have "extractIP ''198.51.100.25:443'' = Some (v4_in_v6_prefix @ [198, 51, 100, 25])"
    by (simp add: extractIP_def strip_port_def str_eval net_eval)
  moreover have "To4 (v4_in_v6_prefix @ [198, 51, 100, 25]) = Some [198, 51, 100, 25]"
    by (simp add: To4_def v4_in_v6_prefix_def)
  moreover have "take 24 (ip_bits [198, 51, 100, 25]) = take 24 (ip_bits [198, 51, 100, 0])"
    by (simp add: ip_bits_Cons)
  ultimately show ?thesis
    using blocked_network_denied [OF p] p by blast
qed

end
