(* ===== verification/Policy_Manager.thy ===== *)
theory Policy_Manager
  imports Config_Source Domain_Policy
begin

unbundle bit_operations_syntax

text \<open>
  The manager of \<open>cmd/proxy/domainpolicy/manager.go\<close> with the HTTP handlers of
  \<open>handlers.go\<close>: it loads a policy from the cache file, refreshes it from a URL, keeps
  the last good one, and answers the proxy's queries. The manager's mutex makes each of
  \<open>setPolicy\<close>, \<open>setError\<close>, \<open>Evaluate\<close> and \<open>Status\<close> one step, which is how the model has
  them. A policy is replaced as a whole.
\<close>

section \<open>Data\<close>

definition ScopeInbound :: string where "ScopeInbound = ''inbound''"
definition ScopeOutbound :: string where "ScopeOutbound = ''outbound''"
definition ScopeBoth :: string where "ScopeBoth = ''both''"

lemmas scope_consts = ScopeInbound_def ScopeOutbound_def ScopeBoth_def

record dp_options =
  URL :: string
  CacheFile :: string
  RefreshInterval :: int
  FetchTimeout :: int
  Scope :: string
  AppName :: string
  InstanceIP :: string

datatype dp_error =
    AppNameRequired
  | InstanceIPRequired
  | FetchFailed fetch_error
  | ParseFailed "string parse_error"
  | InstanceIPLookup string

record dp_manager =
  options :: dp_options
  m_policy :: "policy option"
  m_source :: string
  lastRefresh :: "int option"
  lastError :: "dp_error option"
  stopped :: bool

datatype iface_addr = IPNetAddr ip | OtherAddr

text \<open>The environment of one call: clock, HTTP, files and network interfaces.\<close>

record 'u dp_env =
  now :: int
  http :: "'u http_env"
  fsys :: fs_env
  InterfaceAddrs :: "string + iface_addr list"
  ip_String :: "ip \<Rightarrow> string"

record dp_status =
  st_Enabled :: bool
  st_options :: dp_options
  st_Source :: string
  st_LastRefresh :: "int option"
  st_LastError :: "dp_error option"
  st_Rules :: "string \<rightharpoonup> rule_summary"

section \<open>Operations\<close>

definition second :: int where "second = 1000000000"

definition default_options :: "dp_options \<Rightarrow> dp_options" where
  "default_options opts =
     (let o1 = (if Scope opts = [] then opts\<lparr>Scope := ScopeOutbound\<rparr> else opts);
          o2 = (if FetchTimeout o1 \<le> 0 then o1\<lparr>FetchTimeout := 5 * second\<rparr> else o1)
      in if CacheFile o2 = [] then o2\<lparr>CacheFile := ''/tmp/lhotse-domain-policy-cache.json''\<rparr> else o2)"

definition NewManager :: "dp_options \<Rightarrow> dp_manager" where
  "NewManager opts = \<lparr>options = default_options opts, m_policy = None, m_source = [],
     lastRefresh = None, lastError = None, stopped = False\<rparr>"

definition setPolicy :: "int \<Rightarrow> policy option \<Rightarrow> string \<Rightarrow> dp_error option \<Rightarrow> dp_manager \<Rightarrow> dp_manager" where
  "setPolicy t p src err m =
     m\<lparr>m_policy := p, m_source := src, lastRefresh := Some t, lastError := err\<rparr>"

definition setError :: "dp_error \<Rightarrow> dp_manager \<Rightarrow> dp_manager" where
  "setError e m = m\<lparr>lastError := Some e\<rparr>"

definition NewStaticManager :: "int \<Rightarrow> policy option \<Rightarrow> string \<Rightarrow> dp_manager" where
  "NewStaticManager t p scope =
     setPolicy t p ''static'' None
       (NewManager \<lparr>URL = ''static'', CacheFile = [], RefreshInterval = 0, FetchTimeout = 0,
          Scope = scope, AppName = [], InstanceIP = []\<rparr>)"

definition Enabled :: "dp_manager \<Rightarrow> bool" where
  "Enabled m \<longleftrightarrow> TrimSpace (URL (options m)) \<noteq> []"

definition fetch :: "'u http_env \<Rightarrow> dp_options \<Rightarrow> fetch_error + string" where
  "fetch env opts =
     (case url_Parse env (URL opts) of
        Inl e \<Rightarrow> Inl (UrlError e)
      | Inr endpoint \<Rightarrow>
          http_get env (with_query env endpoint [(''app'', AppName opts), (''ip'', InstanceIP opts)]))"

definition loadCache ::
  "(string \<Rightarrow> string + config_document) \<Rightarrow> 'u dp_env \<Rightarrow> files \<Rightarrow> dp_manager
     \<Rightarrow> dp_manager \<times> bool" where
  "loadCache unmarshal env fs m =
     (if CacheFile (options m) = [] then (m, True)
      else (case ReadFile (fsys env) (CacheFile (options m)) fs of
              NotExist \<Rightarrow> (m, True)
            | ReadFault e \<Rightarrow> (m, False)
            | ReadOk b \<Rightarrow>
                (case Parse unmarshal b of
                   Inl e \<Rightarrow> (m, False)
                 | Inr p \<Rightarrow> (setPolicy (now env) (Some p) ''cache'' None m, True))))"

text \<open>
  \<open>saveCache\<close> writes a temporary file and renames it. The error (\<open>Some\<close>) is what it
  returns; on a failed write or close it removes the temporary file, on a failed rename
  it does not.
\<close>

definition saveCache :: "fs_env \<Rightarrow> string \<Rightarrow> string \<Rightarrow> files \<Rightarrow> files \<times> string option" where
  "saveCache env path body fs =
     (if path = [] then (fs, None)
      else (case mkdir_fault env of
              Some e \<Rightarrow> (fs, Some e)
            | None \<Rightarrow>
               (case temp_fault env of
                  Some e \<Rightarrow> (fs, Some e)
                | None \<Rightarrow>
                   (case write_fault env of
                      Some (e, part) \<Rightarrow>
                        (os_Remove env (temp_name env) (fs(temp_name env \<mapsto> part)), Some e)
                    | None \<Rightarrow>
                        let fs1 = fs(temp_name env \<mapsto> body) in
                        (case close_fault env of
                           Some e \<Rightarrow> (os_Remove env (temp_name env) fs1, Some e)
                         | None \<Rightarrow>
                             (case rename_fault env of
                                Some e \<Rightarrow> (fs1, Some e)
                              | None \<Rightarrow> (fs1(temp_name env := None, path \<mapsto> body), None)))))))"

definition Reload ::
  "(string \<Rightarrow> string + config_document) \<Rightarrow> 'u dp_env \<Rightarrow> dp_manager \<times> files
     \<Rightarrow> (dp_manager \<times> files) \<times> dp_error option" where
  "Reload unmarshal env = (\<lambda>(m, fs).
     if \<not> Enabled m then ((m, fs), None)
     else if TrimSpace (AppName (options m)) = []
       then ((setError AppNameRequired m, fs), Some AppNameRequired)
     else if TrimSpace (InstanceIP (options m)) = []
       then ((setError InstanceIPRequired m, fs), Some InstanceIPRequired)
     else (case fetch (http env) (options m) of
             Inl e \<Rightarrow> ((setError (FetchFailed e) m, fs), Some (FetchFailed e))
           | Inr body \<Rightarrow>
               (case Parse unmarshal body of
                  Inl e \<Rightarrow> ((setError (ParseFailed e) m, fs), Some (ParseFailed e))
                | Inr p \<Rightarrow>
                    ((setPolicy (now env) (Some p) ''remote'' None m,
                      fst (saveCache (fsys env) (CacheFile (options m)) body fs)), None))))"

fun usable_addr :: "iface_addr \<Rightarrow> ip option" where
  "usable_addr OtherAddr = None"
| "usable_addr (IPNetAddr a) =
     (if a = [] \<or> IsLoopback a \<or> IsLinkLocalUnicast a \<or> IsLinkLocalMulticast a then None else Some a)"

definition localIP :: "'u dp_env \<Rightarrow> string + string" where
  "localIP env =
     (case InterfaceAddrs env of
        Inl e \<Rightarrow> Inl e
      | Inr addrs \<Rightarrow>
          (case List.map_filter usable_addr addrs of
             [] \<Rightarrow> Inl ''no valid local IP address found''
           | a # _ \<Rightarrow> Inr (ip_String env a)))"

text \<open>\<open>Start\<close>; the boolean of the result tells whether it starts the refresh loop.\<close>

definition Start ::
  "(string \<Rightarrow> string + config_document) \<Rightarrow> 'u dp_env \<Rightarrow> dp_manager \<times> files
     \<Rightarrow> (dp_manager \<times> files) \<times> bool" where
  "Start unmarshal env = (\<lambda>(m, fs).
     if \<not> Enabled m then ((m, fs), False)
     else
       let m1 = (if InstanceIP (options m) = []
                 then (case localIP env of
                         Inr a \<Rightarrow> m\<lparr>options := (options m)\<lparr>InstanceIP := a\<rparr>\<rparr>
                       | Inl e \<Rightarrow> setError (InstanceIPLookup e) m)
                 else m);
           m2 = fst (loadCache unmarshal env fs m1);
           (m3, fs3) = fst (Reload unmarshal env (m2, fs))
       in ((m3, fs3), 0 < RefreshInterval (options m3)))"

definition Stop :: "dp_manager \<Rightarrow> dp_manager" where
  "Stop m = (if stopped m then m else m\<lparr>stopped := True\<rparr>)"

definition directionEnabled :: "dp_manager \<Rightarrow> string \<Rightarrow> bool" where
  "directionEnabled m direction \<longleftrightarrow>
     (if Scope (options m) = ScopeBoth then True
      else if Scope (options m) = ScopeInbound then direction = DirectionInbound
      else direction = DirectionOutbound)"

definition Manager_Evaluate :: "dp_manager \<Rightarrow> string \<Rightarrow> string \<Rightarrow> string \<Rightarrow> decision" where
  "Manager_Evaluate m direction domain targetAddr =
     (if \<not> Enabled m \<or> \<not> directionEnabled m direction then allowed
      else (case m_policy m of
              None \<Rightarrow> allowed
            | Some p \<Rightarrow> Evaluate (Some p) direction domain targetAddr))"

definition Status :: "dp_manager \<Rightarrow> dp_status" where
  "Status m = \<lparr>st_Enabled = Enabled m, st_options = options m, st_Source = m_source m,
     st_LastRefresh = lastRefresh m, st_LastError = lastError m, st_Rules = Summary (m_policy m)\<rparr>"

section \<open>The refresh loop\<close>

text \<open>
  The goroutine of \<open>refreshLoop\<close> and the other goroutines that use the manager: ticks,
  reloads asked for over HTTP, and \<open>Stop\<close>. The loop runs until it takes the \<open>stop\<close> case
  of its \<open>select\<close>; a tick may still win while the channel is closed.
\<close>

record dp_system =
  sys_state :: "dp_manager \<times> files"
  looping :: bool

datatype 'u dp_event = Tick "'u dp_env" | LoopExit | ManualReload "'u dp_env" | StopCall

inductive refresh_step ::
  "(string \<Rightarrow> string + config_document) \<Rightarrow> dp_system \<Rightarrow> 'u dp_event \<Rightarrow> dp_system \<Rightarrow> bool"
  for unmarshal where
  tick: "looping s \<Longrightarrow>
    refresh_step unmarshal s (Tick env) (s\<lparr>sys_state := fst (Reload unmarshal env (sys_state s))\<rparr>)"
| loop_exit: "looping s \<Longrightarrow> stopped (fst (sys_state s)) \<Longrightarrow>
    refresh_step unmarshal s LoopExit (s\<lparr>looping := False\<rparr>)"
| manual: "refresh_step unmarshal s (ManualReload env)
    (s\<lparr>sys_state := fst (Reload unmarshal env (sys_state s))\<rparr>)"
| stop: "refresh_step unmarshal s StopCall
    (s\<lparr>sys_state := (Stop (fst (sys_state s)), snd (sys_state s))\<rparr>)"

inductive refresh_run ::
  "(string \<Rightarrow> string + config_document) \<Rightarrow> dp_system \<Rightarrow> 'u dp_event list \<Rightarrow> dp_system \<Rightarrow> bool"
  for unmarshal where
  finish: "refresh_run unmarshal s [] s"
| step: "refresh_step unmarshal s e t \<Longrightarrow> refresh_run unmarshal t es u \<Longrightarrow>
    refresh_run unmarshal s (e # es) u"

section \<open>HTTP handlers\<close>

datatype dp_reply = MethodNotAllowed | BadGateway dp_error | StatusReply dp_status

definition handle_status :: "string \<Rightarrow> dp_manager \<Rightarrow> dp_reply" where
  "handle_status meth m = (if meth \<noteq> ''GET'' then MethodNotAllowed else StatusReply (Status m))"

definition handle_reload ::
  "(string \<Rightarrow> string + config_document) \<Rightarrow> 'u dp_env \<Rightarrow> string \<Rightarrow> dp_manager \<times> files
     \<Rightarrow> (dp_manager \<times> files) \<times> dp_reply" where
  "handle_reload unmarshal env meth s =
     (if meth \<noteq> ''POST'' then (s, MethodNotAllowed)
      else (case Reload unmarshal env s of
              (s', Some e) \<Rightarrow> (s', BadGateway e)
            | (s', None) \<Rightarrow> (s', StatusReply (Status (fst s')))))"

section \<open>The manager keeps the last good policy\<close>

text \<open>What a reload finds: nothing when disabled, else an error or a compiled policy.\<close>

definition dp_outcome ::
  "(string \<Rightarrow> string + config_document) \<Rightarrow> 'u dp_env \<Rightarrow> dp_options \<Rightarrow> (dp_error + policy) option" where
  "dp_outcome unmarshal env opts =
     (if TrimSpace (URL opts) = [] then None
      else if TrimSpace (AppName opts) = [] then Some (Inl AppNameRequired)
      else if TrimSpace (InstanceIP opts) = [] then Some (Inl InstanceIPRequired)
      else Some (case fetch (http env) opts of
                   Inl e \<Rightarrow> Inl (FetchFailed e)
                 | Inr body \<Rightarrow>
                     (case Parse unmarshal body of Inl e \<Rightarrow> Inl (ParseFailed e) | Inr p \<Rightarrow> Inr p)))"

lemmas dp_update_defs = setError_def setPolicy_def

lemma Reload_effect:
  "fst (fst (Reload unmarshal env (m, fs))) =
     (case dp_outcome unmarshal env (options m) of
        None \<Rightarrow> m
      | Some (Inl e) \<Rightarrow> setError e m
      | Some (Inr p) \<Rightarrow> setPolicy (now env) (Some p) ''remote'' None m)"
  "snd (Reload unmarshal env (m, fs)) =
     (case dp_outcome unmarshal env (options m) of Some (Inl e) \<Rightarrow> Some e | _ \<Rightarrow> None)"
  by (simp_all add: Reload_def dp_outcome_def Enabled_def split: sum.split)

lemma Reload_idle:
  "dp_outcome unmarshal env (options m) = None \<Longrightarrow> Reload unmarshal env (m, fs) = ((m, fs), None)"
  by (simp add: Reload_def dp_outcome_def Enabled_def split: if_splits)

lemma options_unchanged [simp]:
  "options (setError e m) = options m" "options (setPolicy t p src err m) = options m"
  "m_policy (setError e m) = m_policy m" "m_policy (setPolicy t p src err m) = p"
  "lastError (setError e m) = Some e" "lastError (setPolicy t p src err m) = err"
  by (simp_all add: dp_update_defs)

lemma options_Reload [simp]: "options (fst (fst (Reload unmarshal env (m, fs)))) = options m"
  by (simp add: Reload_effect split: option.split sum.split)

interpretation dpm: config_manager
  "Reload unmarshal" "\<lambda>s. m_policy (fst s)" "\<lambda>s. lastError (fst s)" "\<lambda>s. options (fst s)"
  "\<lambda>env s. dp_outcome unmarshal env (options (fst s))"
  for unmarshal :: "string \<Rightarrow> string + config_document"
  by unfold_locales (auto simp: Reload_idle Reload_effect split: option.splits sum.splits)

text \<open>
  C8. Last known good policy: over any sequence of reloads, successful or not, the
  policy in force is the one of the last reload whose fetch and compilation both
  succeeded, and the initial one before that. A failed reload never drops a policy.
\<close>

theorem Reload_last_good:
  "m_policy (fst (run_reloads (Reload unmarshal) s envs)) =
     last_or (m_policy (fst s))
       (good_configs (\<lambda>env. dp_outcome unmarshal env (options (fst s))) envs)"
  by (rule dpm.run_config)

section \<open>The cache file\<close>

lemma saveCache_other:
  "q \<noteq> path \<Longrightarrow> q \<noteq> temp_name env \<Longrightarrow> fst (saveCache env path body fs) q = fs q"
  by (auto simp: saveCache_def os_Remove_def Let_def split: option.split)

lemma saveCache_atomic:
  assumes "fresh_temp env path fs"
  shows "fst (saveCache env path body fs) path =
     (if path \<noteq> [] \<and> snd (saveCache env path body fs) = None then Some body else fs path)"
  using assms
  by (auto simp: saveCache_def os_Remove_def Let_def fresh_temp_def split: option.split)

lemma loadCache_saved:
  assumes "CacheFile (options m) \<noteq> []" "read_fault (fsys env) = None"
    and "fs (CacheFile (options m)) = Some body" "Parse unmarshal body = Inr p"
  shows "loadCache unmarshal env fs m = (setPolicy (now env) (Some p) ''cache'' None m, True)"
  using assms by (simp add: loadCache_def ReadFile_def)

lemma CacheFile_default [simp]: "CacheFile (default_options opts) \<noteq> []"
  by (simp add: default_options_def Let_def)

lemma Reload_saves:
  assumes "Enabled m" "snd (Reload unmarshal env (m, fs)) = None"
    and "fresh_temp (fsys env) (CacheFile (options m)) fs" "CacheFile (options m) \<noteq> []"
  obtains body p where "Parse unmarshal body = Inr p"
    and "m_policy (fst (fst (Reload unmarshal env (m, fs)))) = Some p"
    and "snd (saveCache (fsys env) (CacheFile (options m)) body fs) = None \<Longrightarrow>
         snd (fst (Reload unmarshal env (m, fs))) (CacheFile (options m)) = Some body"
  using assms saveCache_atomic [OF assms(3)]
  by (auto simp: Reload_def split: if_splits sum.splits)

lemma Start_policy:
  "m_policy (fst (fst (Start unmarshal env (m, fs)))) =
     (if \<not> Enabled m then m_policy m
      else
        let m1 = (if InstanceIP (options m) = []
                  then (case localIP env of
                          Inr a \<Rightarrow> m\<lparr>options := (options m)\<lparr>InstanceIP := a\<rparr>\<rparr>
                        | Inl e \<Rightarrow> setError (InstanceIPLookup e) m)
                  else m);
            m2 = fst (loadCache unmarshal env fs m1)
        in (case dp_outcome unmarshal env (options m1) of
              Some (Inr p) \<Rightarrow> Some p
            | _ \<Rightarrow> m_policy m2))"
proof -
  have "options (fst (loadCache unmarshal env fs m1)) = options m1" for m1
    by (simp add: loadCache_def split: read_result.split sum.split)
  then show ?thesis
    by (simp add: Start_def Let_def case_prod_beta Reload_effect
        split: option.split sum.split)
qed

text \<open>
  C9. A restart without the server recovers the policy: after a reload that succeeded
  and saved its cache, a new manager with the same cache file that starts while every
  fetch fails has that same policy in force, instead of the open default.
\<close>

theorem restart_recovers_policy:
  assumes "Enabled m" and "CacheFile (options m) \<noteq> []"
    and "fsys env1 = no_faults tmp" and "fresh_temp (fsys env1) (CacheFile (options m)) fs"
    and "Reload unmarshal env1 (m, fs) = ((m', fs'), None)"
    and "Enabled (NewManager opts)"
    and "CacheFile (options (NewManager opts)) = CacheFile (options m)"
    and "read_fault (fsys env2) = None" and "\<And>opts'. \<exists>e. fetch (http env2) opts' = Inl e"
  shows "m_policy m' \<noteq> None \<and>
    m_policy (fst (fst (Start unmarshal env2 (NewManager opts, fs')))) = m_policy m'"
proof -
  obtain body p where p: "Parse unmarshal body = Inr p" "m_policy m' = Some p"
    and saved: "snd (saveCache (fsys env1) (CacheFile (options m)) body fs) = None \<Longrightarrow>
      fs' (CacheFile (options m)) = Some body"
    using Reload_saves [OF assms(1) _ assms(4,2), of unmarshal] assms(5) by auto
  have "snd (saveCache (fsys env1) (CacheFile (options m)) body fs) = None"
    unfolding assms(3) by (simp add: saveCache_def no_faults_def)
  with saved have on_disk: "fs' (CacheFile (options m)) = Some body" by simp
  have failed: "dp_outcome unmarshal env2 opts' \<noteq> Some (Inr q)" for opts' q
    using assms(9) [of opts'] by (auto simp: dp_outcome_def)
  have load: "m_policy (fst (loadCache unmarshal env2 fs' m1)) = Some p"
    if "CacheFile (options m1) = CacheFile (options m)" for m1
    using loadCache_saved [of m1 env2 fs' body unmarshal p] that assms(2,8) on_disk p(1) by simp
  show ?thesis
    unfolding Start_policy using assms(6,7) p(2) failed
    by (auto simp: Let_def load split: option.splits sum.splits)
qed

text \<open>A server that answers every request with an empty document, and one that is down.\<close>

definition demo_http :: "bool \<Rightarrow> unit http_env" where
  "demo_http up = \<lparr>url_Parse = (\<lambda>_. Inr ()), with_query = (\<lambda>_ _. ''http://policy/''),
     NewRequest = (\<lambda>_. None),
     client_Do = (\<lambda>_. if up then Inr \<lparr>StatusCode = 200, body_read = Inr ''{}''\<rparr> else Inl ''refused'')\<rparr>"

definition demo_env :: "bool \<Rightarrow> unit dp_env" where
  "demo_env up = \<lparr>now = 7, http = demo_http up, fsys = no_faults ''tmp'',
     InterfaceAddrs = Inr [IPNetAddr [10, 0, 0, 5]], ip_String = (\<lambda>_. ''10.0.0.5'')\<rparr>"

definition demo_options :: dp_options where
  "demo_options = \<lparr>URL = ''http://policy'', CacheFile = ''cache'', RefreshInterval = 0,
     FetchTimeout = 0, Scope = [], AppName = ''app'', InstanceIP = ''10.0.0.5''\<rparr>"

definition demo_unmarshal :: "string \<Rightarrow> string + config_document" where
  "demo_unmarshal _ = Inr \<lparr>Rules = []\<rparr>"

lemmas demo_defs = demo_http_def demo_env_def demo_options_def demo_unmarshal_def no_faults_def

theorem restart_recovers_policy_witness:
  "m_policy (fst (fst (Start demo_unmarshal (demo_env False)
      (NewManager demo_options, snd (fst (Reload demo_unmarshal (demo_env True)
         (NewManager demo_options, Map.empty)))))))
   = Some \<lparr>rules = Map.empty\<rparr>"
proof -
  let ?m = "NewManager demo_options"
  let ?r = "Reload demo_unmarshal (demo_env True) (?m, Map.empty)"
  have en: "Enabled ?m"
    by (simp add: Enabled_def NewManager_def default_options_def demo_options_def str_eval)
  have cf: "CacheFile (options ?m) \<noteq> []" by (simp add: NewManager_def)
  have fs: "fsys (demo_env True) = no_faults ''tmp''" by (simp add: demo_env_def)
  have fresh: "fresh_temp (fsys (demo_env True)) (CacheFile (options ?m)) Map.empty"
    by (simp add: fresh_temp_def demo_defs NewManager_def default_options_def)
  have err: "snd ?r = None" and pol: "m_policy (fst (fst ?r)) = Some \<lparr>rules = Map.empty\<rparr>"
    by (simp_all add: Reload_effect dp_outcome_def demo_defs NewManager_def default_options_def
        str_eval fetch_def http_get_def Parse_def Compile_def)
  then have run: "?r = ((fst (fst ?r), snd (fst ?r)), None)" by (simp add: prod_eq_iff)
  have down: "\<And>opts'. \<exists>e. fetch (http (demo_env False)) opts' = Inl e"
    "read_fault (fsys (demo_env False)) = None"
    by (simp_all add: demo_defs fetch_def http_get_def)
  show ?thesis
    using restart_recovers_policy [OF en cf fs fresh run en refl down(2,1)] pol by simp
qed

section \<open>Interleavings\<close>

inductive_simps refresh_step_simps: "refresh_step unmarshal s e t"

fun event_env :: "'u dp_event \<Rightarrow> 'u dp_env list" where
  "event_env (Tick env) = [env]"
| "event_env (ManualReload env) = [env]"
| "event_env LoopExit = []"
| "event_env StopCall = []"

lemma Stop_keeps [simp]:
  "options (Stop m) = options m" "m_policy (Stop m) = m_policy m" "stopped (Stop m)"
  by (simp_all add: Stop_def)

lemma stopped_Reload [simp]: "stopped (fst (fst (Reload unmarshal env s))) = stopped (fst s)"
  by (cases s) (simp add: Reload_effect dp_update_defs split: option.split sum.split)

lemma options_Reload' [simp]: "options (fst (fst (Reload unmarshal env s))) = options (fst s)"
  by (cases s) simp

lemma m_policy_Reload:
  "m_policy (fst (fst (Reload unmarshal env s))) =
     last_or (m_policy (fst s)) (good_configs (\<lambda>env. dp_outcome unmarshal env (options (fst s))) [env])"
  by (simp add: dpm.config_reload last_or_def split: option.split sum.split)

lemma refresh_step_effect:
  assumes "refresh_step unmarshal s e t"
  shows "options (fst (sys_state t)) = options (fst (sys_state s))"
    "m_policy (fst (sys_state t)) = last_or (m_policy (fst (sys_state s)))
       (good_configs (\<lambda>env. dp_outcome unmarshal env (options (fst (sys_state s)))) (event_env e))"
    "stopped (fst (sys_state s)) \<Longrightarrow> stopped (fst (sys_state t))"
    "looping t \<longleftrightarrow> looping s \<and> e \<noteq> LoopExit"
    "looping s \<Longrightarrow> \<not> looping t \<Longrightarrow> stopped (fst (sys_state t))"
  using assms
  by (auto simp: refresh_step_simps m_policy_Reload last_or_def split: option.splits sum.splits)



end
