(* ===== verification/Go_Bufio.thy ===== *)
theory Go_Bufio
  imports Prelude
begin

text \<open>
  The buffered reader of package \<open>bufio\<close>, as far as the proxy uses it. The peer is the
  environment: a reader holds the bytes that the connection will still deliver, in
  order, and the error that ends the stream. Peeking shows a prefix and consumes
  nothing; what it can show is bounded by the size of the buffer.
\<close>

datatype io_error = EOF | UnexpectedEOF | ErrBufferFull | Timeout | OtherIO string

record reader =
  buf_size :: nat
  incoming :: "byte list"
  final :: io_error

definition Peek :: "reader \<Rightarrow> nat \<Rightarrow> byte list \<times> io_error option" where
  "Peek r n =
     (if buf_size r < n then (take (buf_size r) (incoming r), Some ErrBufferFull)
      else if length (incoming r) < n then (incoming r, Some (final r))
      else (take n (incoming r), None))"

text \<open>The bytes of a string and back: \<open>[]byte(s)\<close> and \<open>string(b)\<close>.\<close>

definition bytes_to_string :: "byte list \<Rightarrow> string" where
  "bytes_to_string bs = map (\<lambda>b. char_of (unat b)) bs"

definition string_to_bytes :: "string \<Rightarrow> byte list" where
  "string_to_bytes s = map (\<lambda>c. of_nat (of_char c)) s"

lemma Peek_ok: "n \<le> buf_size r \<Longrightarrow> n \<le> length (incoming r) \<Longrightarrow> Peek r n = (take n (incoming r), None)"
  by (simp add: Peek_def)

lemma Peek_error_iff:
  "snd (Peek r n) = None \<longleftrightarrow> n \<le> buf_size r \<and> n \<le> length (incoming r)"
  by (simp add: Peek_def)

lemma bytes_to_string_inverse [simp]: "bytes_to_string (string_to_bytes s) = s"
  by (simp add: bytes_to_string_def string_to_bytes_def o_def unat_of_nat take_bit_eq_mod)

lemma length_string_to_bytes [simp]: "length (string_to_bytes s) = length s"
  by (simp add: string_to_bytes_def)

end
