(* ===== verification/Client_Hello.thy ===== *)
theory Client_Hello
  imports Go_Bufio
begin

unbundle bit_operations_syntax

text \<open>
  The ClientHello parser of \<open>pkg/protocol/tls/client_hello.go\<close>, which reads the server
  name out of the first TLS record of a connection. Every slice and index expression is
  one that can panic (\<open>Inl IndexPanic\<close>), so that the bounds checks of the source are
  what the safety theorem is about.
\<close>

datatype tls_error = Truncated | IndexPanic | ReadError io_error

definition recordTypeHandshake :: byte where "recordTypeHandshake = 22"
definition handshakeTypeClientHello :: byte where "handshakeTypeClientHello = 1"
definition maxTLSRecordLen :: nat where "maxTLSRecordLen = 16384 + 2048"
definition ClientHelloPeekBufferSize :: nat where
  "ClientHelloPeekBufferSize = 5 + maxTLSRecordLen"

section \<open>Reading fields\<close>

definition slice :: "byte list \<Rightarrow> nat \<Rightarrow> nat \<Rightarrow> tls_error + byte list" where
  "slice xs i j = (case go_slice xs i j of None \<Rightarrow> Inl IndexPanic | Some ys \<Rightarrow> Inr ys)"

definition index :: "byte list \<Rightarrow> nat \<Rightarrow> tls_error + byte" where
  "index xs i = (case go_index xs i of None \<Rightarrow> Inl IndexPanic | Some y \<Rightarrow> Inr y)"

text \<open>\<open>binary.BigEndian.Uint16\<close>: it panics on fewer than two bytes.\<close>

definition u16 :: "byte \<Rightarrow> byte \<Rightarrow> 16 word" where
  "u16 hi lo = ucast lo OR push_bit 8 (ucast hi)"

definition Uint16 :: "byte list \<Rightarrow> tls_error + 16 word" where
  "Uint16 b = and_then (index b 1) (\<lambda>lo. and_then (index b 0) (\<lambda>hi.
     Inr (u16 hi lo)))"

definition int_of_uint16 :: "byte list \<Rightarrow> tls_error + nat" where
  "int_of_uint16 b = and_then (Uint16 b) (\<lambda>w. Inr (unat w))"

text \<open>\<open>int(b[1])<<16 | int(b[2])<<8 | int(b[3])\<close> on a 64-bit \<open>int\<close>.\<close>

definition uint24 :: "byte list \<Rightarrow> tls_error + nat" where
  "uint24 b = and_then (index b 1) (\<lambda>x. and_then (index b 2) (\<lambda>y. and_then (index b 3) (\<lambda>z.
     Inr (push_bit 16 (unat x) OR push_bit 8 (unat y) OR unat z))))"

section \<open>The parser\<close>

lemma slice_shrinks: "slice xs i j = Inr ys \<Longrightarrow> length ys \<le> length xs - i \<and> i \<le> length xs"
  by (auto simp: slice_def go_slice_def split: if_splits)

text \<open>The loop over the names of a server name extension.\<close>

function server_names :: "byte list \<Rightarrow> tls_error + string" where
  "server_names names =
     (if length names < 3 then (if names = [] then Inr [] else Inl Truncated)
      else and_then (index names 0) (\<lambda>nameType.
           and_then (slice names 1 3) (\<lambda>l. and_then (int_of_uint16 l) (\<lambda>nameLen.
           and_then (slice names 3 (length names)) (\<lambda>rest.
             if length rest < nameLen then Inl Truncated
             else and_then (slice rest 0 nameLen) (\<lambda>serverName.
                  and_then (slice rest nameLen (length rest)) (\<lambda>rest'.
                    if nameType = 0 then Inr (bytes_to_string serverName)
                    else server_names rest')))))))"
  by pat_completeness auto

termination
  by (relation "measure length") (auto dest!: slice_shrinks)

definition parseServerNameExtension :: "byte list \<Rightarrow> tls_error + string" where
  "parseServerNameExtension data =
     (if length data < 2 then Inl Truncated
      else and_then (slice data 0 2) (\<lambda>l. and_then (int_of_uint16 l) (\<lambda>listLen.
        if length data < 2 + listLen then Inl Truncated
        else and_then (slice data 2 (2 + listLen)) server_names)))"

text \<open>The loop over the extensions of the hello: the first one of type 0 decides.\<close>

function extension_loop :: "byte list \<Rightarrow> tls_error + string" where
  "extension_loop extensions =
     (if length extensions < 4 then Inr []
      else and_then (slice extensions 0 2) (\<lambda>t. and_then (Uint16 t) (\<lambda>extensionType.
           and_then (slice extensions 2 4) (\<lambda>l. and_then (int_of_uint16 l) (\<lambda>extensionLen.
           and_then (slice extensions 4 (length extensions)) (\<lambda>rest.
             if length rest < extensionLen then Inl Truncated
             else and_then (slice rest 0 extensionLen) (\<lambda>extensionData.
                  and_then (slice rest extensionLen (length rest)) (\<lambda>rest'.
                    if extensionType \<noteq> 0 then extension_loop rest'
                    else parseServerNameExtension extensionData))))))))"
  by pat_completeness auto

termination
  by (relation "measure length") (auto dest!: slice_shrinks)

declare server_names.simps [simp del] extension_loop.simps [simp del]

text \<open>
  A length-prefixed vector of the hello that the parser steps over. The two forms are a
  one-byte length and a two-byte length; the result is the offset after the vector.
\<close>

definition skip_vec8 :: "byte list \<Rightarrow> nat \<Rightarrow> tls_error + nat" where
  "skip_vec8 hello offset =
     (if length hello \<le> offset then Inl Truncated
      else and_then (index hello offset) (\<lambda>l.
        if length hello < offset + 1 + unat l then Inl Truncated else Inr (offset + 1 + unat l)))"

definition skip_vec16 :: "byte list \<Rightarrow> nat \<Rightarrow> tls_error + nat" where
  "skip_vec16 hello offset =
     (if length hello < offset + 2 then Inl Truncated
      else and_then (slice hello offset (offset + 2)) (\<lambda>b. and_then (int_of_uint16 b) (\<lambda>l.
        if length hello < offset + 2 + l then Inl Truncated else Inr (offset + 2 + l))))"

text \<open>
  The end of the hello from the offset after the compression methods on, and the whole
  part of the parser that works on the hello.
\<close>

definition parse_extensions :: "byte list \<Rightarrow> nat \<Rightarrow> tls_error + string" where
  "parse_extensions hello offset =
     (if offset = length hello then Inr []
      else if length hello < offset + 2 then Inl Truncated
      else and_then (slice hello offset (offset + 2)) (\<lambda>b. and_then (int_of_uint16 b) (\<lambda>extensionsLen.
        if length hello < offset + 2 + extensionsLen then Inl Truncated
        else and_then (slice hello (offset + 2) (offset + 2 + extensionsLen)) extension_loop)))"

definition parse_hello :: "byte list \<Rightarrow> tls_error + string" where
  "parse_hello hello =
     (if length hello < 34 then Inl Truncated
      else and_then (skip_vec8 hello 34) (\<lambda>o1.
           and_then (skip_vec16 hello o1) (\<lambda>o2.
           and_then (skip_vec8 hello o2) (parse_extensions hello))))"

text \<open>The handshake message inside the record, and the record itself.\<close>

definition parse_handshake :: "byte list \<Rightarrow> tls_error + string" where
  "parse_handshake body =
     (if length body < 4 then Inr []
      else and_then (index body 0) (\<lambda>hs.
        if hs \<noteq> handshakeTypeClientHello then Inr []
        else and_then (uint24 body) (\<lambda>helloLen.
          if length body < 4 + helloLen then Inl Truncated
          else and_then (slice body 4 (4 + helloLen)) parse_hello)))"

definition ParseClientHelloServerName :: "byte list \<Rightarrow> tls_error + string" where
  "ParseClientHelloServerName record =
     (if length record < 5 then Inl Truncated
      else and_then (index record 0) (\<lambda>ty.
        if ty \<noteq> recordTypeHandshake then Inr []
        else and_then (slice record 3 5) (\<lambda>b. and_then (int_of_uint16 b) (\<lambda>recordLen.
          if length record < 5 + recordLen then Inl Truncated
          else and_then (slice record 5 (5 + recordLen)) parse_handshake))))"

text \<open>
  \<open>PeekClientHelloServerName\<close> returns the name, whether the stream looks like TLS, and
  an error.
\<close>

definition PeekClientHelloServerName :: "reader \<Rightarrow> string \<times> bool \<times> tls_error option" where
  "PeekClientHelloServerName reader =
     (case Peek reader 5 of
        (_, Some e) \<Rightarrow> ([], False, Some (ReadError e))
      | (header, None) \<Rightarrow>
          (case (and_then (slice header 3 5) int_of_uint16, index header 0, index header 1) of
             (Inr recordLen, Inr h0, Inr h1) \<Rightarrow>
               if h0 \<noteq> recordTypeHandshake \<or> h1 \<noteq> 3 \<or> recordLen \<le> 0 \<or> maxTLSRecordLen < recordLen
               then ([], False, None)
               else (case Peek reader (5 + recordLen) of
                       (_, Some e) \<Rightarrow>
                         if e = ErrBufferFull \<or> e = EOF then ([], True, Some Truncated)
                         else ([], True, Some (ReadError e))
                     | (record, None) \<Rightarrow>
                         (case ParseClientHelloServerName record of
                            Inl e \<Rightarrow> ([], True, Some e)
                          | Inr serverName \<Rightarrow> (serverName, True, None)))
           | _ \<Rightarrow> ([], False, Some IndexPanic)))"

section \<open>Field equations\<close>

lemma slice_ok [simp]: "i \<le> j \<Longrightarrow> j \<le> length xs \<Longrightarrow> slice xs i j = Inr (take (j - i) (drop i xs))"
  by (simp add: slice_def)

lemma index_ok: "i < length xs \<Longrightarrow> index xs i = Inr (xs ! i)"
  by (simp add: index_def)

lemma index_Cons [simp]:
  "index (x # xs) 0 = Inr x" "index (x # xs) (Suc i) = index xs i"
  by (simp_all add: index_def go_index_def)

definition be16 :: "byte \<Rightarrow> byte \<Rightarrow> nat" where
  "be16 hi lo = 256 * unat hi + unat lo"

lemma nat_or_shift: "(b :: nat) < 2 ^ n \<Longrightarrow> push_bit n a OR b = 2 ^ n * a + b"
proof -
  assume b: "b < 2 ^ n"
  have "\<not> bit b m" if "n \<le> m" for m
    using b that by (metis bit_take_bit_iff not_less take_bit_nat_eq_self)
  then have "push_bit n a AND b = 0"
    by (auto simp: bit_eq_iff bit_simps)
  then have "push_bit n a + b = push_bit n a OR b" by (rule disjunctive_add_eq_or)
  then show ?thesis by (simp add: push_bit_eq_mult mult.commute)
qed

lemma unat_byte: "unat (b :: byte) < 256"
  using unsigned_less [of b] by simp

lemma Uint16_two: "Uint16 [hi, lo] = Inr (u16 hi lo)"
  by (simp add: Uint16_def)

lemma unat_uint16: "unat (u16 hi lo) = be16 hi lo"
proof -
  have "unat (ucast hi :: 16 word) = unat hi" "unat (ucast lo :: 16 word) = unat lo"
    using unat_byte [of hi] unat_byte [of lo]
    by (simp_all add: unsigned_ucast_eq take_bit_nat_eq_self)
  moreover have "take_bit 16 (push_bit 8 (unat hi)) = push_bit 8 (unat hi)"
    using unat_byte [of hi] by (simp add: take_bit_nat_eq_self push_bit_eq_mult)
  ultimately show ?thesis
    using nat_or_shift [of "unat lo" 8 "unat hi"] unat_byte [of lo]
    by (simp add: unsigned_or_eq unsigned_push_bit_eq be16_def u16_def or.commute)
qed

lemma int_of_uint16_two [simp]: "int_of_uint16 [hi, lo] = Inr (be16 hi lo)"
  by (simp add: int_of_uint16_def Uint16_two unat_uint16)

lemma uint16_eq_0: "u16 hi lo = 0 \<longleftrightarrow> be16 hi lo = 0"
  by (metis unat_uint16 unsigned_0 unat_eq_zero)

lemma uint24_four [simp]:
  "uint24 (x # a # b # c # rest) = Inr (65536 * unat a + 256 * unat b + unat c)"
proof -
  have "push_bit 8 (unat b) OR unat c = 256 * unat b + unat c"
    using nat_or_shift [of "unat c" 8 "unat b"] unat_byte [of c] by simp
  moreover have "push_bit 16 (unat a) OR (256 * unat b + unat c) = 65536 * unat a + (256 * unat b + unat c)"
    using nat_or_shift [of "256 * unat b + unat c" 16 "unat a"] unat_byte [of c] unat_byte [of b] by simp
  ultimately show ?thesis
    by (simp add: uint24_def numeral_2_eq_2 numeral_3_eq_3 or.assoc)
qed

section \<open>Equations of the loops\<close>

lemma server_names_short:
  "length names < 3 \<Longrightarrow> server_names names = (if names = [] then Inr [] else Inl Truncated)"
  by (simp add: server_names.simps)

lemma server_names_entry:
  "server_names (ty # hi # lo # rest) =
     (if length rest < be16 hi lo then Inl Truncated
      else if ty = 0 then Inr (bytes_to_string (take (be16 hi lo) rest))
      else server_names (drop (be16 hi lo) rest))"
  by (subst server_names.simps) (simp add: numeral_3_eq_3)

lemma extension_loop_short: "length exts < 4 \<Longrightarrow> extension_loop exts = Inr []"
  by (simp add: extension_loop.simps)

lemma extension_loop_entry:
  "extension_loop (t1 # t0 # hi # lo # rest) =
     (if length rest < be16 hi lo then Inl Truncated
      else if be16 t1 t0 \<noteq> 0 then extension_loop (drop (be16 hi lo) rest)
      else parseServerNameExtension (take (be16 hi lo) rest))"
  by (subst extension_loop.simps)
    (simp add: numeral_2_eq_2 numeral_eq_Suc Uint16_two uint16_eq_0)

lemma parseServerNameExtension_entry:
  "parseServerNameExtension (hi # lo # rest) =
     (if length rest < be16 hi lo then Inl Truncated else server_names (take (be16 hi lo) rest))"
  by (simp add: parseServerNameExtension_def numeral_2_eq_2)

section \<open>The bounds checks suffice\<close>

definition no_panic :: "tls_error + 'a \<Rightarrow> bool" where
  "no_panic r \<longleftrightarrow> r \<noteq> Inl IndexPanic \<and> (\<forall>e. r \<noteq> Inl (ReadError e))"

lemma no_panic_intros [intro!]:
  "no_panic (Inr x)" "no_panic (Inl Truncated)"
  "no_panic r \<Longrightarrow> (\<And>x. r = Inr x \<Longrightarrow> no_panic (f x)) \<Longrightarrow> no_panic (and_then r f)"
  by (simp_all add: no_panic_def) (cases r; simp)

lemma take2_drop: "i + 2 \<le> length xs \<Longrightarrow> take 2 (drop i xs) = [xs ! i, xs ! (i + 1)]"
  by (simp add: numeral_2_eq_2 take_Suc_conv_app_nth)

lemma list4_cases:
  obtains "xs = []" | a where "xs = [a]" | a b where "xs = [a, b]"
    | a b c rest where "xs = a # b # c # rest"
  by (metis neq_Nil_conv)

lemma server_names_no_panic: "no_panic (server_names names)"
proof (induction names rule: length_induct)
  case (1 names)
  show ?case
  proof (cases names rule: list4_cases)
    case 4
    with 1 show ?thesis by (auto simp: server_names_entry)
  qed (auto simp: server_names_short)
qed

lemma parseServerNameExtension_no_panic: "no_panic (parseServerNameExtension data)"
  by (cases data rule: list4_cases)
    (auto simp: parseServerNameExtension_entry server_names_no_panic parseServerNameExtension_def)

lemma extension_loop_no_panic: "no_panic (extension_loop exts)"
proof (induction exts rule: length_induct)
  case (1 exts)
  show ?case
  proof (cases exts rule: list4_cases)
    case (4 a b c rest)
    with 1 show ?thesis
      by (cases rest)
        (auto simp: extension_loop_entry extension_loop_short parseServerNameExtension_no_panic)
  qed (auto simp: extension_loop_short)
qed

lemma skip_vec8_no_panic: "no_panic (skip_vec8 hello i)"
  by (auto simp: skip_vec8_def index_ok)

lemma skip_vec16_no_panic: "no_panic (skip_vec16 hello i)"
  by (auto simp: skip_vec16_def take2_drop)

lemma parse_extensions_no_panic: "no_panic (parse_extensions hello i)"
  by (auto simp: parse_extensions_def take2_drop intro!: extension_loop_no_panic)

lemma parse_hello_no_panic: "no_panic (parse_hello hello)"
  by (auto simp: parse_hello_def
      intro!: skip_vec8_no_panic skip_vec16_no_panic parse_extensions_no_panic)

lemma uint24_no_panic: "4 \<le> length b \<Longrightarrow> no_panic (uint24 b)"
  by (auto simp: uint24_def index_ok)

lemma parse_handshake_no_panic: "no_panic (parse_handshake body)"
proof -
  have "4 \<le> length body \<Longrightarrow> body \<noteq> []" by auto
  then show ?thesis
    by (auto simp: parse_handshake_def index_ok not_less
        intro!: uint24_no_panic parse_hello_no_panic)
qed

lemma ParseClientHelloServerName_safe: "no_panic (ParseClientHelloServerName bs)"
proof -
  have "5 \<le> length bs \<Longrightarrow> bs \<noteq> []" by auto
  then show ?thesis
    by (auto simp: ParseClientHelloServerName_def index_ok take2_drop not_less
        intro!: parse_handshake_no_panic)
qed

text \<open>
  C5. The parser never panics: on every byte string, whatever lengths its fields
  announce, each slice and index expression is in range. The parser is total and
  ends in a name, an empty name or the truncation error.
\<close>

theorem ParseClientHelloServerName_no_panic:
  "ParseClientHelloServerName bs = Inl Truncated \<or> (\<exists>name. ParseClientHelloServerName bs = Inr name)"
  using ParseClientHelloServerName_safe [of bs]
  by (cases "ParseClientHelloServerName bs"; cases "projl (ParseClientHelloServerName bs)")
    (auto simp: no_panic_def)

section \<open>Encoding\<close>

datatype hello_extension =
    ServerName "(byte \<times> byte list) list"
  | OtherExtension nat "byte list"

record client_hello =
  hello_random :: "byte list"
  hello_session :: "byte list"
  hello_ciphers :: "byte list"
  hello_compression :: "byte list"
  hello_extensions :: "hello_extension list"

definition enc16 :: "nat \<Rightarrow> byte list" where
  "enc16 n = [of_nat (n div 256), of_nat (n mod 256)]"

definition enc24 :: "nat \<Rightarrow> byte list" where
  "enc24 n = [of_nat (n div 65536), of_nat (n div 256 mod 256), of_nat (n mod 256)]"

definition encode_name :: "byte \<times> byte list \<Rightarrow> byte list" where
  "encode_name n = fst n # enc16 (length (snd n)) @ snd n"

definition encode_vec16 :: "byte list \<Rightarrow> byte list" where
  "encode_vec16 v = enc16 (length v) @ v"

definition encode_vec8 :: "byte list \<Rightarrow> byte list" where
  "encode_vec8 v = of_nat (length v) # v"

fun encode_extension :: "hello_extension \<Rightarrow> byte list" where
  "encode_extension (ServerName names) =
     enc16 0 @ encode_vec16 (encode_vec16 (concat (map encode_name names)))"
| "encode_extension (OtherExtension ty data) = enc16 ty @ encode_vec16 data"

definition encode_hello :: "client_hello \<Rightarrow> byte list" where
  "encode_hello h = hello_random h @ encode_vec8 (hello_session h) @ encode_vec16 (hello_ciphers h)
     @ encode_vec8 (hello_compression h)
     @ encode_vec16 (concat (map encode_extension (hello_extensions h)))"

definition encode_record :: "byte \<Rightarrow> client_hello \<Rightarrow> byte list" where
  "encode_record version h =
     (let body = 1 # enc24 (length (encode_hello h)) @ encode_hello h
      in [22, 3, version] @ encode_vec16 body)"

fun first_name :: "(byte \<times> byte list) list \<Rightarrow> byte list" where
  "first_name [] = []"
| "first_name ((ty, n) # ns) = (if ty = 0 then n else first_name ns)"

fun advertised_name :: "hello_extension list \<Rightarrow> byte list" where
  "advertised_name [] = []"
| "advertised_name (ServerName names # es) = first_name names"
| "advertised_name (OtherExtension ty data # es) = advertised_name es"

fun extension_type_ok :: "hello_extension \<Rightarrow> bool" where
  "extension_type_ok (ServerName names) = True"
| "extension_type_ok (OtherExtension ty data) \<longleftrightarrow> 0 < ty \<and> ty < 65536"

definition wf_hello :: "client_hello \<Rightarrow> bool" where
  "wf_hello h \<longleftrightarrow>
     length (hello_random h) = 34 \<and> length (hello_session h) < 256 \<and>
     length (hello_compression h) < 256 \<and> list_all extension_type_ok (hello_extensions h) \<and>
     length (encode_hello h) + 4 < 65536"

lemma be16_enc16 [simp]:
  "n < 65536 \<Longrightarrow> be16 (of_nat (n div 256)) (of_nat (n mod 256)) = n"
  by (simp add: be16_def unat_of_nat take_bit_eq_mod)

lemma server_names_encode:
  "length (concat (map encode_name names)) < 65536 \<Longrightarrow>
   server_names (concat (map encode_name names)) = Inr (bytes_to_string (first_name names))"
proof (induction names)
  case (Cons n ns)
  then show ?case
    by (cases n) (simp add: encode_name_def enc16_def server_names_entry)
qed (simp add: server_names_short bytes_to_string_def)

lemma extension_loop_encode:
  "length (concat (map encode_extension es)) < 65536 \<Longrightarrow> list_all extension_type_ok es \<Longrightarrow>
   extension_loop (concat (map encode_extension es)) = Inr (bytes_to_string (advertised_name es))"
proof (induction es)
  case (Cons e es)
  then show ?case
  proof (cases e)
    case (ServerName names)
    have "be16 0 0 = 0" by (simp add: be16_def)
    with ServerName Cons show ?thesis 
      by (simp add: encode_vec16_def enc16_def extension_loop_entry
          parseServerNameExtension_entry server_names_encode)
  next
    case (OtherExtension ty data)
    with Cons show ?thesis
      by (simp add: encode_vec16_def enc16_def extension_loop_entry)
  qed
qed (simp add: extension_loop_short bytes_to_string_def)

lemma skip_vec8_encode:
  "length v < 256 \<Longrightarrow> i = length pre \<Longrightarrow>
   skip_vec8 (pre @ encode_vec8 v @ post) i = Inr (i + length (encode_vec8 v))"
  by (simp add: skip_vec8_def encode_vec8_def index_ok nth_append unat_of_nat take_bit_eq_mod)

lemma skip_vec16_encode:
  "length v < 65536 \<Longrightarrow> i = length pre \<Longrightarrow>
   skip_vec16 (pre @ encode_vec16 v @ post) i = Inr (i + length (encode_vec16 v))"
  by (simp add: skip_vec16_def encode_vec16_def enc16_def)

lemma parse_extensions_encode:
  "length v < 65536 \<Longrightarrow> i = length pre \<Longrightarrow>
   parse_extensions (pre @ encode_vec16 v) i = extension_loop v"
  by (simp add: parse_extensions_def encode_vec16_def enc16_def)

lemma parse_hello_encode:
  assumes "wf_hello h"
  shows "parse_hello (encode_hello h) = Inr (bytes_to_string (advertised_name (hello_extensions h)))"
proof -
  let ?e = "concat (map encode_extension (hello_extensions h))"
  let ?s = "encode_vec8 (hello_session h)" and ?c = "encode_vec16 (hello_ciphers h)"
  let ?m = "encode_vec8 (hello_compression h)"
  have len: "length (encode_hello h) < 65536" using assms by (simp add: wf_hello_def)
  have s1: "skip_vec8 (encode_hello h) 34 = Inr (34 + length ?s)"
    using assms unfolding encode_hello_def by (intro skip_vec8_encode) (auto simp: wf_hello_def)
  have s2: "skip_vec16 (encode_hello h) (34 + length ?s) = Inr (34 + length ?s + length ?c)"
    using assms len skip_vec16_encode [of "hello_ciphers h" "34 + length ?s" "hello_random h @ ?s"]
    by (simp add: encode_hello_def encode_vec16_def wf_hello_def)
  have s3: "skip_vec8 (encode_hello h) (34 + length ?s + length ?c) = Inr (34 + length ?s + length ?c + length ?m)"
    using assms skip_vec8_encode [of "hello_compression h" "34 + length ?s + length ?c" "hello_random h @ ?s @ ?c"]
    by (simp add: encode_hello_def wf_hello_def)
  have hello: "encode_hello h = (hello_random h @ ?s @ ?c @ ?m) @ encode_vec16 ?e"
    by (simp add: encode_hello_def)
  have "length ?e < 65536" using len by (simp add: hello encode_vec16_def)
  moreover have "length (hello_random h @ ?s @ ?c @ ?m) = 34 + length ?s + length ?c + length ?m"
    using assms by (simp add: wf_hello_def)
  ultimately have "parse_extensions (encode_hello h) (34 + length ?s + length ?c + length ?m)
      = extension_loop ?e"
    unfolding hello by (intro parse_extensions_encode) simp_all
  moreover have "\<not> length (encode_hello h) < 34"
    using assms by (simp add: wf_hello_def encode_hello_def)
  ultimately show ?thesis
    using s1 s2 s3 assms \<open>length ?e < 65536\<close> extension_loop_encode [of "hello_extensions h"]
    by (simp add: parse_hello_def wf_hello_def)
qed

lemma length_encode [simp]:
  "length (enc16 n) = 2" "length (enc24 n) = 3"
  "length (encode_vec8 v) = length v + 1" "length (encode_vec16 v) = length v + 2"
  by (simp_all add: enc16_def enc24_def encode_vec8_def encode_vec16_def)

lemma enc24_value:
  "n < 65536 \<Longrightarrow> 65536 * unat (of_nat (n div 65536) :: byte) + 256 * unat (of_nat (n div 256 mod 256) :: byte)
     + unat (of_nat (n mod 256) :: byte) = n"
  by (simp add: unat_of_nat take_bit_eq_mod)

lemma parse_handshake_encode:
  "length hello < 65536 \<Longrightarrow> parse_handshake (1 # enc24 (length hello) @ hello) = parse_hello hello"
  using enc24_value [of "length hello"]
  by (simp add: parse_handshake_def enc24_def handshakeTypeClientHello_def)

lemma ParseClientHelloServerName_record:
  "length body < 65536 \<Longrightarrow>
   ParseClientHelloServerName ([22, 3, version] @ encode_vec16 body @ rest) = parse_handshake body"
  by (simp add: ParseClientHelloServerName_def recordTypeHandshake_def encode_vec16_def enc16_def)

lemma ParseClientHelloServerName_encode:
  assumes "wf_hello h"
  shows "ParseClientHelloServerName (encode_record version h @ rest)
       = Inr (bytes_to_string (advertised_name (hello_extensions h)))"
  using assms parse_hello_encode [OF assms] parse_handshake_encode [of "encode_hello h"]
    ParseClientHelloServerName_record [of "1 # enc24 (length (encode_hello h)) @ encode_hello h"]
  by (simp add: encode_record_def wf_hello_def Let_def del: append.simps)

text \<open>
  C6. The parser recovers what a client encodes: a hello with any random, session id,
  cipher suites, compression methods and extensions yields the first host name of its
  server name extension, whatever extensions and whatever name types come before it,
  and the empty name without one. Bytes after the record are ignored.
\<close>

theorem ParseClientHelloServerName_roundtrip:
  assumes "wf_hello h"
  shows "ParseClientHelloServerName (encode_record version h @ rest)
       = Inr (bytes_to_string (advertised_name (hello_extensions h)))"
  by (rule ParseClientHelloServerName_encode [OF assms])

definition sample_hello :: client_hello where
  "sample_hello = \<lparr>hello_random = replicate 34 7, hello_session = [1, 2], hello_ciphers = [19, 1],
     hello_compression = [0],
     hello_extensions = [OtherExtension 43 [2, 3, 4],
       ServerName [(1, [9]), (0, string_to_bytes ''a.example'')], OtherExtension 10 []]\<rparr>"

lemma sample_hello_wf: "wf_hello sample_hello"
  by (simp add: wf_hello_def sample_hello_def encode_hello_def encode_name_def)

theorem ParseClientHelloServerName_roundtrip_witness:
  "wf_hello sample_hello \<and>
   ParseClientHelloServerName (encode_record 1 sample_hello @ [23, 3, 3]) = Inr ''a.example''"
  using ParseClientHelloServerName_roundtrip [OF sample_hello_wf, of 1 "[23, 3, 3]"] sample_hello_wf
  by (simp add: sample_hello_def)

section \<open>Peeking\<close>

lemma encode_record_split:
  "encode_record version h =
     [22, 3, version] @ encode_vec16 (1 # enc24 (length (encode_hello h)) @ encode_hello h)"
  by (simp add: encode_record_def)

lemma length_encode_record: "length (encode_record version h) = 9 + length (encode_hello h)"
  by (simp add: encode_record_split)

text \<open>What the second half of \<open>PeekClientHelloServerName\<close> does after a good header.\<close>

lemma Peek_header:
  assumes "incoming r = [22, 3, version] @ enc16 n @ rest" and "5 \<le> buf_size r"
    and "0 < n" and "n \<le> maxTLSRecordLen"
  shows "PeekClientHelloServerName r =
     (case Peek r (5 + n) of
        (_, Some e) \<Rightarrow>
          if e = ErrBufferFull \<or> e = EOF then ([], True, Some Truncated)
          else ([], True, Some (ReadError e))
      | (bs, None) \<Rightarrow>
          (case ParseClientHelloServerName bs of
             Inl e \<Rightarrow> ([], True, Some e)
           | Inr serverName \<Rightarrow> (serverName, True, None)))"
proof -
  have "n < 65536" using assms(4) by (simp add: maxTLSRecordLen_def)
  moreover have "Peek r 5 = ([22, 3, version] @ enc16 n, None)"
    using assms(1,2) by (simp add: Peek_def enc16_def)
  ultimately show ?thesis
    using assms(3,4)
    by (simp add: PeekClientHelloServerName_def enc16_def recordTypeHandshake_def)
qed

lemma PeekClientHelloServerName_correct_aux:
  assumes "wf_hello h" and "length (encode_hello h) + 4 \<le> maxTLSRecordLen"
    and "ClientHelloPeekBufferSize \<le> buf_size r"
    and "5 \<le> k" and "incoming r = take k (encode_record version h @ rest)"
    and "k < length (encode_record version h) \<Longrightarrow> final r = EOF"
  shows "PeekClientHelloServerName r =
     (if length (encode_record version h) \<le> k
      then (bytes_to_string (advertised_name (hello_extensions h)), True, None)
      else ([], True, Some Truncated))"
proof -
  let ?n = "length (encode_hello h) + 4"
  let ?body = "1 # enc24 (length (encode_hello h)) @ encode_hello h"
  have inc: "incoming r = [22, 3, version] @ enc16 ?n @ take (k - 5) (?body @ rest)"
  proof -
    have "encode_record version h @ rest = ([22, 3, version] @ enc16 ?n) @ ?body @ rest"
      by (simp add: encode_record_split encode_vec16_def add.commute)
    with assms(4) show ?thesis unfolding assms(5) by (simp only: take_append) simp
  qed
  have buf: "5 + ?n \<le> buf_size r" "5 \<le> buf_size r"
    using assms(2,3) by (simp_all add: ClientHelloPeekBufferSize_def)
  note head = Peek_header [OF inc buf(2) _ assms(2)]
  show ?thesis
  proof (cases "length (encode_record version h) \<le> k")
    case True
    then have "take (5 + ?n) (incoming r) = encode_record version h"
      unfolding assms(5) by (simp add: length_encode_record)
    moreover have "5 + ?n \<le> length (incoming r)"
      using True unfolding assms(5) by (simp add: length_encode_record)
    ultimately have "Peek r (5 + ?n) = (encode_record version h, None)"
      using buf(1) by (simp add: Peek_ok)
    with True head ParseClientHelloServerName_encode [OF assms(1), of version "[]"]
    show ?thesis by simp
  next
    case False
    then have "length (incoming r) < 5 + ?n"
      unfolding assms(5) by (simp add: length_encode_record)
    then have "Peek r (5 + ?n) = (incoming r, Some EOF)"
      using buf(1) assms(6) False by (simp add: Peek_def)
    with False head show ?thesis by simp
  qed
qed

lemma PeekClientHelloServerName_not_tls:
  assumes "Peek r 5 = (header, None)" "length header = 5" "hd header \<noteq> 22"
  shows "PeekClientHelloServerName r = ([], False, None)"
proof -
  obtain a b c d e where h: "header = [a, b, c, d, e]"
    using assms(2) by (auto simp: eval_nat_numeral length_Suc_conv)
  have "a \<noteq> recordTypeHandshake" using assms(3) by (simp add: h recordTypeHandshake_def)
  then show ?thesis
    using assms(1) by (simp add: PeekClientHelloServerName_def h numeral_eq_Suc split: sum.split)
qed

text \<open>
  C7. Peeking at a connection: with the buffer size the proxy allocates, a stream that
  begins with the record of a well-formed hello is recognised as TLS and gives the
  advertised name, however the stream goes on; a stream that ends inside that record,
  after its header, is still recognised as TLS and reported as truncated, so that the
  caller never takes it for a connection without a name.
\<close>

theorem PeekClientHelloServerName_correct:
  assumes "wf_hello h" and "length (encode_hello h) + 4 \<le> maxTLSRecordLen"
    and "ClientHelloPeekBufferSize \<le> buf_size r"
    and "5 \<le> k" and "incoming r = take k (encode_record version h @ rest)"
    and "k < length (encode_record version h) \<Longrightarrow> final r = EOF"
  shows "PeekClientHelloServerName r =
     (if length (encode_record version h) \<le> k
      then (bytes_to_string (advertised_name (hello_extensions h)), True, None)
      else ([], True, Some Truncated))"
  using PeekClientHelloServerName_correct_aux [OF assms] .

theorem PeekClientHelloServerName_correct_witness:
  "PeekClientHelloServerName
     \<lparr>buf_size = ClientHelloPeekBufferSize,
      incoming = take 200 (encode_record 1 sample_hello @ []), final = Timeout\<rparr>
     = (''a.example'', True, None) \<and>
   PeekClientHelloServerName
     \<lparr>buf_size = ClientHelloPeekBufferSize,
      incoming = take 30 (encode_record 1 sample_hello @ []), final = EOF\<rparr>
     = ([], True, Some Truncated)"
proof -
  have len: "length (encode_hello sample_hello) = 78"
    by (simp add: sample_hello_def encode_hello_def encode_name_def)
  then have small: "length (encode_hello sample_hello) + 4 \<le> maxTLSRecordLen"
    by (simp add: maxTLSRecordLen_def)
  have name: "bytes_to_string (advertised_name (hello_extensions sample_hello)) = ''a.example''"
    by (simp add: sample_hello_def)
  note peek = PeekClientHelloServerName_correct [OF sample_hello_wf small]
  show ?thesis
    using peek [of "\<lparr>buf_size = ClientHelloPeekBufferSize,
        incoming = take 200 (encode_record 1 sample_hello @ []), final = Timeout\<rparr>" 200 1 "[]"]
      peek [of "\<lparr>buf_size = ClientHelloPeekBufferSize,
        incoming = take 30 (encode_record 1 sample_hello @ []), final = EOF\<rparr>" 30 1 "[]"]
    by (simp add: length_encode_record len name)
qed

end
