(* ===== verification/Go_Textproto.thy ===== *)
theory Go_Textproto
  imports Go_Strings Go_Bufio
begin

text \<open>
  What the proxy uses of package \<open>net/textproto\<close>: reading lines and MIME headers from a
  stream, and canonical header keys. A stream is the text still to be read and the error
  at its end. A header is an association list with distinct keys, in the order in which
  Go's \<open>range\<close> happens to visit the map.
\<close>

section \<open>Lines\<close>

record stream =
  unread :: string
  at_end :: io_error

definition LF :: char where "LF = char_of (10 :: nat)"
definition CR :: char where "CR = char_of (13 :: nat)"
definition CRLF :: string where "CRLF = [CR, LF]"
definition TAB :: char where "TAB = char_of (9 :: nat)"

text \<open>\<open>(*Reader).ReadLine\<close>: a last line without its end is still a line.\<close>

definition strip_cr :: "string \<Rightarrow> string" where
  "strip_cr l = (if l \<noteq> [] \<and> last l = CR then butlast l else l)"

definition ReadLine :: "stream \<Rightarrow> (io_error + string) \<times> stream" where
  "ReadLine s =
     (case IndexByte (unread s) LF of
        Some i \<Rightarrow> (Inr (strip_cr (take i (unread s))), s\<lparr>unread := drop (i + 1) (unread s)\<rparr>)
      | None \<Rightarrow> if unread s = [] then (Inl (at_end s), s)
                else (Inr (unread s), s\<lparr>unread := []\<rparr>))"

definition is_blank :: "char \<Rightarrow> bool" where
  "is_blank c \<longleftrightarrow> c = CHR '' '' \<or> c = TAB"

definition trim_blank :: "string \<Rightarrow> string" where
  "trim_blank l = rev (dropWhile is_blank (rev (dropWhile is_blank l)))"

definition skipSpace :: "stream \<Rightarrow> nat \<times> stream" where
  "skipSpace s = (let n = length (takeWhile is_blank (unread s)) in (n, s\<lparr>unread := drop n (unread s)\<rparr>))"

lemma ReadLine_shrinks:
  "(Inr line, s') = ReadLine s \<Longrightarrow> length (unread s') < length (unread s)"
  by (auto simp: ReadLine_def split: option.splits if_splits dest: IndexByte_SomeD)

lemma ReadLine_at_end [simp]: "at_end (snd (ReadLine s)) = at_end s"
  by (simp add: ReadLine_def split: option.split)

lemma skipSpace_shrinks: "(n, s') = skipSpace s \<Longrightarrow> length (unread s') \<le> length (unread s)"
  by (auto simp: skipSpace_def Let_def)

text \<open>\<open>readContinuedLineSlice\<close>: a line and the indented lines that continue it.\<close>

function continued :: "stream \<Rightarrow> string \<Rightarrow> string \<times> stream" where
  "continued s buf =
     (case skipSpace s of
        (n, s1) \<Rightarrow>
          if n = 0 then (buf, s1)
          else (case ReadLine s1 of
                  (Inl _, s2) \<Rightarrow> (buf @ '' '', s2)
                | (Inr line, s2) \<Rightarrow> continued s2 (buf @ '' '' @ trim_blank line)))"
  by pat_completeness auto
termination
  by (relation "measure (\<lambda>(s, _). length (unread s))")
    (auto dest!: skipSpace_shrinks ReadLine_shrinks)

declare continued.simps [simp del]

definition readContinuedLine :: "stream \<Rightarrow> (io_error + string) \<times> stream" where
  "readContinuedLine s =
     (case ReadLine s of
        (Inl e, s1) \<Rightarrow> (Inl e, s1)
      | (Inr line, s1) \<Rightarrow>
          if line = [] then (Inr [], s1)
          else if CHR '':'' \<notin> set line then (Inl (OtherIO ''malformed MIME header: missing colon''), s1)
          else (case continued s1 (trim_blank line) of (kv, s2) \<Rightarrow> (Inr kv, s2)))"

lemma ReadLine_unread_le: "length (unread (snd (ReadLine s))) \<le> length (unread s)"
  by (auto simp: ReadLine_def split: option.split)

lemma continued_unread_le: "length (unread (snd (continued s buf))) \<le> length (unread s)"
proof (induction s buf rule: continued.induct)
  case (1 s buf)
  obtain n s1 where s1: "skipSpace s = (n, s1)" by fastforce
  obtain r s2 where s2: "ReadLine s1 = (r, s2)" by fastforce
  have "length (unread s2) \<le> length (unread s)"
    using ReadLine_unread_le [of s1] skipSpace_shrinks [OF s1 [symmetric]] s2 by simp
  moreover have "length (unread s1) \<le> length (unread s)" by (rule skipSpace_shrinks [OF s1 [symmetric]])
  ultimately show ?case
    using 1(1) [OF s1 [symmetric] _ s2 [symmetric]] s1 s2
    by (subst continued.simps) (auto split: sum.split intro: le_trans)
qed

lemma readContinuedLine_shrinks:
  "(Inr kv, s') = readContinuedLine s \<Longrightarrow> length (unread s') < length (unread s)"
proof -
  assume a: "(Inr kv, s') = readContinuedLine s"
  then obtain line s1 where l: "ReadLine s = (Inr line, s1)"
    by (auto simp: readContinuedLine_def split: prod.splits sum.splits)
  have "length (unread s') \<le> length (unread s1)"
    using a l continued_unread_le [of s1 "trim_blank line"]
    by (auto simp: readContinuedLine_def split: prod.splits if_splits)
  with ReadLine_shrinks [OF l [symmetric]] show ?thesis by simp
qed

section \<open>Header keys\<close>

definition validHeaderFieldByte :: "char \<Rightarrow> bool" where
  "validHeaderFieldByte c \<longleftrightarrow>
     is_digit c \<or> (97 \<le> (of_char c :: nat) \<and> (of_char c :: nat) \<le> 122) \<or>
     (65 \<le> (of_char c :: nat) \<and> (of_char c :: nat) \<le> 90) \<or> c \<in> set ''!#$%&*+-.^_|~'' \<or> c = CHR 0x27 \<or> c = CHR 0x60"

definition validHeaderValueByte :: "char \<Rightarrow> bool" where
  "validHeaderValueByte c \<longleftrightarrow> c = TAB \<or> (32 \<le> (of_char c :: nat) \<and> (of_char c :: nat) \<noteq> 127)"

definition upper :: "char \<Rightarrow> char" where
  "upper c = (if 97 \<le> (of_char c :: nat) \<and> (of_char c :: nat) \<le> 122 then char_of ((of_char c :: nat) - 32) else c)"

fun canonical_case :: "bool \<Rightarrow> string \<Rightarrow> string" where
  "canonical_case up [] = []"
| "canonical_case up (c # cs) =
     (let c' = (if up then upper c else lower c) in c' # canonical_case (c' = CHR ''-'') cs)"

text \<open>\<open>canonicalMIMEHeaderKey\<close>, with its \<open>ok\<close>: a space inside leaves the key as it is.\<close>

definition canonicalMIMEHeaderKey :: "string \<Rightarrow> string option" where
  "canonicalMIMEHeaderKey a =
     (if list_ex (\<lambda>c. \<not> validHeaderFieldByte c \<and> c \<noteq> CHR '' '') a then None
      else if CHR '' '' \<in> set a then Some a
      else Some (canonical_case True a))"

definition CanonicalHeaderKey :: "string \<Rightarrow> string" where
  "CanonicalHeaderKey s = (if list_all validHeaderFieldByte s then canonical_case True s else s)"

section \<open>Headers\<close>

type_synonym header = "(string \<times> string list) list"

text \<open>Assigning a key of a map: in place, or as a new entry.\<close>

fun header_put :: "header \<Rightarrow> string \<Rightarrow> string list \<Rightarrow> header" where
  "header_put [] k vs = [(k, vs)]"
| "header_put ((k', ws) # h) k vs = (if k' = k then (k, vs) # h else (k', ws) # header_put h k vs)"

definition header_append :: "header \<Rightarrow> string \<Rightarrow> string \<Rightarrow> header" where
  "header_append h k v = header_put h k ((case map_of h k of Some vs \<Rightarrow> vs | None \<Rightarrow> []) @ [v])"

definition mime_line :: "string \<Rightarrow> header \<Rightarrow> header option" where
  "mime_line kv h =
     (case IndexByte kv CHR '':'' of
        None \<Rightarrow> None
      | Some i \<Rightarrow>
          (case canonicalMIMEHeaderKey (take i kv) of
             None \<Rightarrow> None
           | Some key \<Rightarrow>
               if \<not> list_all validHeaderValueByte (drop (i + 1) kv) then None
               else if key = [] then Some h
               else Some (header_append h key (dropWhile is_blank (drop (i + 1) kv)))))"

function mime_loop :: "stream \<Rightarrow> header \<Rightarrow> (io_error + header) \<times> stream" where
  "mime_loop s h =
     (case readContinuedLine s of
        (Inl e, s1) \<Rightarrow> (Inl e, s1)
      | (Inr kv, s1) \<Rightarrow>
          if kv = [] then (Inr h, s1)
          else (case mime_line kv h of
                  None \<Rightarrow> (Inl (OtherIO ''malformed MIME header line''), s1)
                | Some h' \<Rightarrow> mime_loop s1 h'))"
  by pat_completeness auto
termination
  by (relation "measure (\<lambda>(s, _). length (unread s))") (auto dest!: readContinuedLine_shrinks)

declare mime_loop.simps [simp del]

definition ReadMIMEHeader :: "stream \<Rightarrow> (io_error + header) \<times> stream" where
  "ReadMIMEHeader s =
     (if unread s \<noteq> [] \<and> is_blank (hd (unread s))
      then (case ReadLine s of
              (Inl e, s1) \<Rightarrow> (Inl e, s1)
            | (Inr _, s1) \<Rightarrow> (Inl (OtherIO ''malformed MIME header initial line''), s1))
      else mime_loop s [])"

section \<open>Reading headers back\<close>

lemma map_of_header_put: "map_of (header_put h k vs) = (map_of h)(k \<mapsto> vs)"
  by (induction h k vs rule: header_put.induct) (auto simp: fun_upd_def)

lemma header_put_keys: "set (map fst (header_put h k vs)) = insert k (set (map fst h))"
  by (induction h k vs rule: header_put.induct) auto

lemma distinct_header_put: "distinct (map fst h) \<Longrightarrow> distinct (map fst (header_put h k vs))"
  by (induction h k vs rule: header_put.induct) (auto simp: header_put_keys simp flip: set_map)

lemma header_put_new: "k \<notin> fst ` set h \<Longrightarrow> header_put h k vs = h @ [(k, vs)]"
  by (induction h k vs rule: header_put.induct) auto

text \<open>A field that is read back unchanged: a canonical key, a value without outer blanks.\<close>

definition plain_field :: "string \<times> string \<Rightarrow> bool" where
  "plain_field = (\<lambda>(k, v).
     k \<noteq> [] \<and> list_all validHeaderFieldByte k \<and> canonical_case True k = k \<and>
     v \<noteq> [] \<and> list_all validHeaderValueByte v \<and> \<not> is_blank (hd v) \<and> \<not> is_blank (last v))"

definition field_text :: "string \<times> string \<Rightarrow> string" where
  "field_text = (\<lambda>(k, v). k @ '': '' @ v @ CRLF)"

lemma control_chars: "of_char LF = (10 :: nat)" "of_char CR = (13 :: nat)" "of_char TAB = (9 :: nat)"
  by (simp_all add: LF_def CR_def TAB_def)

lemma control_neq:
  "\<not> is_blank CR" "LF \<noteq> CHR '':''" "LF \<noteq> CHR '' ''" "LF \<noteq> CR"
  by (simp_all add: is_blank_def CR_def TAB_def LF_def char_of_def bit_0)

lemma validHeaderFieldByte_code:
  "validHeaderFieldByte c \<Longrightarrow> 33 \<le> (of_char c :: nat) \<and> c \<noteq> CHR '':''"
  by (auto simp: validHeaderFieldByte_def is_digit_def)

lemma field_byte_plain:
  assumes "validHeaderFieldByte c"
  shows "c \<noteq> CHR '':''" "\<not> is_blank c" "c \<noteq> LF" "c \<noteq> CHR '' ''"
  using validHeaderFieldByte_code [OF assms] control_chars by (auto simp: is_blank_def)

lemma value_byte_plain: "validHeaderValueByte c \<Longrightarrow> c \<noteq> LF"
  using control_chars by (auto simp: validHeaderValueByte_def)

lemma trim_blank_id: "l \<noteq> [] \<Longrightarrow> \<not> is_blank (hd l) \<Longrightarrow> \<not> is_blank (last l) \<Longrightarrow> trim_blank l = l"
proof -
  assume "l \<noteq> []" "\<not> is_blank (hd l)" "\<not> is_blank (last l)"
  then have "dropWhile is_blank l = l" "dropWhile is_blank (rev l) = rev l"
    by (simp_all add: dropWhile_eq_self_iff hd_rev)
  then show ?thesis by (simp add: trim_blank_def)
qed

lemma canonicalMIMEHeaderKey_plain:
  assumes "list_all validHeaderFieldByte k" "canonical_case True k = k"
  shows "canonicalMIMEHeaderKey k = Some k"
  using assms field_byte_plain(4) by (auto simp: canonicalMIMEHeaderKey_def list_ex_iff list_all_iff)

lemma mime_line_plain:
  assumes "plain_field (k, v)" "k \<notin> fst ` set h"
  shows "mime_line (k @ '': '' @ v) h = Some (h @ [(k, [v])])"
proof -
  have "CHR '':'' \<notin> set k" using assms field_byte_plain(1) by (auto simp: plain_field_def list_all_iff)
  then have "IndexByte (k @ CHR '':'' # CHR '' '' # v) CHR '':'' = Some (length k)" by (rule IndexByte_append)
  moreover have "dropWhile is_blank (CHR '' '' # v) = v"
    using assms by (cases v) (auto simp: plain_field_def is_blank_def)
  moreover have "map_of h k = None" using assms(2) by (simp add: map_of_eq_None_iff)
  ultimately show ?thesis
    using assms by (simp add: mime_line_def plain_field_def canonicalMIMEHeaderKey_plain header_append_def
        header_put_new validHeaderValueByte_def)
qed

lemma ReadLine_CRLF:
  assumes "unread s = l @ CRLF @ rest" "LF \<notin> set l"
  shows "ReadLine s = (Inr l, s\<lparr>unread := rest\<rparr>)"
proof -
  have "IndexByte ((l @ [CR]) @ LF # rest) LF = Some (length (l @ [CR]))"
    using assms(2) control_neq(4) by (intro IndexByte_append) simp
  then show ?thesis using assms(1) by (simp add: ReadLine_def CRLF_def strip_cr_def)
qed

lemma continued_stop:
  "unread s \<noteq> [] \<Longrightarrow> \<not> is_blank (hd (unread s)) \<Longrightarrow> continued s buf = (buf, s)"
  by (subst continued.simps) (cases "unread s", auto simp: skipSpace_def)

lemma readContinuedLine_plain:
  assumes "plain_field (k, v)" "unread s = field_text (k, v) @ rest" "rest \<noteq> []" "\<not> is_blank (hd rest)"
  shows "readContinuedLine s = (Inr (k @ '': '' @ v), s\<lparr>unread := rest\<rparr>)"
proof -
  let ?l = "k @ '': '' @ v"
  have "LF \<notin> set k" "LF \<notin> set v"
    using assms(1) field_byte_plain(3) value_byte_plain by (auto simp: plain_field_def list_all_iff)
  then have "LF \<notin> set ?l" using control_neq(2,3) by auto
  then have line: "ReadLine s = (Inr ?l, s\<lparr>unread := rest\<rparr>)"
    using ReadLine_CRLF [of s ?l rest] assms(2) by (simp add: field_text_def)
  have "\<not> is_blank (hd k)" using assms(1) field_byte_plain(2) by (cases k) (auto simp: plain_field_def)
  then have "trim_blank ?l = ?l" using assms(1) by (intro trim_blank_id) (auto simp: plain_field_def)
  with line continued_stop [of "s\<lparr>unread := rest\<rparr>" ?l] assms(3,4) show ?thesis
    by (simp add: readContinuedLine_def)
qed

lemma mime_loop_fields:
  assumes "list_all plain_field fs" "distinct (map fst fs)" "fst ` set fs \<inter> fst ` set h = {}"
    and "unread s = concat (map field_text fs) @ CRLF @ rest"
  shows "mime_loop s h = (Inr (h @ map (\<lambda>(k, v). (k, [v])) fs), s\<lparr>unread := rest\<rparr>)"
  using assms
proof (induction fs arbitrary: h s)
  case Nil
  then have "ReadLine s = (Inr [], s\<lparr>unread := rest\<rparr>)" using ReadLine_CRLF [of s "[]"] by simp
  then show ?case by (subst mime_loop.simps) (simp add: readContinuedLine_def)
next
  case (Cons f fs)
  obtain k v where f: "f = (k, v)" by (cases f)
  let ?rest = "concat (map field_text fs) @ CRLF @ rest"
  have start: "?rest \<noteq> []" "\<not> is_blank (hd ?rest)"
  proof -
    show "?rest \<noteq> []" by (simp add: CRLF_def)
    have "\<not> is_blank (hd (field_text g))" if "plain_field g" for g
      using that field_byte_plain(2) by (cases "fst g") (auto simp: plain_field_def field_text_def)
    moreover have "field_text g \<noteq> []" for g by (simp add: field_text_def split: prod.split)
    ultimately show "\<not> is_blank (hd ?rest)"
      using Cons.prems(1) control_neq(1) by (cases fs) (auto simp: CRLF_def)
  qed
  have line: "readContinuedLine s = (Inr (k @ '': '' @ v), s\<lparr>unread := ?rest\<rparr>)"
    using readContinuedLine_plain [of k v s ?rest] Cons.prems start by (simp add: f)
  have new: "mime_line (k @ '': '' @ v) h = Some (h @ [(k, [v])])"
    using mime_line_plain [of k v h] Cons.prems by (simp add: f)
  have "mime_loop (s\<lparr>unread := ?rest\<rparr>) (h @ [(k, [v])]) =
      (Inr ((h @ [(k, [v])]) @ map (\<lambda>(k, v). (k, [v])) fs), (s\<lparr>unread := ?rest\<rparr>)\<lparr>unread := rest\<rparr>)"
    using Cons.prems by (intro Cons.IH) (auto simp: f)
  with line new show ?case by (subst mime_loop.simps) (simp add: f)
qed

lemma ReadMIMEHeader_fields:
  assumes "list_all plain_field fs" "distinct (map fst fs)"
    and "unread s = concat (map field_text fs) @ CRLF @ rest"
  shows "ReadMIMEHeader s = (Inr (map (\<lambda>(k, v). (k, [v])) fs), s\<lparr>unread := rest\<rparr>)"
proof -
  have "\<not> is_blank (hd (unread s))"
  proof (cases fs)
    case Nil
    then show ?thesis using assms(3) control_neq(1) by (simp add: CRLF_def)
  next
    case (Cons f gs)
    obtain k v where "f = (k, v)" by (cases f)
    with Cons assms show ?thesis using field_byte_plain(2) by (cases k) (auto simp: plain_field_def field_text_def)
  qed
  with mime_loop_fields [OF assms(1,2) _ assms(3), of "[]"] show ?thesis by (simp add: ReadMIMEHeader_def)
qed

end
