(* ===== verification/Http_Message.thy ===== *)
theory Http_Message
  imports Go_Textproto
begin

text \<open>
  HTTP/1 messages as \<open>pkg/protocol/http\<close> has them: headers (\<open>header.go\<close>), requests
  (\<open>request.go\<close>), responses (\<open>response.go\<close>) and the ASCII helpers.

  Arguments of the model (\<open>http_lib\<close>): the token tests of \<open>golang.org/x/net/http/httpguts\<close>
  and \<open>url.ParseRequestURI\<close>, of which only the scheme, the host and the port are used.
\<close>

section \<open>Headers\<close>

definition header_get :: "header \<Rightarrow> string \<Rightarrow> string" where
  "header_get h k = (case map_of h k of Some (v # _) \<Rightarrow> v | _ \<Rightarrow> [])"

definition header_has :: "header \<Rightarrow> string \<Rightarrow> bool" where
  "header_has h k \<longleftrightarrow> map_of h k \<noteq> None"

definition header_Get :: "header \<Rightarrow> string \<Rightarrow> string" where
  "header_Get h k = header_get h (CanonicalHeaderKey k)"

definition header_Values :: "header \<Rightarrow> string \<Rightarrow> string list" where
  "header_Values h k = (case map_of h (CanonicalHeaderKey k) of Some vs \<Rightarrow> vs | None \<Rightarrow> [])"

definition header_Set :: "header \<Rightarrow> string \<Rightarrow> string \<Rightarrow> header" where
  "header_Set h k v = header_put h (CanonicalHeaderKey k) [v]"

definition header_Add :: "header \<Rightarrow> string \<Rightarrow> string \<Rightarrow> header" where
  "header_Add h k v = header_put h (CanonicalHeaderKey k) (header_Values h k @ [v])"

definition header_Del :: "header \<Rightarrow> string \<Rightarrow> header" where
  "header_Del h k = filter (\<lambda>(k', _). k' \<noteq> CanonicalHeaderKey k) h"

definition header_Clone :: "header \<Rightarrow> header" where
  "header_Clone h = map (\<lambda>(k, vv). (k, vv)) h"

text \<open>The \<open>ascii\<close> helpers compare byte by byte.\<close>

definition ascii_EqualFold :: "string \<Rightarrow> string \<Rightarrow> bool" where
  "ascii_EqualFold s t \<longleftrightarrow>
     length s = length t \<and> list_all2 (\<lambda>a b. lower a = lower b) s t"

definition ascii_IsPrint :: "string \<Rightarrow> bool" where
  "ascii_IsPrint s \<longleftrightarrow> list_all (\<lambda>c. 32 \<le> (of_char c :: nat) \<and> (of_char c :: nat) \<le> 126) s"

definition ascii_Is :: "string \<Rightarrow> bool" where
  "ascii_Is s \<longleftrightarrow> list_all (\<lambda>c. (of_char c :: nat) \<le> 127) s"

definition ascii_ToLower :: "string \<Rightarrow> string option" where
  "ascii_ToLower s = (if ascii_IsPrint s then Some (ToLower s) else None)"

definition isTokenBoundary :: "char \<Rightarrow> bool" where
  "isTokenBoundary b \<longleftrightarrow> b = CHR '' '' \<or> b = CHR '','' \<or> b = char_of (9 :: nat)"

text \<open>The body of the loop of \<open>hasToken\<close> at one start position, and the loop.\<close>

definition or_0x20 :: "char \<Rightarrow> char" where
  "or_0x20 b = char_of (or (of_char b) 32 :: nat)"

definition token_at :: "string \<Rightarrow> string \<Rightarrow> nat \<Rightarrow> bool" where
  "token_at v token sp \<longleftrightarrow>
     \<not> (v ! sp \<noteq> token ! 0 \<and> or_0x20 (v ! sp) \<noteq> token ! 0) \<and>
     \<not> (0 < sp \<and> \<not> isTokenBoundary (v ! (sp - 1))) \<and>
     \<not> (sp + length token \<noteq> length v \<and> \<not> isTokenBoundary (v ! (sp + length token))) \<and>
     ascii_EqualFold (take (length token) (drop sp v)) token"

definition hasToken :: "string \<Rightarrow> string \<Rightarrow> bool" where
  "hasToken v token \<longleftrightarrow>
     (if length v < length token \<or> token = [] then False
      else if v = token then True
      else list_ex (token_at v token) [0..<length v - length token + 1])"

section \<open>Requests\<close>

record url =
  u_Scheme :: string
  u_Host :: string
  u_Port :: string
  u_Query :: "string \<Rightarrow> string"

record request =
  Method :: string
  Proto :: string
  ProtoMajor :: int
  ProtoMinor :: int
  r_URL :: url
  r_Port :: int
  Authority :: string
  Header :: header
  ContentLength :: int
  TransferEncoding :: "string list"
  Host :: string
  RequestURI :: string
  Close :: bool

datatype http_error =
    MalformedRequest string
  | InvalidMethod string
  | MalformedVersion string
  | BadURL string
  | StreamError io_error
  | TooManyHosts
  | MalformedResponse string
  | MalformedStatus string

record http_lib =
  is_token_rune :: "char \<Rightarrow> bool"
  ContainsToken :: "string list \<Rightarrow> string \<Rightarrow> bool"
  ParseRequestURI :: "string \<Rightarrow> string + url"

definition parseRequestLine :: "string \<Rightarrow> (string \<times> string \<times> string) option" where
  "parseRequestLine line =
     (case IndexByte line CHR '' '' of
        None \<Rightarrow> None
      | Some s1 \<Rightarrow>
          (case IndexByte (drop (s1 + 1) line) CHR '' '' of
             None \<Rightarrow> None
           | Some s2 \<Rightarrow>
               Some (take s1 line, take s2 (drop (s1 + 1) line), drop (s2 + s1 + 1 + 1) line)))"

definition validMethod :: "http_lib \<Rightarrow> string \<Rightarrow> bool" where
  "validMethod lib m \<longleftrightarrow> 0 < length m \<and> list_all (is_token_rune lib) m"

definition ParseHTTPVersion :: "string \<Rightarrow> (int \<times> int) option" where
  "ParseHTTPVersion vers =
     (if vers = ''HTTP/1.1'' then Some (1, 1)
      else if vers = ''HTTP/1.0'' then Some (1, 0)
      else if \<not> HasPrefix vers ''HTTP/'' then None
      else (case IndexByte vers CHR ''.'' of
              None \<Rightarrow> None
            | Some dot \<Rightarrow>
                (case Atoi (take (dot - 5) (drop 5 vers)) of
                   None \<Rightarrow> None
                 | Some major \<Rightarrow>
                     if major < 0 \<or> 1000000 < major then None
                     else (case Atoi (drop (dot + 1) vers) of
                             None \<Rightarrow> None
                           | Some minor \<Rightarrow>
                               if minor < 0 \<or> 1000000 < minor then None else Some (major, minor)))))"

definition shouldClose :: "http_lib \<Rightarrow> int \<Rightarrow> int \<Rightarrow> header \<Rightarrow> bool" where
  "shouldClose lib major minor h =
     (if major < 1 then True
      else
        let conv = (case map_of h ''Connection'' of Some vs \<Rightarrow> vs | None \<Rightarrow> []);
            hasClose = ContainsToken lib conv ''close''
        in if major = 1 \<and> minor = 0 then hasClose \<or> \<not> ContainsToken lib conv ''keep-alive''
           else hasClose)"

definition fixPragmaCacheControl :: "header \<Rightarrow> header" where
  "fixPragmaCacheControl h =
     (case map_of h ''Pragma'' of
        Some (p # _) \<Rightarrow>
          if p = ''no-cache'' \<and> map_of h ''Cache-Control'' = None
          then header_put h ''Cache-Control'' [''no-cache''] else h
      | _ \<Rightarrow> h)"

definition content_length :: "header \<Rightarrow> int" where
  "content_length h =
     (let s = header_get h ''Content-Length'' in
      if s = [] then - 1 else (case Atoi s of None \<Rightarrow> - 1 | Some n \<Rightarrow> n))"

definition fillContentLength :: "request \<Rightarrow> request" where
  "fillContentLength r = r\<lparr>ContentLength := content_length (Header r)\<rparr>"

definition fillAuthority :: "request \<Rightarrow> request" where
  "fillAuthority r = r\<lparr>Authority := (if u_Host (r_URL r) = [] then Host r else u_Host (r_URL r))\<rparr>"

definition fillTransferEncoding :: "request \<Rightarrow> request" where
  "fillTransferEncoding r =
     r\<lparr>TransferEncoding := header_Values (Header r) ''Transfer-Encoding''\<rparr>"

text \<open>
  \<open>int32(n)\<close> keeps the low 32 bits. With an error, which the callers drop, \<open>Atoi\<close> still
  returns a value: the nearest 64-bit number when out of range, 0 for other text.
\<close>

definition Atoi_value :: "string \<Rightarrow> int" where
  "Atoi_value s =
     (case Atoi s of
        Some n \<Rightarrow> n
      | None \<Rightarrow>
          let ds = (if s \<noteq> [] \<and> (hd s = CHR ''-'' \<or> hd s = CHR ''+'') then tl s else s) in
          if ds \<noteq> [] \<and> list_all is_digit ds
          then (if hd s = CHR ''-'' then - (2 ^ 63) else 2 ^ 63 - 1) else 0)"

definition wrap32 :: "int \<Rightarrow> int" where
  "wrap32 x = (x + 2 ^ 31) mod 2 ^ 32 - 2 ^ 31"

definition port_of :: "string \<Rightarrow> int" where
  "port_of s = wrap32 (Atoi_value s)"

definition fillPort :: "request \<Rightarrow> request" where
  "fillPort r =
     r\<lparr>r_Port :=
        (if u_Port (r_URL r) \<noteq> [] then port_of (u_Port (r_URL r))
         else if Method r = ''CONNECT'' then 443
         else if Host r = [] then 0
         else (case SplitHostPort (Host r) of
                 Inr _ \<Rightarrow>
                   (case LastIndexByte (Host r) CHR '':'' of
                      Some i \<Rightarrow> port_of (drop (i + 1) (Host r))
                    | None \<Rightarrow> port_of (Host r))
               | Inl _ \<Rightarrow> 80))\<rparr>"

definition ReadRequest :: "http_lib \<Rightarrow> stream \<Rightarrow> (http_error + request) \<times> stream" where
  "ReadRequest lib s =
     (case ReadLine s of
        (Inl e, s1) \<Rightarrow> (Inl (StreamError e), s1)
      | (Inr line, s1) \<Rightarrow>
          (case parseRequestLine line of
             None \<Rightarrow> (Inl (MalformedRequest line), s1)
           | Some (meth, uri, proto) \<Rightarrow>
               if \<not> validMethod lib meth then (Inl (InvalidMethod meth), s1)
               else (case ParseHTTPVersion proto of
                       None \<Rightarrow> (Inl (MalformedVersion proto), s1)
                     | Some (major, minor) \<Rightarrow>
                         let justAuthority = (meth = ''CONNECT'' \<and> \<not> HasPrefix uri ''/'');
                             rawurl = (if justAuthority then ''http://'' @ uri else uri)
                         in (case ParseRequestURI lib rawurl of
                               Inl e \<Rightarrow> (Inl (BadURL e), s1)
                             | Inr u0 \<Rightarrow>
                                 let u = (if justAuthority then u0\<lparr>u_Scheme := []\<rparr> else u0) in
                                 (case ReadMIMEHeader s1 of
                                    (Inl e, s2) \<Rightarrow> (Inl (StreamError e), s2)
                                  | (Inr h, s2) \<Rightarrow>
                                      if 1 < length (case map_of h ''Host'' of Some vs \<Rightarrow> vs | None \<Rightarrow> [])
                                      then (Inl TooManyHosts, s2)
                                      else
                                        let host = (if u_Host u = [] then header_get h ''Host'' else u_Host u);
                                            r = \<lparr>Method = meth, Proto = proto, ProtoMajor = major,
                                              ProtoMinor = minor, r_URL = u, r_Port = 0, Authority = [],
                                              Header = fixPragmaCacheControl h, ContentLength = 0,
                                              TransferEncoding = [], Host = host, RequestURI = uri,
                                              Close = shouldClose lib major minor h\<rparr>
                                        in (Inr (fillPort (fillTransferEncoding
                                             (fillAuthority (fillContentLength r)))), s2))))))"

definition FormatRequestLine :: "request \<Rightarrow> string" where
  "FormatRequestLine r = Method r @ '' '' @ RequestURI r @ '' '' @ Proto r"

definition TargetDomain :: "request \<Rightarrow> string" where
  "TargetDomain r =
     (let host = (if Host r = [] then Authority r else Host r) in
      if host = [] then []
      else
        let rest = (case SplitHostPort host of Inr (h, _) \<Rightarrow> h | Inl _ \<Rightarrow> host) in
        if HasPrefix host ''['' \<and> CHR '']'' \<in> set host then
          (case IndexByte (TrimPrefix host ''['') CHR '']'' of
             Some i \<Rightarrow> take i (TrimPrefix host ''['')
           | None \<Rightarrow> rest)
        else rest)"

section \<open>Responses\<close>

record response =
  rs_Status :: string
  rs_StatusCode :: int
  rs_Proto :: string
  rs_ProtoMajor :: int
  rs_ProtoMinor :: int
  rs_Header :: header
  rs_ContentLength :: int
  rs_TransferEncoding :: "string list"
  Chunked :: bool
  rs_Close :: bool
  Upgraded :: bool
  UpgradeType :: string

text \<open>\<open>textproto.TrimString\<close>.\<close>

definition is_lws :: "char \<Rightarrow> bool" where
  "is_lws c \<longleftrightarrow> c = CHR '' '' \<or> c = char_of (9 :: nat) \<or> c = LF \<or> c = CR"

definition TrimString :: "string \<Rightarrow> string" where
  "TrimString s = rev (dropWhile is_lws (rev (dropWhile is_lws s)))"

definition protoAtLeast :: "response \<Rightarrow> int \<Rightarrow> int \<Rightarrow> bool" where
  "protoAtLeast resp m n \<longleftrightarrow>
     rs_ProtoMajor resp > m \<or> (rs_ProtoMajor resp = m \<and> rs_ProtoMinor resp \<ge> n)"

text \<open>The errors of \<open>parseTransferEncoding\<close> are dropped by its caller.\<close>

definition parseTransferEncoding :: "response \<Rightarrow> response" where
  "parseTransferEncoding resp =
     (case map_of (rs_Header resp) ''Transfer-Encoding'' of
        None \<Rightarrow> resp
      | Some raw \<Rightarrow>
          if \<not> protoAtLeast resp 1 1 then resp
          else if length raw \<noteq> 1 then resp
          else if \<not> ascii_EqualFold (TrimString (hd raw)) ''chunked'' then resp
          else resp\<lparr>Chunked := True\<rparr>)"

definition fillRespContentLength :: "response \<Rightarrow> response" where
  "fillRespContentLength resp = resp\<lparr>rs_ContentLength := content_length (rs_Header resp)\<rparr>"

definition fillRespTransferEncoding :: "response \<Rightarrow> response" where
  "fillRespTransferEncoding resp =
     resp\<lparr>rs_TransferEncoding := header_Values (rs_Header resp) ''Transfer-Encoding''\<rparr>"

definition fillRespUpgrade :: "response \<Rightarrow> response" where
  "fillRespUpgrade resp =
     (let upgrade = TrimString (header_Get (rs_Header resp) ''Upgrade'') in
      resp\<lparr>UpgradeType := upgrade,
           Upgraded := (rs_StatusCode resp = 101 \<and> upgrade \<noteq> [] \<and>
             hasToken (header_Get (rs_Header resp) ''Connection'') ''upgrade'')\<rparr>)"

definition unexpected_eof :: "io_error \<Rightarrow> io_error" where
  "unexpected_eof e = (if e = EOF then UnexpectedEOF else e)"

text \<open>The status line: protocol, status text and code.\<close>

definition parse_status_line :: "string \<Rightarrow> http_error + (string \<times> string \<times> int)" where
  "parse_status_line line =
     (case IndexByte line CHR '' '' of
        None \<Rightarrow> Inl (MalformedResponse line)
      | Some i \<Rightarrow>
          let proto = take i line; status = TrimLeft (drop (i + 1) line) '' '';
              statusCode = (case IndexByte status CHR '' '' of None \<Rightarrow> status | Some j \<Rightarrow> take j status)
          in if length statusCode \<noteq> 3 then Inl (MalformedStatus statusCode)
             else (case Atoi statusCode of
                     None \<Rightarrow> Inl (MalformedStatus statusCode)
                   | Some n \<Rightarrow> if n < 0 then Inl (MalformedStatus statusCode)
                               else Inr (proto, status, n)))"

definition ReadResponse :: "http_lib \<Rightarrow> stream \<Rightarrow> (http_error + response) \<times> stream" where
  "ReadResponse lib s =
     (case ReadLine s of
        (Inl e, s1) \<Rightarrow> (Inl (StreamError (unexpected_eof e)), s1)
      | (Inr line, s1) \<Rightarrow>
          (case parse_status_line line of
             Inl e \<Rightarrow> (Inl e, s1)
           | Inr (proto, status, code) \<Rightarrow>
               (case ParseHTTPVersion proto of
                  None \<Rightarrow> (Inl (MalformedVersion proto), s1)
                | Some (major, minor) \<Rightarrow>
                    (case ReadMIMEHeader s1 of
                       (Inl e, s2) \<Rightarrow> (Inl (StreamError (unexpected_eof e)), s2)
                     | (Inr h, s2) \<Rightarrow>
                         let r0 = \<lparr>rs_Status = status, rs_StatusCode = code, rs_Proto = proto,
                               rs_ProtoMajor = major, rs_ProtoMinor = minor,
                               rs_Header = fixPragmaCacheControl h, rs_ContentLength = 0,
                               rs_TransferEncoding = [], Chunked = False, rs_Close = False,
                               Upgraded = False, UpgradeType = []\<rparr>;
                             r1 = fillRespTransferEncoding (fillRespContentLength r0);
                             r2 = r1\<lparr>rs_Close := shouldClose lib major minor (rs_Header r1)\<rparr>
                         in (Inr (fillRespUpgrade (parseTransferEncoding r2)), s2)))))"

definition FormatStatusLine :: "response \<Rightarrow> string" where
  "FormatStatusLine resp = rs_Proto resp @ '' '' @ rs_Status resp"

section \<open>Headers behave like maps\<close>

lemma header_Get_Set: "header_Get (header_Set h k v) k' =
    (if CanonicalHeaderKey k' = CanonicalHeaderKey k then v else header_Get h k')"
  by (simp add: header_Get_def header_Set_def header_get_def map_of_header_put)

section \<open>Request lines pass unchanged\<close>

lemma IndexByte_split: "IndexByte s c = Some i \<Longrightarrow> s = take i s @ c # drop (i + 1) s"
  using IndexByte_SomeD [of s c i] by (metis Suc_eq_plus1 id_take_nth_drop)

lemma parseRequestLine_join:
  "parseRequestLine line = Some (m, u, p) \<Longrightarrow> line = m @ '' '' @ u @ '' '' @ p"
proof -
  assume "parseRequestLine line = Some (m, u, p)"
  then obtain i j where i: "IndexByte line CHR '' '' = Some i"
    and j: "IndexByte (drop (i + 1) line) CHR '' '' = Some j"
    and parts: "m = take i line" "u = take j (drop (i + 1) line)" "p = drop (j + i + 1 + 1) line"
    by (auto simp: parseRequestLine_def split: option.splits)
  have "line = m @ CHR '' '' # drop (i + 1) line"
    using IndexByte_split [OF i] by (simp add: parts)
  also have "drop (i + 1) line = u @ CHR '' '' # drop (j + 1) (drop (i + 1) line)"
    using IndexByte_split [OF j] unfolding parts .
  also have "drop (j + 1) (drop (i + 1) line) = p" by (simp add: parts add.commute)
  finally show ?thesis by simp
qed

lemma parseRequestLine_format:
  assumes "CHR '' '' \<notin> set m" "CHR '' '' \<notin> set u"
  shows "parseRequestLine (m @ '' '' @ u @ '' '' @ p) = Some (m, u, p)"
proof -
  have "IndexByte (m @ CHR '' '' # (u @ CHR '' '' # p)) CHR '' '' = Some (length m)"
    "IndexByte (u @ CHR '' '' # p) CHR '' '' = Some (length u)"
    using assms IndexByte_append by blast+
  then show ?thesis by (simp add: parseRequestLine_def)
qed

lemma fill_keeps [simp]:
  "Method (fillPort r) = Method r" "RequestURI (fillPort r) = RequestURI r" "Proto (fillPort r) = Proto r"
  "Method (fillTransferEncoding r) = Method r" "RequestURI (fillTransferEncoding r) = RequestURI r"
  "Proto (fillTransferEncoding r) = Proto r"
  "Method (fillAuthority r) = Method r" "RequestURI (fillAuthority r) = RequestURI r"
  "Proto (fillAuthority r) = Proto r"
  "Method (fillContentLength r) = Method r" "RequestURI (fillContentLength r) = RequestURI r"
  "Proto (fillContentLength r) = Proto r"
  by (simp_all add: fillPort_def fillTransferEncoding_def fillAuthority_def fillContentLength_def)

lemma ReadRequest_line:
  assumes "ReadRequest lib s = (Inr r, s')"
  shows "\<exists>line. fst (ReadLine s) = Inr line \<and> parseRequestLine line = Some (Method r, RequestURI r, Proto r)"
  using assms
  by (auto simp: ReadRequest_def Let_def split: prod.splits sum.splits option.splits if_splits)

text \<open>
  C20. The request line is forwarded as it came: when a request is read, the line that
  the proxy writes upstream is, byte for byte, the line it read from the client; and
  every line made of a method, a target and a version without spaces in the first two
  is taken apart into these three.
\<close>

theorem request_line_transparent:
  assumes "ReadRequest lib s = (Inr r, s')"
    and "CHR '' '' \<notin> set m" and "CHR '' '' \<notin> set u"
  shows "fst (ReadLine s) = Inr (FormatRequestLine r) \<and>
    parseRequestLine (m @ '' '' @ u @ '' '' @ p) = Some (m, u, p)"
  using ReadRequest_line [OF assms(1)] parseRequestLine_join parseRequestLine_format [OF assms(2,3)]
  by (auto simp: FormatRequestLine_def)

definition demo_lib :: http_lib where
  "demo_lib = \<lparr>is_token_rune = (\<lambda>_. True), ContainsToken = (\<lambda>_ _. False),
     ParseRequestURI = (\<lambda>_. Inr \<lparr>u_Scheme = [], u_Host = [], u_Port = [], u_Query = (\<lambda>_. [])\<rparr>)\<rparr>"

definition demo_stream :: stream where
  "demo_stream = \<lparr>unread = ''GET / HTTP/1.1'' @ CRLF @ field_text (''Host'', ''a.example:81'') @ CRLF, at_end = EOF\<rparr>"

lemma demo_request: "\<exists>r s'. ReadRequest demo_lib demo_stream = (Inr r, s')"
proof -
  let ?fields = "[(''Host'', ''a.example:81'')]"
  have "LF \<notin> set ''GET / HTTP/1.1''" by (simp add: LF_def char_of_def bit_0)
  then have "ReadLine demo_stream = (Inr ''GET / HTTP/1.1'',
      \<lparr>unread = concat (map field_text ?fields) @ CRLF, at_end = EOF\<rparr>)"
    using ReadLine_CRLF [of demo_stream "''GET / HTTP/1.1''"] by (simp add: demo_stream_def)
  moreover have "list_all plain_field ?fields" by code_simp
  then have "ReadMIMEHeader \<lparr>unread = concat (map field_text ?fields) @ CRLF, at_end = EOF\<rparr> =
      (Inr [(''Host'', [''a.example:81''])], \<lparr>unread = [], at_end = EOF\<rparr>)"
    using ReadMIMEHeader_fields [of ?fields "\<lparr>unread = concat (map field_text ?fields) @ CRLF, at_end = EOF\<rparr>" "[]"]
    by simp
  ultimately show ?thesis
    by (simp add: ReadRequest_def demo_lib_def parseRequestLine_def validMethod_def ParseHTTPVersion_def str_eval Let_def)
qed

theorem request_line_transparent_witness:
  "\<exists>r s'. ReadRequest demo_lib demo_stream = (Inr r, s') \<and>
     fst (ReadLine demo_stream) = Inr (FormatRequestLine r)"
proof -
  obtain r s' where r: "ReadRequest demo_lib demo_stream = (Inr r, s')" using demo_request by blast
  have "CHR '' '' \<notin> set ''GET''" "CHR '' '' \<notin> set ''/''" by simp_all
  from request_line_transparent [OF r this] r show ?thesis by blast
qed

section \<open>Tokens\<close>

lemma ascii_EqualFold_iff: "ascii_EqualFold s t \<longleftrightarrow> ToLower s = ToLower t"
  by (auto simp: ascii_EqualFold_def ToLower_def list_all2_conv_all_nth list_eq_iff_nth_eq)

lemma or_32: "65 \<le> n \<Longrightarrow> n \<le> 90 \<Longrightarrow> or n 32 = n + (32 :: nat)" for n
proof -
  assume "65 \<le> n" "n \<le> 90"
  then have "n \<in> set [65..<91]" by (simp only: set_upt atLeastLessThan_iff) simp
  moreover have "list_all (\<lambda>n :: nat. or n 32 = n + 32) [65..<91]"
    by code_simp
  ultimately show ?thesis unfolding list_all_iff by blast
qed

lemma first_byte_check:
  assumes "lower a = t" shows "a = t \<or> or_0x20 a = t"
  using assms by (auto simp: lower_def or_0x20_def or_32 split: if_splits)

lemma token_at_iff:
  assumes "token \<noteq> []" "ToLower token = token" "sp + length token \<le> length v"
  shows "token_at v token sp \<longleftrightarrow>
    ToLower (take (length token) (drop sp v)) = token \<and>
    (sp = 0 \<or> isTokenBoundary (v ! (sp - 1))) \<and>
    (sp + length token = length v \<or> isTokenBoundary (v ! (sp + length token)))"
proof -
  have "v ! sp = token ! 0 \<or> or_0x20 (v ! sp) = token ! 0"
    if "ToLower (take (length token) (drop sp v)) = token"
  proof -
    obtain t ts where t: "token = t # ts" using assms(1) by (cases token) auto
    obtain a as where a: "drop sp v = a # as"
      using assms(3) t by (cases "drop sp v") auto
    then have "v ! sp = a" by (metis hd_drop_conv_nth list.sel(1) drop_eq_Nil list.distinct(1) not_less)
    moreover have "lower a = t" using that t a by simp
    ultimately show ?thesis using first_byte_check [of a t] t by auto
  qed
  then show ?thesis
    using assms(2) by (auto simp: token_at_def ascii_EqualFold_iff)
qed


text \<open>
  Token search: for a lower-case token, \<open>hasToken\<close> finds it exactly when the value
  contains it as a whole word, in any letter case, between spaces, tabs, commas and the
  ends of the value. No index of the loop is out of range.
\<close>

theorem hasToken_iff:
  assumes "token \<noteq> []" and "ToLower token = token"
  shows "hasToken v token \<longleftrightarrow>
    (\<exists>pre word post. v = pre @ word @ post \<and> ToLower word = token \<and>
       (pre = [] \<or> isTokenBoundary (last pre)) \<and> (post = [] \<or> isTokenBoundary (hd post)))"
    (is "_ \<longleftrightarrow> ?R")
proof -
  have at: "(\<exists>sp. sp + length token \<le> length v \<and> token_at v token sp) \<longleftrightarrow> ?R"
  proof
    assume "\<exists>sp. sp + length token \<le> length v \<and> token_at v token sp"
    then obtain sp where sp: "sp + length token \<le> length v" "token_at v token sp" by blast
    note tk = sp(2) [unfolded token_at_iff [OF assms sp(1)]]
    let ?pre = "take sp v" and ?word = "take (length token) (drop sp v)"
    let ?post = "drop (sp + length token) v"
    have "v = ?pre @ ?word @ ?post"
      by (metis append_take_drop_id drop_drop add.commute)
    moreover have "?pre = [] \<or> isTokenBoundary (last ?pre)"
    proof (cases "?pre = []")
      case False
      then have "last ?pre = v ! (sp - 1)" "sp \<noteq> 0" using sp(1) by (auto simp: last_conv_nth)
      then show ?thesis using tk by simp
    qed simp
    moreover have "?post = [] \<or> isTokenBoundary (hd ?post)"
      using tk sp(1) by (cases "sp + length token = length v") (auto simp: hd_drop_conv_nth)
    ultimately show ?R using tk by blast
  next
    assume ?R
    then obtain pre word post where v: "v = pre @ word @ post" "ToLower word = token"
      "pre = [] \<or> isTokenBoundary (last pre)" "post = [] \<or> isTokenBoundary (hd post)" by blast
    have len: "length token = length word" using v(2) by (metis ToLower_simps(4))
    have le: "length pre + length token \<le> length v" by (simp add: v(1) len)
    have "pre = [] \<or> isTokenBoundary (v ! (length pre - 1))"
      using v(3) by (cases pre rule: rev_cases) (auto simp: v(1) nth_append)
    moreover have "post = [] \<or> isTokenBoundary (v ! (length pre + length token))"
      using v(4) by (cases post) (auto simp: v(1) len nth_append)
    ultimately have "token_at v token (length pre)"
      unfolding token_at_iff [OF assms le] using v(2) by (auto simp: v(1) len)
    with le show "\<exists>sp. sp + length token \<le> length v \<and> token_at v token sp" by blast
  qed
  show ?thesis
  proof (cases "length v < length token")
    case True
    then have "\<not> (\<exists>sp. sp + length token \<le> length v \<and> token_at v token sp)" by auto
    then have "\<not> ?R" by (simp only: at simp_thms)
    moreover have "\<not> hasToken v token" using True by (simp add: hasToken_def)
    ultimately show ?thesis by (simp only: simp_thms)
  next
    case False
    then have range: "sp \<in> set [0..<length v - length token + 1] \<longleftrightarrow> sp + length token \<le> length v" for sp
      by auto
    have "v = token \<Longrightarrow> ?R" using assms(2) by (intro exI [of _ "[]"] exI [of _ v]) simp
    moreover have "hasToken v token \<longleftrightarrow>
        v = token \<or> (\<exists>sp. sp + length token \<le> length v \<and> token_at v token sp)"
      unfolding hasToken_def list_ex_iff Bex_def range using False assms(1) by simp
    ultimately show ?thesis unfolding at by blast
  qed
qed

theorem hasToken_iff_witness:
  "hasToken ''keep-alive, Upgrade'' ''upgrade'' \<and> \<not> hasToken ''no-upgrade'' ''upgrade''"
proof -
  have tok: "''upgrade'' \<noteq> []" "ToLower ''upgrade'' = ''upgrade''" by (simp_all add: ToLower_def lower_def)
  have "hasToken ''keep-alive, Upgrade'' ''upgrade''"
    unfolding hasToken_iff [OF tok]
    by (rule exI [of _ "''keep-alive, ''"], rule exI [of _ "''Upgrade''"], rule exI [of _ "[]"])
      (simp add: isTokenBoundary_def str_eval)
  moreover have "\<not> hasToken ''no-upgrade'' ''upgrade''" by code_simp
  ultimately show ?thesis by blast
qed

end
