(* ===== verification/Http_Relay.thy ===== *)
theory Http_Relay
  imports Http_Message
begin

text \<open>
  Relaying message bodies, from \<open>cmd/proxy/http.go\<close>: bodies of known length, chunked
  bodies, and bodies that end with the connection. The source is a stream, the
  destination a sink that may refuse bytes after some point. When a write fails the
  model has consumed what it tried to write; how much of it was read before is not
  determined by the source text.
\<close>

section \<open>Sinks\<close>

datatype relay_error = RelayRead io_error | RelayWrite | BadChunkSize string

record sink =
  written :: string
  capacity :: "nat option"

definition sink_write :: "sink \<Rightarrow> string \<Rightarrow> sink \<times> relay_error option" where
  "sink_write w s =
     (case capacity w of
        None \<Rightarrow> (w\<lparr>written := written w @ s\<rparr>, None)
      | Some n \<Rightarrow>
          if length s \<le> n
          then (w\<lparr>written := written w @ s, capacity := Some (n - length s)\<rparr>, None)
          else (w\<lparr>written := written w @ take n s, capacity := Some 0\<rparr>, Some RelayWrite))"

type_synonym relay_result = "relay_error option \<times> stream \<times> sink"

section \<open>Copying\<close>

text \<open>\<open>io.CopyN\<close>: a count that is not positive copies nothing and is no error.\<close>

definition CopyN :: "int \<Rightarrow> stream \<Rightarrow> sink \<Rightarrow> relay_result" where
  "CopyN n s w =
     (if n \<le> 0 then (None, s, w)
      else
        let chunk = take (nat n) (unread s); s' = s\<lparr>unread := drop (nat n) (unread s)\<rparr> in
        (case sink_write w chunk of
           (w', Some e) \<Rightarrow> (Some e, s', w')
         | (w', None) \<Rightarrow>
             (if int (length (unread s)) < n then Some (RelayRead (at_end s)) else None, s', w')))"

definition copyFixedLength :: "int \<Rightarrow> stream \<Rightarrow> sink \<Rightarrow> relay_result" where
  "copyFixedLength remaining s w =
     (if remaining = 0 then (None, s, w)
      else (case CopyN remaining s w of
              (Some (RelayRead EOF), s', w') \<Rightarrow> (Some (RelayRead UnexpectedEOF), s', w')
            | r \<Rightarrow> r))"

text \<open>\<open>io.Copy\<close> to the end: an end of file is not an error.\<close>

definition io_Copy :: "stream \<Rightarrow> sink \<Rightarrow> relay_result" where
  "io_Copy s w =
     (case sink_write w (unread s) of
        (w', Some e) \<Rightarrow> (Some e, s\<lparr>unread := []\<rparr>, w')
      | (w', None) \<Rightarrow>
          (if at_end s = EOF then None else Some (RelayRead (at_end s)), s\<lparr>unread := []\<rparr>, w'))"

section \<open>Chunked bodies\<close>

definition readChunkLine :: "stream \<Rightarrow> (io_error + string) \<times> stream" where
  "readChunkLine s =
     (case IndexByte (unread s) LF of
        Some i \<Rightarrow> (Inr (take (i + 1) (unread s)), s\<lparr>unread := drop (i + 1) (unread s)\<rparr>)
      | None \<Rightarrow> (Inl (at_end s), s\<lparr>unread := []\<rparr>))"

definition parseChunkSize :: "string \<Rightarrow> int option" where
  "parseChunkSize line =
     (let sizeText = TrimSpace line in
      case IndexByte sizeText CHR '';'' of
        Some idx \<Rightarrow> ParseHex64 (take idx sizeText)
      | None \<Rightarrow> ParseHex64 sizeText)"

lemma readChunkLine_shrinks:
  "readChunkLine s = (Inr line, s') \<Longrightarrow>
   unread s = line @ unread s' \<and> line \<noteq> [] \<and> at_end s' = at_end s \<and>
   length (unread s') < length (unread s)"
  by (auto simp: readChunkLine_def split: option.splits dest!: IndexByte_SomeD)

lemma CopyN_shrinks: "length (unread (fst (snd (CopyN n s w)))) \<le> length (unread s)"
  by (auto simp: CopyN_def Let_def split: prod.split option.split)

lemma copyFixedLength_shrinks: "length (unread (fst (snd (copyFixedLength n s w)))) \<le> length (unread s)"
  using CopyN_shrinks [of n s w]
  by (auto simp: copyFixedLength_def split: prod.splits option.split relay_error.split io_error.split)

lemma loop_shrinks:
  "(Inr line, s') = readChunkLine s \<Longrightarrow> length (unread s') < length (unread s)"
  "(e, s2, w2) = copyFixedLength n s w \<Longrightarrow> length (unread s2) \<le> length (unread s)"
  "(e, s2, w2) = CopyN n s w \<Longrightarrow> length (unread s2) \<le> length (unread s)"
  using readChunkLine_shrinks [of s line s'] copyFixedLength_shrinks [of n s w] CopyN_shrinks [of n s w]
  by (metis fst_conv snd_conv)+

text \<open>The inner loop after the last chunk: trailer lines up to the empty line.\<close>

function trailer_loop :: "stream \<Rightarrow> sink \<Rightarrow> relay_result" where
  "trailer_loop s w =
     (case readChunkLine s of
        (Inl e, s1) \<Rightarrow> (Some (RelayRead e), s1, w)
      | (Inr line, s1) \<Rightarrow>
          (case sink_write w line of
             (w1, Some e) \<Rightarrow> (Some e, s1, w1)
           | (w1, None) \<Rightarrow> if line = CRLF then (None, s1, w1) else trailer_loop s1 w1))"
  by pat_completeness auto
termination
  by (relation "measure (\<lambda>(s, w). length (unread s))") (auto dest!: loop_shrinks)

function proxyChunkedBody :: "stream \<Rightarrow> sink \<Rightarrow> relay_result" where
  "proxyChunkedBody s w =
     (case readChunkLine s of
        (Inl e, s1) \<Rightarrow> (Some (RelayRead e), s1, w)
      | (Inr line, s1) \<Rightarrow>
          (case sink_write w line of
             (w1, Some e) \<Rightarrow> (Some e, s1, w1)
           | (w1, None) \<Rightarrow>
               (case parseChunkSize line of
                  None \<Rightarrow> (Some (BadChunkSize line), s1, w1)
                | Some n \<Rightarrow>
                    if n = 0 then trailer_loop s1 w1
                    else (case copyFixedLength n s1 w1 of
                            (Some e, s2, w2) \<Rightarrow> (Some e, s2, w2)
                          | (None, s2, w2) \<Rightarrow>
                              (case CopyN 2 s2 w2 of
                                 (Some e, s3, w3) \<Rightarrow> (Some e, s3, w3)
                               | (None, s3, w3) \<Rightarrow> proxyChunkedBody s3 w3)))))"
  by pat_completeness auto
termination
  by (relation "measure (\<lambda>(s, w). length (unread s))") (auto dest!: loop_shrinks)

declare trailer_loop.simps [simp del] proxyChunkedBody.simps [simp del]

section \<open>Bodies of requests and responses\<close>

definition responseHasNoBody :: "request \<Rightarrow> response \<Rightarrow> bool" where
  "responseHasNoBody req resp \<longleftrightarrow>
     Method req = ''HEAD'' \<or> (100 \<le> rs_StatusCode resp \<and> rs_StatusCode resp < 200) \<or>
     rs_StatusCode resp = 204 \<or> rs_StatusCode resp = 304"

definition proxyHTTPBody :: "request \<Rightarrow> response \<Rightarrow> stream \<Rightarrow> sink \<Rightarrow> relay_result" where
  "proxyHTTPBody req resp s w =
     (if responseHasNoBody req resp then (None, s, w)
      else if Chunked resp then proxyChunkedBody s w
      else if 0 \<le> rs_ContentLength resp then copyFixedLength (rs_ContentLength resp) s w
      else if rs_Close resp then io_Copy s w
      else (None, s, w))"

definition requestIsChunked :: "request \<Rightarrow> bool" where
  "requestIsChunked req \<longleftrightarrow>
     list_ex (\<lambda>v. EqualFold (TrimSpace v) ''chunked'') (TransferEncoding req) \<or>
     list_ex (\<lambda>v. EqualFold (TrimSpace v) ''chunked'')
       (split_on CHR '','' (header_Get (Header req) ''Transfer-Encoding''))"

definition header_lines :: "header \<Rightarrow> string" where
  "header_lines h = concat (map (\<lambda>(k, vs). concat (map (\<lambda>v. k @ '': '' @ v @ CRLF) vs)) h)"

definition requestHeaderText :: "request \<Rightarrow> string" where
  "requestHeaderText req = FormatRequestLine req @ CRLF @ header_lines (Header req) @ CRLF"

text \<open>\<open>writeHTTPRequest\<close>: the head, then the body as the request frames it.\<close>

definition writeHTTPRequest :: "request \<Rightarrow> stream \<Rightarrow> sink \<Rightarrow> relay_result" where
  "writeHTTPRequest req s w =
     (case sink_write w (requestHeaderText req) of
        (w1, Some e) \<Rightarrow> (Some e, s, w1)
      | (w1, None) \<Rightarrow>
          if requestIsChunked req then proxyChunkedBody s w1
          else if 0 < ContentLength req then copyFixedLength (ContentLength req) s w1
          else (None, s, w1))"

definition responseHeaderText :: "response \<Rightarrow> string \<Rightarrow> string" where
  "responseHeaderText resp serverName =
     (let headers = header_Clone (rs_Header resp);
          h = (if serverName \<noteq> [] then header_Add headers ''Server'' serverName else headers)
      in FormatStatusLine resp @ CRLF @ header_lines h @ CRLF)"

definition writeHTTPResponse :: "response \<Rightarrow> string \<Rightarrow> sink \<Rightarrow> sink \<times> relay_error option" where
  "writeHTTPResponse resp serverName w = sink_write w (responseHeaderText resp serverName)"

definition writeConnectEstablished :: "string \<Rightarrow> sink \<Rightarrow> sink \<times> relay_error option" where
  "writeConnectEstablished serverName w =
     sink_write w (''HTTP/1.1 200 Connection Established'' @ CRLF @
       (if serverName \<noteq> [] then ''Server: '' @ serverName @ CRLF else []) @ CRLF)"

section \<open>Transparency\<close>

text \<open>
  \<open>forwards s w r\<close>: the result \<open>r\<close> of relaying from \<open>s\<close> to \<open>w\<close> took a prefix of the source
  and wrote it unchanged, except for bytes that were read in vain before a read error.
\<close>

definition forwards :: "stream \<Rightarrow> sink \<Rightarrow> relay_result \<Rightarrow> bool" where
  "forwards s w = (\<lambda>(e, s', w').
     capacity w' = None \<and> at_end s' = at_end s \<and>
     (\<exists>fwd lost. written w' = written w @ fwd \<and> unread s = fwd @ lost @ unread s' \<and>
        (e = None \<longrightarrow> lost = [])))"

lemma forwards_refl: "capacity w = None \<Longrightarrow> forwards s w (e, s, w)"
  by (simp add: forwards_def)

lemma forwards_trans:
  assumes "forwards s w (None, s1, w1)" "forwards s1 w1 (e, s2, w2)"
  shows "forwards s w (e, s2, w2)"
proof -
  obtain f1 where 1: "written w1 = written w @ f1" "unread s = f1 @ unread s1" "at_end s1 = at_end s"
    using assms(1) by (auto simp: forwards_def)
  obtain f2 lost where 2: "written w2 = written w1 @ f2" "unread s1 = f2 @ lost @ unread s2"
    "e = None \<longrightarrow> lost = []" "at_end s2 = at_end s1" "capacity w2 = None"
    using assms(2) by (auto simp: forwards_def)
  with 1 show ?thesis
    unfolding forwards_def by (auto intro!: exI [of _ "f1 @ f2"] exI [of _ lost])
qed

lemma CopyN_forwards: "capacity w = None \<Longrightarrow> forwards s w (CopyN n s w)"
  by (auto simp: forwards_def CopyN_def sink_write_def Let_def)

lemma copyFixedLength_forwards:
  assumes "capacity w = None" shows "forwards s w (copyFixedLength n s w)"
proof -
  have "forwards s w (CopyN n s w)" by (rule CopyN_forwards [OF assms])
  then have "forwards s w (Some e, snd (CopyN n s w))" for e
    by (cases "CopyN n s w") (auto simp: forwards_def)
  with CopyN_forwards [OF assms, of s n] forwards_refl [OF assms] show ?thesis
    by (auto simp: copyFixedLength_def split: prod.splits option.split relay_error.split io_error.split)
qed

lemma line_forwards:
  assumes "readChunkLine s = (Inr line, s1)" "sink_write w line = (w1, e)" "capacity w = None"
  shows "e = None" "forwards s w (e', s1, w1)" "capacity w1 = None"
  using assms readChunkLine_shrinks [OF assms(1)] by (auto simp: sink_write_def forwards_def)

lemma line_error_forwards:
  assumes "readChunkLine s = (Inl e, s1)" "capacity w = None"
  shows "forwards s w (Some err, s1, w)"
  using assms by (auto simp: readChunkLine_def forwards_def split: option.splits)

lemma trailer_loop_forwards: "capacity w = None \<Longrightarrow> forwards s w (trailer_loop s w)"
proof (induction s w rule: trailer_loop.induct)
  case (1 s w)
  obtain r s1 where r: "readChunkLine s = (r, s1)" by fastforce
  show ?case
  proof (cases r)
    case (Inl e)
    then show ?thesis
      using line_error_forwards [of s e s1 w] r 1(2) by (subst trailer_loop.simps) simp
  next
    case (Inr line)
    obtain w1 e where w: "sink_write w line = (w1, e)" by fastforce
    note step = line_forwards [OF r [unfolded Inr] w 1(2)]
    have "forwards s w (trailer_loop s1 w1)" if "line \<noteq> CRLF"
      using 1(1) [OF r [symmetric] Inr w [symmetric] step(1) that step(3)] step(2)
      by (metis forwards_trans prod_cases3)
    with r Inr w step show ?thesis by (subst trailer_loop.simps) simp
  qed
qed

lemma proxyChunkedBody_forwards: "capacity w = None \<Longrightarrow> forwards s w (proxyChunkedBody s w)"
proof (induction s w rule: proxyChunkedBody.induct)
  case (1 s w)
  obtain r s1 where r: "readChunkLine s = (r, s1)" by fastforce
  show ?case
  proof (cases r)
    case (Inl e)
    then show ?thesis
      using line_error_forwards [of s e s1 w] r 1(2) by (subst proxyChunkedBody.simps) simp
  next
    case (Inr line)
    obtain w1 e where w: "sink_write w line = (w1, e)" by fastforce
    note step = line_forwards [OF r [unfolded Inr] w 1(2)]
    show ?thesis
    proof (cases "parseChunkSize line")
      case None
      with r Inr w step show ?thesis by (subst proxyChunkedBody.simps) simp
    next
      case (Some n)
      obtain e2 s2 w2 where c: "copyFixedLength n s1 w1 = (e2, s2, w2)" by (metis prod_cases3)
      have f2: "forwards s w (e2, s2, w2)"
        using forwards_trans [OF step(2)] copyFixedLength_forwards [OF step(3), of s1 n] c by metis
      obtain e3 s3 w3 where d: "CopyN 2 s2 w2 = (e3, s3, w3)" by (metis prod_cases3)
      have cap2: "capacity w2 = None" using f2 by (simp add: forwards_def)
      have f3: "forwards s w (e3, s3, w3)" if "e2 = None"
        using forwards_trans [OF f2 [unfolded that]] CopyN_forwards [OF cap2, of s2 2] d by metis
      have f4: "forwards s w (proxyChunkedBody s3 w3)" if "e2 = None" "e3 = None" "n \<noteq> 0"
      proof -
        have "capacity w3 = None" using f3 [OF that(1)] by (simp add: forwards_def)
        then have "forwards s3 w3 (proxyChunkedBody s3 w3)"
          using 1(1) r Inr w step(1) Some that c d by metis
        then show ?thesis using forwards_trans f3 [OF that(1)] that(2) by (metis prod_cases3)
      qed
      have t: "forwards s w (trailer_loop s1 w1)"
        using forwards_trans [OF step(2)] trailer_loop_forwards [OF step(3), of s1] by (metis prod_cases3)
      show ?thesis
        by (subst proxyChunkedBody.simps)
          (use r Inr w step(1) Some c d f2 f3 f4 t in \<open>auto split: option.split\<close>)
    qed
  qed
qed

section \<open>Exactness\<close>

text \<open>
  A chunked body: chunks with their size lines, the line of the last chunk, trailer
  lines. A line ends with its only line feed.
\<close>

definition is_line :: "string \<Rightarrow> bool" where
  "is_line l \<longleftrightarrow> (\<exists>t. l = t @ [LF] \<and> LF \<notin> set t)"

definition chunk_ok :: "string \<times> string \<Rightarrow> bool" where
  "chunk_ok c \<longleftrightarrow> is_line (fst c) \<and> snd c \<noteq> [] \<and> parseChunkSize (fst c) = Some (int (length (snd c)))"

definition chunk_text :: "string \<times> string \<Rightarrow> string" where
  "chunk_text c = fst c @ snd c @ CRLF"

definition body_text :: "(string \<times> string) list \<Rightarrow> string \<Rightarrow> string list \<Rightarrow> string" where
  "body_text chunks last_line trailers = concat (map chunk_text chunks) @ last_line @ concat trailers @ CRLF"

lemma readChunkLine_line:
  assumes "is_line l" "unread s = l @ rest"
  shows "readChunkLine s = (Inr l, s\<lparr>unread := rest\<rparr>)"
proof -
  obtain t where t: "l = t @ [LF]" "LF \<notin> set t" using assms(1) by (auto simp: is_line_def)
  have "IndexByte (t @ LF # rest) LF = Some (length t)" by (rule IndexByte_append [OF t(2)])
  with t(1) assms(2) show ?thesis by (simp add: readChunkLine_def)
qed

lemma is_line_CRLF: "is_line CRLF"
  by (auto simp: is_line_def CRLF_def CR_def LF_def)

lemma sink_write_open: "capacity w = None \<Longrightarrow> sink_write w s = (w\<lparr>written := written w @ s\<rparr>, None)"
  by (simp add: sink_write_def)

lemma trailer_loop_exact:
  assumes "capacity w = None" "list_all (\<lambda>t. is_line t \<and> t \<noteq> CRLF) trailers"
    and "unread s = concat trailers @ CRLF @ rest"
  shows "trailer_loop s w =
    (None, s\<lparr>unread := rest\<rparr>, w\<lparr>written := written w @ concat trailers @ CRLF\<rparr>)"
  using assms
proof (induction trailers arbitrary: s w)
  case Nil
  then have "readChunkLine s = (Inr CRLF, s\<lparr>unread := rest\<rparr>)"
    using readChunkLine_line [OF is_line_CRLF] by simp
  with Nil show ?case by (subst trailer_loop.simps) (simp add: sink_write_open)
next
  case (Cons t ts)
  then have r: "readChunkLine s = (Inr t, s\<lparr>unread := concat ts @ CRLF @ rest\<rparr>)"
    using readChunkLine_line [of t s] by simp
  have "trailer_loop (s\<lparr>unread := concat ts @ CRLF @ rest\<rparr>) (w\<lparr>written := written w @ t\<rparr>) =
      (None, s\<lparr>unread := rest\<rparr>, w\<lparr>written := written w @ t @ concat ts @ CRLF\<rparr>)"
    using Cons.IH [of "w\<lparr>written := written w @ t\<rparr>" "s\<lparr>unread := concat ts @ CRLF @ rest\<rparr>"] Cons.prems
    by simp
  with r Cons.prems show ?case by (subst trailer_loop.simps) (simp add: sink_write_open)
qed

lemma CopyN_exact:
  assumes "capacity w = None" "unread s = d @ rest" "n = int (length d)"
  shows "CopyN n s w = (None, s\<lparr>unread := rest\<rparr>, w\<lparr>written := written w @ d\<rparr>)"
  using assms by (simp add: CopyN_def sink_write_open Let_def)

lemma chunk_exact:
  assumes "capacity w = None" "chunk_ok c" "unread s = chunk_text c @ rest"
  shows "proxyChunkedBody s w =
    proxyChunkedBody (s\<lparr>unread := rest\<rparr>) (w\<lparr>written := written w @ chunk_text c\<rparr>)"
proof -
  obtain l d where c: "c = (l, d)" by (cases c)
  let ?s1 = "s\<lparr>unread := d @ CRLF @ rest\<rparr>" and ?w1 = "w\<lparr>written := written w @ l\<rparr>"
  let ?s2 = "s\<lparr>unread := CRLF @ rest\<rparr>" and ?w2 = "w\<lparr>written := written w @ l @ d\<rparr>"
  have l: "is_line l" "d \<noteq> []" "parseChunkSize l = Some (int (length d))"
    using assms(2) by (simp_all add: chunk_ok_def c)
  have r: "readChunkLine s = (Inr l, ?s1)"
    using readChunkLine_line [OF l(1), of s "d @ CRLF @ rest"] assms(3) by (simp add: chunk_text_def c)
  have "CopyN (int (length d)) ?s1 ?w1 = (None, ?s2, ?w2)"
    using CopyN_exact [of ?w1 ?s1 d "CRLF @ rest"] assms(1) by simp
  then have cp: "copyFixedLength (int (length d)) ?s1 ?w1 = (None, ?s2, ?w2)"
    using l(2) by (simp add: copyFixedLength_def)
  have "CopyN 2 ?s2 ?w2 = (None, s\<lparr>unread := rest\<rparr>, w\<lparr>written := written w @ chunk_text c\<rparr>)"
    using CopyN_exact [of ?w2 ?s2 CRLF rest] assms(1) by (simp add: CRLF_def chunk_text_def c)
  with r cp l assms(1) show ?thesis
    by (subst proxyChunkedBody.simps) (simp add: sink_write_open)
qed

lemma proxyChunkedBody_exact:
  assumes "capacity w = None" "list_all chunk_ok chunks" "is_line last_line"
    and "parseChunkSize last_line = Some 0" "list_all (\<lambda>t. is_line t \<and> t \<noteq> CRLF) trailers"
    and "unread s = body_text chunks last_line trailers @ rest"
  shows "proxyChunkedBody s w =
    (None, s\<lparr>unread := rest\<rparr>, w\<lparr>written := written w @ body_text chunks last_line trailers\<rparr>)"
  using assms
proof (induction chunks arbitrary: s w)
  case Nil
  let ?rest = "concat trailers @ CRLF @ rest"
  have "readChunkLine s = (Inr last_line, s\<lparr>unread := ?rest\<rparr>)"
    using readChunkLine_line [OF Nil.prems(3), of s ?rest] Nil.prems(6) by (simp add: body_text_def)
  moreover have "trailer_loop (s\<lparr>unread := ?rest\<rparr>) (w\<lparr>written := written w @ last_line\<rparr>) =
      (None, s\<lparr>unread := rest\<rparr>, w\<lparr>written := written w @ last_line @ concat trailers @ CRLF\<rparr>)"
    using trailer_loop_exact [of "w\<lparr>written := written w @ last_line\<rparr>" trailers "s\<lparr>unread := ?rest\<rparr>" rest]
      Nil.prems by simp
  ultimately show ?case
    using Nil.prems by (subst proxyChunkedBody.simps) (simp add: sink_write_open body_text_def)
next
  case (Cons c cs)
  let ?rest = "body_text cs last_line trailers @ rest"
  have "unread s = chunk_text c @ ?rest" using Cons.prems(6) by (simp add: body_text_def)
  then have "proxyChunkedBody s w =
      proxyChunkedBody (s\<lparr>unread := ?rest\<rparr>) (w\<lparr>written := written w @ chunk_text c\<rparr>)"
    using chunk_exact [of w c s ?rest] Cons.prems(1,2) by simp
  also have "\<dots> = (None, s\<lparr>unread := rest\<rparr>, w\<lparr>written := written w @ chunk_text c @ body_text cs last_line trailers\<rparr>)"
    using Cons.IH [of "w\<lparr>written := written w @ chunk_text c\<rparr>" "s\<lparr>unread := ?rest\<rparr>"] Cons.prems by simp
  finally show ?case by (simp add: body_text_def)
qed

text \<open>
  C21. A chunked body is relayed exactly: any number of chunks, extensions and trailers
  are written on byte for byte, the relay stops at the end of this body, and the bytes
  of the next message stay unread.
\<close>

theorem chunked_relay_exact:
  assumes "capacity w = None" and "list_all chunk_ok chunks"
    and "is_line last_line" and "parseChunkSize last_line = Some 0"
    and "list_all (\<lambda>t. is_line t \<and> t \<noteq> CRLF) trailers"
    and "unread s = body_text chunks last_line trailers @ rest"
  shows "proxyChunkedBody s w =
    (None, s\<lparr>unread := rest\<rparr>, w\<lparr>written := written w @ body_text chunks last_line trailers\<rparr>)"
  using proxyChunkedBody_exact [OF assms] .

lemma sample_lines:
  "is_line (''5'' @ CRLF)" "is_line (''0'' @ CRLF)"
  "parseChunkSize (''5'' @ CRLF) = Some 5" "parseChunkSize (''0'' @ CRLF) = Some 0"
  by (auto simp: is_line_def CRLF_def CR_def LF_def parseChunkSize_def str_eval ParseHex64_def hex_digit_def)

theorem chunked_relay_exact_witness:
  "proxyChunkedBody \<lparr>unread = body_text [(''5'' @ CRLF, ''hello'')] (''0'' @ CRLF) [] @ ''GET'', at_end = EOF\<rparr>
     \<lparr>written = [], capacity = None\<rparr> =
   (None, \<lparr>unread = ''GET'', at_end = EOF\<rparr>,
    \<lparr>written = body_text [(''5'' @ CRLF, ''hello'')] (''0'' @ CRLF) [], capacity = None\<rparr>)"
  using chunked_relay_exact [of "\<lparr>written = [], capacity = None\<rparr>" "[(''5'' @ CRLF, ''hello'')]" "''0'' @ CRLF" "[]"
      "\<lparr>unread = body_text [(''5'' @ CRLF, ''hello'')] (''0'' @ CRLF) [] @ ''GET'', at_end = EOF\<rparr>" "''GET''"]
    sample_lines by (simp add: chunk_ok_def)

lemma io_Copy_forwards: "capacity w = None \<Longrightarrow> forwards s w (io_Copy s w)"
  by (auto simp: io_Copy_def forwards_def sink_write_open)


definition close_response :: response where
  "close_response = \<lparr>rs_Status = ''200 OK'', rs_StatusCode = 200, rs_Proto = ''HTTP/1.1'',
     rs_ProtoMajor = 1, rs_ProtoMinor = 1, rs_Header = [], rs_ContentLength = 3,
     rs_TransferEncoding = [], Chunked = False, rs_Close = True, Upgraded = False, UpgradeType = []\<rparr>"

definition get_request :: request where
  "get_request = \<lparr>Method = ''GET'', Proto = ''HTTP/1.1'', ProtoMajor = 1, ProtoMinor = 1,
     r_URL = \<lparr>u_Scheme = [], u_Host = [], u_Port = [], u_Query = (\<lambda>_. [])\<rparr>, r_Port = 80, Authority = [], Header = [],
     ContentLength = - 1, TransferEncoding = [], Host = [], RequestURI = ''/'', Close = False\<rparr>"


end
