(* ===== verification/Ttl_Cache.thy ===== *)
theory Ttl_Cache
  imports Prelude
begin

text \<open>
  The contract of a resolver that caches the answers of a remote service until they
  expire. Both \<open>pkg/credential\<close> and \<open>pkg/identity\<close> have one; the locale states what they
  share and proves, once, where an answer comes from.

  \<open>backend\<close> is what the remote service answers in an environment: an error, a value to
  keep until a time, or a value not to keep. \<open>clock\<close> is the time of the lookup.
\<close>

type_synonym ('k, 'v) ttl_store = "'k \<rightharpoonup> 'v \<times> int"

definition fresh_entry :: "int \<Rightarrow> ('v \<times> int) option \<Rightarrow> bool" where
  "fresh_entry t e \<longleftrightarrow> (\<exists>v x. e = Some (v, x) \<and> t < x)"

fun resolve_run ::
  "('env \<Rightarrow> 'req \<Rightarrow> ('k, 'v) ttl_store \<Rightarrow> ('e + 'v) \<times> ('k, 'v) ttl_store)
     \<Rightarrow> ('env \<times> 'req) list \<Rightarrow> ('k, 'v) ttl_store \<Rightarrow> ('k, 'v) ttl_store" where
  "resolve_run resolve [] c = c"
| "resolve_run resolve ((e, r) # rest) c = resolve_run resolve rest (snd (resolve e r c))"

locale ttl_cache =
  fixes resolve :: "'env \<Rightarrow> 'req \<Rightarrow> ('k, 'v) ttl_store \<Rightarrow> ('e + 'v) \<times> ('k, 'v) ttl_store"
    and key :: "'req \<Rightarrow> 'k"
    and clock :: "'env \<Rightarrow> int"
    and backend :: "'env \<Rightarrow> 'req \<Rightarrow> 'e + 'v \<times> int option"
  assumes hit: "c (key r) = Some (v, x) \<Longrightarrow> clock e < x \<Longrightarrow> resolve e r c = (Inr v, c)"
    and miss_error: "\<not> fresh_entry (clock e) (c (key r)) \<Longrightarrow> backend e r = Inl err \<Longrightarrow>
          resolve e r c = (Inl err, c(key r := None))"
    and miss_keep: "\<not> fresh_entry (clock e) (c (key r)) \<Longrightarrow> backend e r = Inr (v, Some x) \<Longrightarrow>
          resolve e r c = (Inr v, c(key r \<mapsto> (v, x)))"
    and miss_drop: "\<not> fresh_entry (clock e) (c (key r)) \<Longrightarrow> backend e r = Inr (v, None) \<Longrightarrow>
          resolve e r c = (Inr v, c(key r := None))"
begin

lemma resolve_cases:
  "(\<exists>v x. c (key r) = Some (v, x) \<and> clock e < x \<and> resolve e r c = (Inr v, c)) \<or>
   (\<not> fresh_entry (clock e) (c (key r)) \<and>
     ((\<exists>err. backend e r = Inl err \<and> resolve e r c = (Inl err, c(key r := None))) \<or>
      (\<exists>v x. backend e r = Inr (v, Some x) \<and> resolve e r c = (Inr v, c(key r \<mapsto> (v, x)))) \<or>
      (\<exists>v. backend e r = Inr (v, None) \<and> resolve e r c = (Inr v, c(key r := None)))))"
proof (cases "fresh_entry (clock e) (c (key r))")
  case True
  then show ?thesis using hit by (fastforce simp: fresh_entry_def)
next
  case False
  consider err where "backend e r = Inl err" | v x where "backend e r = Inr (v, Some x)"
    | v where "backend e r = Inr (v, None)"
    by (cases "backend e r") (metis old.prod.exhaust option.exhaust)+
  then show ?thesis
    using False miss_error [of e c r, OF False] miss_keep [of e c r, OF False]
      miss_drop [of e c r, OF False]
    by cases blast+
qed

lemma entry_step:
  "snd (resolve e r c) k = Some (v, x) \<Longrightarrow>
   c k = Some (v, x) \<or> (key r = k \<and> backend e r = Inr (v, Some x))"
  using resolve_cases [of c r e] by (auto split: if_splits)

text \<open>Every entry was once the service's answer to a request with its key.\<close>

lemma entry_origin:
  "resolve_run resolve es c k = Some (v, x) \<Longrightarrow>
   c k = Some (v, x) \<or> (\<exists>(e, r) \<in> set es. key r = k \<and> backend e r = Inr (v, Some x))"
proof (induction es arbitrary: c)
  case (Cons er es)
  obtain e r where er: "er = (e, r)" by (cases er)
  with Cons.IH [of "snd (resolve e r c)"] Cons.prems entry_step [of e r c k v x] show ?case
    by auto
qed simp

text \<open>An answer is current: the service gives it now, or gave it and it has not expired.\<close>

lemma answer_origin:
  assumes "fst (resolve e r (resolve_run resolve es Map.empty)) = Inr v"
  shows "(\<exists>t. backend e r = Inr (v, t)) \<or>
    (\<exists>(e', r') \<in> set es. \<exists>x. key r' = key r \<and> backend e' r' = Inr (v, Some x) \<and> clock e < x)"
proof -
  let ?c = "resolve_run resolve es Map.empty"
  consider x where "?c (key r) = Some (v, x)" "clock e < x" | "\<exists>t. backend e r = Inr (v, t)"
    using resolve_cases [of ?c r e] assms by fastforce
  then show ?thesis
    by cases (use entry_origin [of es Map.empty "key r" v] in fastforce)+
qed

lemma error_not_cached:
  "fst (resolve e r c) = Inl err \<Longrightarrow> backend e r = Inl err \<and> snd (resolve e r c) (key r) = None"
  using resolve_cases [of c r e] by auto

end

end
