(* ===== verification/Runtime_Config.thy ===== *)
theory Runtime_Config
  imports Config_Source
begin

text \<open>
  The manager of \<open>cmd/proxy/runtimeconfig/manager.go\<close> and its handlers: which hosts are
  intercepted (MITM) and where a user identity is read from. It has the shape of the
  policy manager with other options, and keeps the same contract, so the locale of
  \<open>Config_Source\<close> is interpreted here a second time.
\<close>

section \<open>Data\<close>

definition UserSourceOAuth2Token :: string where "UserSourceOAuth2Token = ''oauth2_token''"
definition UserSourceHeader :: string where "UserSourceHeader = ''trusted_header''"

record user_source =
  us_Type :: string
  us_Header :: string
  us_Prefix :: string
  us_Provider :: string

record rc_document =
  MITMHosts :: "string list"
  UserSources :: "user_source list"

record rc_options =
  rc_URL :: string
  rc_CacheFile :: string
  rc_RefreshInterval :: int
  rc_FetchTimeout :: int
  rc_AppName :: string
  rc_InstanceIP :: string
  rc_AgentID :: string

record compiled =
  c_doc :: rc_document
  exact :: "string set"
  wildcards :: "string list"

datatype rc_error =
    AgentIDRequired
  | RcFetchFailed fetch_error
  | RcDecodeFailed string
  | RcInstanceIPLookup string

record rc_manager =
  rc_opts :: rc_options
  cfg :: "compiled option"
  rc_source :: string
  rc_lastRefresh :: "int option"
  rc_lastError :: "rc_error option"
  rc_stopped :: bool

record rc_status =
  rs_Enabled :: bool
  rs_options :: rc_options
  rs_Source :: string
  rs_LastRefresh :: "int option"
  rs_LastError :: "rc_error option"
  rs_MITMHosts :: "string list"
  rs_UserSources :: nat

record 'u rc_env =
  rc_now :: int
  rc_http :: "'u http_env"
  rc_fsys :: fs_env
  udp_local_ip :: "string + string"

section \<open>Compiling a document\<close>

definition normalizeHost :: "string \<Rightarrow> string" where
  "normalizeHost value =
     (let host = TrimSpace value in
      if host = [] then []
      else
        let h1 = (case SplitHostPort host of Inr (parsed, _) \<Rightarrow> parsed | Inl _ \<Rightarrow> host);
            h2 = TrimSuffix (TrimPrefix h1 ''['') '']''
        in ToLower (TrimSuffix h2 ''.''))"

definition add_host :: "string \<Rightarrow> compiled \<Rightarrow> compiled" where
  "add_host raw c =
     (let host = normalizeHost raw in
      if host = [] then c
      else if HasPrefix host ''*.'' then c\<lparr>wildcards := wildcards c @ [TrimPrefix host ''*.'']\<rparr>
      else c\<lparr>exact := insert host (exact c)\<rparr>)"

definition compile_doc :: "rc_document \<Rightarrow> compiled" where
  "compile_doc doc = fold add_host (MITMHosts doc) \<lparr>c_doc = doc, exact = {}, wildcards = []\<rparr>"

definition rc_parse :: "(string \<Rightarrow> string + rc_document) \<Rightarrow> string \<Rightarrow> string + compiled" where
  "rc_parse unmarshal body =
     (case unmarshal body of Inl e \<Rightarrow> Inl e | Inr doc \<Rightarrow> Inr (compile_doc doc))"

section \<open>Operations\<close>

definition rc_default_options :: "rc_options \<Rightarrow> rc_options" where
  "rc_default_options opts =
     (let o1 = (if rc_FetchTimeout opts \<le> 0 then opts\<lparr>rc_FetchTimeout := 5000000000\<rparr> else opts)
      in if rc_CacheFile o1 = [] then o1\<lparr>rc_CacheFile := ''/tmp/lhotse-credential-runtime-cache.json''\<rparr>
         else o1)"

definition rc_NewManager :: "rc_options \<Rightarrow> rc_manager" where
  "rc_NewManager opts = \<lparr>rc_opts = rc_default_options opts, cfg = None, rc_source = [],
     rc_lastRefresh = None, rc_lastError = None, rc_stopped = False\<rparr>"

definition rc_setConfig ::
  "int \<Rightarrow> compiled option \<Rightarrow> string \<Rightarrow> rc_error option \<Rightarrow> rc_manager \<Rightarrow> rc_manager" where
  "rc_setConfig t c src err m =
     m\<lparr>cfg := c, rc_source := src, rc_lastRefresh := Some t, rc_lastError := err\<rparr>"

definition rc_setError :: "rc_error \<Rightarrow> rc_manager \<Rightarrow> rc_manager" where
  "rc_setError e m = m\<lparr>rc_lastError := Some e\<rparr>"

definition rc_Enabled :: "rc_manager \<Rightarrow> bool" where
  "rc_Enabled m \<longleftrightarrow> TrimSpace (rc_URL (rc_opts m)) \<noteq> []"

definition rc_fetch :: "'u http_env \<Rightarrow> rc_options \<Rightarrow> fetch_error + string" where
  "rc_fetch env opts =
     (case url_Parse env (TrimRight (rc_URL opts) ''/'' @ ''/internal/credential-runtime-config'') of
        Inl e \<Rightarrow> Inl (UrlError e)
      | Inr endpoint \<Rightarrow>
          http_get env (with_query env endpoint
            ((if rc_AppName opts \<noteq> [] then [(''app'', rc_AppName opts)] else []) @
             (if rc_InstanceIP opts \<noteq> [] then [(''ip'', rc_InstanceIP opts)] else []) @
             [(''agent_id'', rc_AgentID opts)])))"

definition rc_loadCache ::
  "(string \<Rightarrow> string + rc_document) \<Rightarrow> 'u rc_env \<Rightarrow> files \<Rightarrow> rc_manager \<Rightarrow> rc_manager \<times> bool" where
  "rc_loadCache unmarshal env fs m =
     (if rc_CacheFile (rc_opts m) = [] then (m, True)
      else (case ReadFile (rc_fsys env) (rc_CacheFile (rc_opts m)) fs of
              NotExist \<Rightarrow> (m, True)
            | ReadFault e \<Rightarrow> (m, False)
            | ReadOk b \<Rightarrow>
                (case rc_parse unmarshal b of
                   Inl e \<Rightarrow> (m, False)
                 | Inr c \<Rightarrow> (rc_setConfig (rc_now env) (Some c) ''cache'' None m, True))))"

text \<open>Here the temporary file is removed on every path that created it (\<open>defer\<close>).\<close>

definition rc_saveCache :: "fs_env \<Rightarrow> string \<Rightarrow> string \<Rightarrow> files \<Rightarrow> files \<times> string option" where
  "rc_saveCache env path body fs =
     (if path = [] then (fs, None)
      else (case mkdir_fault env of
              Some e \<Rightarrow> (fs, Some e)
            | None \<Rightarrow>
               (case temp_fault env of
                  Some e \<Rightarrow> (fs, Some e)
                | None \<Rightarrow>
                    let tmp = temp_name env;
                        (fs1, err) =
                          (case write_fault env of
                             Some (e, part) \<Rightarrow> (fs(tmp \<mapsto> part), Some e)
                           | None \<Rightarrow>
                               (case close_fault env of
                                  Some e \<Rightarrow> (fs(tmp \<mapsto> body), Some e)
                                | None \<Rightarrow>
                                    (case rename_fault env of
                                       Some e \<Rightarrow> (fs(tmp \<mapsto> body), Some e)
                                     | None \<Rightarrow> (fs(tmp := None, path \<mapsto> body), None))))
                    in (os_Remove env tmp fs1, err))))"

definition rc_Reload ::
  "(string \<Rightarrow> string + rc_document) \<Rightarrow> 'u rc_env \<Rightarrow> rc_manager \<times> files
     \<Rightarrow> (rc_manager \<times> files) \<times> rc_error option" where
  "rc_Reload unmarshal env = (\<lambda>(m, fs).
     if \<not> rc_Enabled m then ((m, fs), None)
     else if TrimSpace (rc_AgentID (rc_opts m)) = []
       then ((rc_setError AgentIDRequired m, fs), Some AgentIDRequired)
     else (case rc_fetch (rc_http env) (rc_opts m) of
             Inl e \<Rightarrow> ((rc_setError (RcFetchFailed e) m, fs), Some (RcFetchFailed e))
           | Inr body \<Rightarrow>
               (case rc_parse unmarshal body of
                  Inl e \<Rightarrow> ((rc_setError (RcDecodeFailed e) m, fs), Some (RcDecodeFailed e))
                | Inr c \<Rightarrow>
                    ((rc_setConfig (rc_now env) (Some c) ''remote'' None m,
                      fst (rc_saveCache (rc_fsys env) (rc_CacheFile (rc_opts m)) body fs)), None))))"

definition rc_localIP :: "'u rc_env \<Rightarrow> string + string" where
  "rc_localIP env = udp_local_ip env"

definition rc_Start ::
  "(string \<Rightarrow> string + rc_document) \<Rightarrow> 'u rc_env \<Rightarrow> rc_manager \<times> files
     \<Rightarrow> (rc_manager \<times> files) \<times> bool" where
  "rc_Start unmarshal env = (\<lambda>(m, fs).
     if \<not> rc_Enabled m then ((m, fs), False)
     else
       let m1 = (if rc_InstanceIP (rc_opts m) = []
                 then (case rc_localIP env of
                         Inr a \<Rightarrow> m\<lparr>rc_opts := (rc_opts m)\<lparr>rc_InstanceIP := a\<rparr>\<rparr>
                       | Inl e \<Rightarrow> rc_setError (RcInstanceIPLookup e) m)
                 else m);
           m2 = fst (rc_loadCache unmarshal env fs m1);
           (m3, fs3) = fst (rc_Reload unmarshal env (m2, fs))
       in ((m3, fs3), 0 < rc_RefreshInterval (rc_opts m3)))"

definition rc_Stop :: "rc_manager \<Rightarrow> rc_manager" where
  "rc_Stop m = (if rc_stopped m then m else m\<lparr>rc_stopped := True\<rparr>)"

definition MITMEnabledForHost :: "rc_manager \<Rightarrow> string \<Rightarrow> bool" where
  "MITMEnabledForHost m value =
     (let host = normalizeHost value in
      if host = [] then False
      else (case cfg m of
              None \<Rightarrow> False
            | Some c \<Rightarrow>
                host \<in> exact c \<or>
                list_ex (\<lambda>suff. host = suff \<or> HasSuffix host (''.'' @ suff)) (wildcards c)))"

definition rc_UserSources :: "rc_manager \<Rightarrow> user_source list" where
  "rc_UserSources m = (case cfg m of None \<Rightarrow> [] | Some c \<Rightarrow> UserSources (c_doc c))"

definition rc_Status :: "rc_manager \<Rightarrow> rc_status" where
  "rc_Status m = \<lparr>rs_Enabled = rc_Enabled m, rs_options = rc_opts m, rs_Source = rc_source m,
     rs_LastRefresh = rc_lastRefresh m, rs_LastError = rc_lastError m,
     rs_MITMHosts = (case cfg m of None \<Rightarrow> [] | Some c \<Rightarrow> MITMHosts (c_doc c)),
     rs_UserSources = (case cfg m of None \<Rightarrow> 0 | Some c \<Rightarrow> length (UserSources (c_doc c)))\<rparr>"

datatype rc_reply = RcMethodNotAllowed | RcBadGateway rc_error | RcStatusReply rc_status

definition rc_handle_status :: "string \<Rightarrow> rc_manager \<Rightarrow> rc_reply" where
  "rc_handle_status meth m =
     (if meth \<noteq> ''GET'' then RcMethodNotAllowed else RcStatusReply (rc_Status m))"

definition rc_handle_reload ::
  "(string \<Rightarrow> string + rc_document) \<Rightarrow> 'u rc_env \<Rightarrow> string \<Rightarrow> rc_manager \<times> files
     \<Rightarrow> (rc_manager \<times> files) \<times> rc_reply" where
  "rc_handle_reload unmarshal env meth s =
     (if meth \<noteq> ''POST'' then (s, RcMethodNotAllowed)
      else (case rc_Reload unmarshal env s of
              (s', Some e) \<Rightarrow> (s', RcBadGateway e)
            | (s', None) \<Rightarrow> (s', RcStatusReply (rc_Status (fst s')))))"

section \<open>Interception means the document's list\<close>

text \<open>One entry of \<open>mitm_hosts\<close> covers a host: itself, or a wildcard's domain and subdomains.\<close>

definition host_covered :: "string \<Rightarrow> string \<Rightarrow> bool" where
  "host_covered entry host \<longleftrightarrow>
     (let e = normalizeHost entry in
      e \<noteq> [] \<and>
      (if HasPrefix e ''*.''
       then host = TrimPrefix e ''*.'' \<or> (\<exists>sub. host = sub @ ''.'' @ TrimPrefix e ''*.'')
       else host = e))"

definition covers :: "compiled \<Rightarrow> string \<Rightarrow> bool" where
  "covers c host \<longleftrightarrow> host \<in> exact c \<or>
     list_ex (\<lambda>suff. host = suff \<or> HasSuffix host (''.'' @ suff)) (wildcards c)"

lemma covers_add_host: "covers (add_host e c) host \<longleftrightarrow> covers c host \<or> host_covered e host"
  by (auto simp: covers_def add_host_def host_covered_def Let_def HasSuffix_def suffix_def)

lemma covers_fold: "covers (fold add_host es c) host \<longleftrightarrow> covers c host \<or> (\<exists>e \<in> set es. host_covered e host)"
  by (induction es arbitrary: c) (auto simp: covers_add_host)

lemma c_doc_fold [simp]: "c_doc (fold add_host es c) = c_doc c"
  by (induction es arbitrary: c) (simp_all add: add_host_def Let_def)

lemma compile_doc_simps [simp]: "c_doc (compile_doc doc) = doc"
  by (simp add: compile_doc_def)

lemma covers_compile_doc: "covers (compile_doc doc) host \<longleftrightarrow> (\<exists>e \<in> set (MITMHosts doc). host_covered e host)"
  unfolding compile_doc_def covers_fold by (simp add: covers_def)

lemma MITMEnabledForHost_compile_doc:
  "cfg m = Some (compile_doc doc) \<Longrightarrow>
   MITMEnabledForHost m host \<longleftrightarrow>
     normalizeHost host \<noteq> [] \<and> (\<exists>e \<in> set (MITMHosts doc). host_covered e (normalizeHost host))"
  using covers_compile_doc [of doc "normalizeHost host"]
  by (simp add: MITMEnabledForHost_def Let_def covers_def)

section \<open>Reloading\<close>

definition rc_outcome ::
  "(string \<Rightarrow> string + rc_document) \<Rightarrow> 'u rc_env \<Rightarrow> rc_options \<Rightarrow> (rc_error + compiled) option" where
  "rc_outcome unmarshal env opts =
     (if TrimSpace (rc_URL opts) = [] then None
      else if TrimSpace (rc_AgentID opts) = [] then Some (Inl AgentIDRequired)
      else Some (case rc_fetch (rc_http env) opts of
                   Inl e \<Rightarrow> Inl (RcFetchFailed e)
                 | Inr body \<Rightarrow>
                     (case rc_parse unmarshal body of Inl e \<Rightarrow> Inl (RcDecodeFailed e) | Inr c \<Rightarrow> Inr c)))"

lemma rc_updates [simp]:
  "rc_opts (rc_setError e m) = rc_opts m" "rc_opts (rc_setConfig t c src err m) = rc_opts m"
  "cfg (rc_setError e m) = cfg m" "cfg (rc_setConfig t c src err m) = c"
  "rc_lastError (rc_setError e m) = Some e" "rc_lastError (rc_setConfig t c src err m) = err"
  by (simp_all add: rc_setError_def rc_setConfig_def)

lemma rc_Reload_effect:
  "fst (fst (rc_Reload unmarshal env (m, fs))) =
     (case rc_outcome unmarshal env (rc_opts m) of
        None \<Rightarrow> m
      | Some (Inl e) \<Rightarrow> rc_setError e m
      | Some (Inr c) \<Rightarrow> rc_setConfig (rc_now env) (Some c) ''remote'' None m)"
  "snd (rc_Reload unmarshal env (m, fs)) =
     (case rc_outcome unmarshal env (rc_opts m) of Some (Inl e) \<Rightarrow> Some e | _ \<Rightarrow> None)"
  by (simp_all add: rc_Reload_def rc_outcome_def rc_Enabled_def split: sum.split)

lemma rc_Reload_idle:
  "rc_outcome unmarshal env (rc_opts m) = None \<Longrightarrow> rc_Reload unmarshal env (m, fs) = ((m, fs), None)"
  by (simp add: rc_Reload_def rc_outcome_def rc_Enabled_def split: if_splits)

interpretation rcm: config_manager
  "rc_Reload unmarshal" "\<lambda>s. cfg (fst s)" "\<lambda>s. rc_lastError (fst s)" "\<lambda>s. rc_opts (fst s)"
  "\<lambda>env s. rc_outcome unmarshal env (rc_opts (fst s))"
  for unmarshal :: "string \<Rightarrow> string + rc_document"
  by unfold_locales
    (auto simp: rc_Reload_idle rc_Reload_effect split: option.splits sum.splits)

text \<open>
  C11. Over any sequence of reloads, a host is intercepted afterwards exactly when the
  last document that was fetched and decoded lists it: by its normalised name, or by a
  wildcard \<open>*.d\<close>, which covers \<open>d\<close> itself and every name below it. The user sources are
  those of the same document. Failed reloads in between change neither.
\<close>

theorem rc_reloads_install_last_document:
  assumes "rc_Enabled m" and "TrimSpace (rc_AgentID (rc_opts m)) \<noteq> []"
    and "rc_fetch (rc_http env) (rc_opts m) = Inr body" and "unmarshal body = Inr doc"
    and "\<And>e. e \<in> set later \<Longrightarrow> (\<exists>err. rc_fetch (rc_http e) (rc_opts m) = Inl err) \<or>
           (\<exists>b err. rc_fetch (rc_http e) (rc_opts m) = Inr b \<and> unmarshal b = Inl err)"
  shows "let m' = fst (run_reloads (rc_Reload unmarshal) (m, fs) (earlier @ env # later)) in
    (\<forall>host. MITMEnabledForHost m' host \<longleftrightarrow>
       normalizeHost host \<noteq> [] \<and> (\<exists>e \<in> set (MITMHosts doc). host_covered e (normalizeHost host))) \<and>
    rc_UserSources m' = UserSources doc"
proof -
  let ?oc = "\<lambda>e. rc_outcome unmarshal e (rc_opts m)"
  have "good_configs ?oc es = []" if "set es \<subseteq> set later" for es
    using that
  proof (induction es)
    case (Cons e es)
    then have "\<exists>err. ?oc e = Some (Inl err)"
      using assms(1,2) assms(5) [of e] by (auto simp: rc_outcome_def rc_Enabled_def rc_parse_def)
    with Cons show ?case by auto
  qed simp
  moreover have "?oc env = Some (Inr (compile_doc doc))"
    using assms(1-4) by (simp add: rc_outcome_def rc_Enabled_def rc_parse_def)
  ultimately have "cfg (fst (run_reloads (rc_Reload unmarshal) (m, fs) (earlier @ env # later)))
      = Some (compile_doc doc)"
    by (simp add: rcm.run_config good_configs_append last_or_def)
  then show ?thesis
    by (simp add: Let_def MITMEnabledForHost_compile_doc rc_UserSources_def)
qed

definition demo_rc_env :: "bool \<Rightarrow> unit rc_env" where
  "demo_rc_env up = \<lparr>rc_now = 3,
     rc_http = \<lparr>url_Parse = (\<lambda>_. Inr ()), with_query = (\<lambda>_ _. ''http://broker/''), NewRequest = (\<lambda>_. None),
       client_Do = (\<lambda>_. if up then Inr \<lparr>StatusCode = 200, body_read = Inr ''doc''\<rparr> else Inl ''refused'')\<rparr>,
     rc_fsys = no_faults ''tmp'', udp_local_ip = Inl ''none''\<rparr>"

definition demo_rc_options :: rc_options where
  "demo_rc_options = \<lparr>rc_URL = ''http://broker'', rc_CacheFile = [], rc_RefreshInterval = 0,
     rc_FetchTimeout = 0, rc_AppName = [], rc_InstanceIP = [], rc_AgentID = ''a1''\<rparr>"

definition demo_rc_doc :: rc_document where
  "demo_rc_doc = \<lparr>MITMHosts = [''*.Example.com''], UserSources = []\<rparr>"

theorem rc_reloads_install_last_document_witness:
  "MITMEnabledForHost (fst (run_reloads (rc_Reload (\<lambda>_. Inr demo_rc_doc))
       (rc_NewManager demo_rc_options, Map.empty)
       ([] @ demo_rc_env True # [demo_rc_env False]))) ''example.com:443''"
proof -
  let ?m = "rc_NewManager demo_rc_options"
  have "rc_Enabled ?m" "TrimSpace (rc_AgentID (rc_opts ?m)) \<noteq> []"
    by (simp_all add: rc_Enabled_def rc_NewManager_def rc_default_options_def demo_rc_options_def str_eval)
  moreover have "rc_fetch (rc_http (demo_rc_env True)) (rc_opts ?m) = Inr ''doc''"
    "\<exists>err. rc_fetch (rc_http (demo_rc_env False)) (rc_opts ?m) = Inl err"
    by (simp_all add: rc_fetch_def demo_rc_env_def http_get_def)
  ultimately have *: "let m' = fst (run_reloads (rc_Reload (\<lambda>_. Inr demo_rc_doc)) (?m, Map.empty)
        ([] @ demo_rc_env True # [demo_rc_env False])) in
      (\<forall>host. MITMEnabledForHost m' host \<longleftrightarrow> normalizeHost host \<noteq> [] \<and>
         (\<exists>e \<in> set (MITMHosts demo_rc_doc). host_covered e (normalizeHost host))) \<and>
      rc_UserSources m' = UserSources demo_rc_doc"
    by (intro rc_reloads_install_last_document [where body = "''doc''"]) auto
  have host: "normalizeHost ''example.com:443'' = ''example.com''"
    by (simp add: normalizeHost_def str_eval)
  have "host_covered ''*.Example.com'' ''example.com''"
    by (simp add: host_covered_def normalizeHost_def str_eval)
  with * host show ?thesis by (simp add: Let_def demo_rc_doc_def)
qed

text \<open>
  C12. The cache file is replaced atomically: whatever file operation fails, it holds
  its old contents or the whole new body, the latter exactly when no error is returned;
  no other file changes, and no temporary file stays behind unless removing it fails.
\<close>

theorem rc_saveCache_atomic:
  assumes "fresh_temp env path fs" and "path \<noteq> []"
  shows "fst (rc_saveCache env path body fs) path =
      (if snd (rc_saveCache env path body fs) = None then Some body else fs path) \<and>
    (\<forall>q. q \<noteq> path \<longrightarrow> q \<noteq> temp_name env \<longrightarrow> fst (rc_saveCache env path body fs) q = fs q) \<and>
    (\<not> remove_fails env \<longrightarrow> fst (rc_saveCache env path body fs) (temp_name env) = None)"
  using assms
  by (auto simp: rc_saveCache_def os_Remove_def Let_def fresh_temp_def split: option.split)

theorem rc_saveCache_atomic_witness:
  "fst (rc_saveCache (no_faults ''t'') ''c'' ''new'' [''c'' \<mapsto> ''old'']) ''c'' = Some ''new'' \<and>
   fst (rc_saveCache ((no_faults ''t'')\<lparr>write_fault := Some (''full'', ''ne'')\<rparr>) ''c'' ''new''
     [''c'' \<mapsto> ''old'']) ''c'' = Some ''old''"
proof -
  have "fresh_temp (no_faults ''t'') ''c'' [''c'' \<mapsto> ''old'']"
    "fresh_temp ((no_faults ''t'')\<lparr>write_fault := Some (''full'', ''ne'')\<rparr>) ''c'' [''c'' \<mapsto> ''old'']"
    by (simp_all add: fresh_temp_def no_faults_def)
  note at = this [THEN rc_saveCache_atomic, of "''new''"]
  have "snd (rc_saveCache (no_faults ''t'') ''c'' ''new'' [''c'' \<mapsto> ''old'']) = None"
    "snd (rc_saveCache ((no_faults ''t'')\<lparr>write_fault := Some (''full'', ''ne'')\<rparr>) ''c'' ''new''
      [''c'' \<mapsto> ''old'']) \<noteq> None"
    by (simp_all add: rc_saveCache_def no_faults_def Let_def)
  with at show ?thesis by simp
qed

end
