(* ===== verification/Credentials.thy ===== *)
theory Credentials
  imports Ttl_Cache Runtime_Config
begin

text \<open>
  Credential injection: the credential client and cache of \<open>pkg/credential\<close>, the identity
  client and cache of \<open>pkg/identity\<close>, and \<open>cmd/proxy/credentials.go\<close>, which finds the
  user of a request and sets the header of the credential. The vault's HTTP answers, the
  JSON codecs, the clock and SHA-256 are arguments. Headers are read and written through
  the two functions the source passes in.
\<close>

section \<open>Credentials\<close>

record credential =
  HeaderName :: string
  HeaderPrefix :: string
  Value :: string

record cred_request =
  cq_AgentID :: string
  cq_TargetHost :: string
  cq_UserID :: string

datatype vault_error =
    MarshalError string
  | PostError string
  | VaultStatus int string
  | DecodeFailure string

text \<open>
  One call: the clock before the lookup and when storing, the answer to a POST (a
  transport error, or a status and a body), and the codecs.
\<close>

record cred_env =
  ce_now :: int
  ce_store_now :: int
  ce_marshal :: "cred_request \<Rightarrow> string + string"
  ce_Post :: "string \<Rightarrow> string \<Rightarrow> string + (int \<times> string)"
  ce_decode :: "string \<Rightarrow> string + credential option"

definition NewFetcher :: "string \<Rightarrow> string" where
  "NewFetcher vaultURI = TrimRight vaultURI ''/''"

definition Fetch :: "string \<Rightarrow> cred_env \<Rightarrow> cred_request \<Rightarrow> vault_error + credential option" where
  "Fetch vaultURI env req =
     (if vaultURI = [] then Inr None
      else (case ce_marshal env req of
              Inl e \<Rightarrow> Inl (MarshalError e)
            | Inr body \<Rightarrow>
                (case ce_Post env (vaultURI @ ''/internal/credentials/resolve'') body of
                   Inl e \<Rightarrow> Inl (PostError e)
                 | Inr (status, payload) \<Rightarrow>
                     if status = 404 then Inr None
                     else if status \<noteq> 200 then Inl (VaultStatus status payload)
                     else (case ce_decode env payload of
                             Inl e \<Rightarrow> Inl (DecodeFailure e)
                           | Inr c \<Rightarrow> Inr c))))"

definition cred_ttl :: int where "cred_ttl = 30 * 1000000000"

definition fmtKey :: "string \<Rightarrow> string \<Rightarrow> string \<Rightarrow> string" where
  "fmtKey agentID targetHost userID = agentID @ '':'' @ targetHost @ '':'' @ userID"

text \<open>\<open>Resolve\<close> when the vault is configured; without it the source returns at once.\<close>

definition cred_Resolve ::
  "string \<Rightarrow> cred_env \<Rightarrow> cred_request \<Rightarrow> (string, credential option) ttl_store
     \<Rightarrow> (vault_error + credential option) \<times> (string, credential option) ttl_store" where
  "cred_Resolve vaultURI env req cache =
     (if vaultURI = [] then (Inr None, cache)
      else
        let key = fmtKey (cq_AgentID req) (cq_TargetHost req) (cq_UserID req);
            miss = (\<lambda>c. case Fetch vaultURI env req of
                          Inl e \<Rightarrow> (Inl e, c)
                        | Inr cred \<Rightarrow> (Inr cred, c(key \<mapsto> (cred, ce_store_now env + cred_ttl))))
        in (case cache key of
              Some (cred, expiresAt) \<Rightarrow>
                if ce_now env < expiresAt then (Inr cred, cache) else miss (cache(key := None))
            | None \<Rightarrow> miss cache))"

definition cred_key :: "cred_request \<Rightarrow> string" where
  "cred_key req = fmtKey (cq_AgentID req) (cq_TargetHost req) (cq_UserID req)"

definition cred_backend :: "string \<Rightarrow> cred_env \<Rightarrow> cred_request \<Rightarrow> vault_error + credential option \<times> int option" where
  "cred_backend vaultURI env req =
     map_sum id (\<lambda>c. (c, Some (ce_store_now env + cred_ttl))) (Fetch vaultURI env req)"

lemma miss_cleared: "c k = None \<Longrightarrow> c(k := None) = c"
  by auto

interpretation cred_cache: ttl_cache "cred_Resolve (v # vs)" cred_key ce_now "cred_backend (v # vs)"
  for v vs
proof
  fix c :: "(string, credential option) ttl_store" and r :: cred_request and e :: cred_env and err
  assume nf: "\<not> fresh_entry (ce_now e) (c (cred_key r))"
  then have unfold: "cred_Resolve (v # vs) e r c =
      (case Fetch (v # vs) e r of
         Inl e \<Rightarrow> (Inl e, c(cred_key r := None))
       | Inr cred \<Rightarrow> (Inr cred, c(cred_key r \<mapsto> (cred, ce_store_now e + cred_ttl))))"
    by (cases "c (cred_key r)")
      (auto simp: cred_Resolve_def cred_key_def fresh_entry_def miss_cleared split: sum.split)
  show "cred_backend (v # vs) e r = Inl err \<Longrightarrow> cred_Resolve (v # vs) e r c = (Inl err, c(cred_key r := None))"
    unfolding unfold by (auto simp: cred_backend_def split: sum.splits)
  show "cred_backend (v # vs) e r = Inr (w, Some x) \<Longrightarrow>
      cred_Resolve (v # vs) e r c = (Inr w, c(cred_key r \<mapsto> (w, x)))" for w x
    unfolding unfold by (auto simp: cred_backend_def split: sum.splits)
  show "cred_backend (v # vs) e r = Inr (w, None) \<Longrightarrow>
      cred_Resolve (v # vs) e r c = (Inr w, c(cred_key r := None))" for w
    by (cases "Fetch (v # vs) e r") (auto simp: cred_backend_def)
qed (simp add: cred_Resolve_def cred_key_def)

section \<open>Identities\<close>

record id_request =
  iq_Provider :: string
  iq_Token :: string

record id_env =
  ie_now :: int
  ie_store_now :: int
  ie_marshal :: "id_request \<Rightarrow> string + string"
  ie_Post :: "string \<Rightarrow> string \<Rightarrow> string + (int \<times> string)"
  ie_decode :: "string \<Rightarrow> string + (string \<times> int)"

text \<open>\<open>time.Duration(n) * time.Second\<close> multiplies in 64 bits.\<close>

definition wrap64 :: "int \<Rightarrow> int" where
  "wrap64 x = (x + 2 ^ 63) mod 2 ^ 64 - 2 ^ 63"

definition id_ttl :: "int \<Rightarrow> int" where
  "id_ttl ttlSeconds = (if 0 < ttlSeconds then wrap64 (ttlSeconds * 1000000000) else 30 * 1000000000)"

definition cacheKey :: "(string \<Rightarrow> string) \<Rightarrow> string \<Rightarrow> string \<Rightarrow> string" where
  "cacheKey sha256_hex provider token = provider @ '':'' @ sha256_hex token"

definition id_NewResolver :: "string \<Rightarrow> string" where
  "id_NewResolver vaultURI = TrimRight vaultURI ''/''"

text \<open>What the identity service answers: a user to keep until a time, or nobody (404).\<close>

definition id_fetch :: "string \<Rightarrow> id_env \<Rightarrow> id_request \<Rightarrow> vault_error + string \<times> int option" where
  "id_fetch vaultURI env req =
     (case ie_marshal env req of
        Inl e \<Rightarrow> Inl (MarshalError e)
      | Inr body \<Rightarrow>
          (case ie_Post env (vaultURI @ ''/internal/identity/resolve'') body of
             Inl e \<Rightarrow> Inl (PostError e)
           | Inr (status, payload) \<Rightarrow>
               if status = 404 then Inr ([], None)
               else if status \<noteq> 200 then Inl (VaultStatus status payload)
               else (case ie_decode env payload of
                       Inl e \<Rightarrow> Inl (DecodeFailure e)
                     | Inr (userID, ttlSeconds) \<Rightarrow>
                         Inr (userID, Some (ie_store_now env + id_ttl ttlSeconds)))))"

definition id_Resolve ::
  "(string \<Rightarrow> string) \<Rightarrow> string \<Rightarrow> id_env \<Rightarrow> id_request \<Rightarrow> (string, string) ttl_store
     \<Rightarrow> (vault_error + string) \<times> (string, string) ttl_store" where
  "id_Resolve sha256_hex vaultURI env req cache =
     (if vaultURI = [] \<or> iq_Provider req = [] \<or> iq_Token req = [] then (Inr [], cache)
      else
        let key = cacheKey sha256_hex (iq_Provider req) (iq_Token req);
            miss = (\<lambda>c. case id_fetch vaultURI env req of
                          Inl e \<Rightarrow> (Inl e, c)
                        | Inr (userID, None) \<Rightarrow> (Inr userID, c)
                        | Inr (userID, Some expiresAt) \<Rightarrow> (Inr userID, c(key \<mapsto> (userID, expiresAt))))
        in (case cache key of
              Some (userID, expiresAt) \<Rightarrow>
                if ie_now env < expiresAt then (Inr userID, cache) else miss (cache(key := None))
            | None \<Rightarrow> miss cache))"

text \<open>
  The cache contract speaks of requests that reach the cache: those whose provider and
  token are not empty. They are the pairs of non-empty strings.
\<close>

type_synonym id_parts = "(char \<times> string) \<times> (char \<times> string)"

fun id_req_of :: "id_parts \<Rightarrow> id_request" where
  "id_req_of ((p, ps), (t, ts)) = \<lparr>iq_Provider = p # ps, iq_Token = t # ts\<rparr>"

definition id_key :: "(string \<Rightarrow> string) \<Rightarrow> id_parts \<Rightarrow> string" where
  "id_key sha r = cacheKey sha (iq_Provider (id_req_of r)) (iq_Token (id_req_of r))"

interpretation id_cache: ttl_cache
  "\<lambda>env r. id_Resolve sha (v # vs) env (id_req_of r)" "id_key sha" ie_now
  "\<lambda>env r. id_fetch (v # vs) env (id_req_of r)"
  for sha v vs
proof
  fix c :: "(string, string) ttl_store" and r :: id_parts and e :: id_env and err
  assume nf: "\<not> fresh_entry (ie_now e) (c (id_key sha r))"
  have ne: "iq_Provider (id_req_of r) \<noteq> []" "iq_Token (id_req_of r) \<noteq> []"
    by (cases r rule: id_req_of.cases; simp)+
  have unfold: "id_Resolve sha (v # vs) e (id_req_of r) c =
      (case id_fetch (v # vs) e (id_req_of r) of
         Inl e \<Rightarrow> (Inl e, c(id_key sha r := None))
       | Inr (u, None) \<Rightarrow> (Inr u, c(id_key sha r := None))
       | Inr (u, Some x) \<Rightarrow> (Inr u, c(id_key sha r \<mapsto> (u, x))))"
    using nf ne
    by (cases "c (id_key sha r)")
      (auto simp: id_Resolve_def id_key_def fresh_entry_def miss_cleared split: sum.split option.split)
  show "id_fetch (v # vs) e (id_req_of r) = Inl err \<Longrightarrow>
      id_Resolve sha (v # vs) e (id_req_of r) c = (Inl err, c(id_key sha r := None))"
    "id_fetch (v # vs) e (id_req_of r) = Inr (w, Some x) \<Longrightarrow>
      id_Resolve sha (v # vs) e (id_req_of r) c = (Inr w, c(id_key sha r \<mapsto> (w, x)))"
    "id_fetch (v # vs) e (id_req_of r) = Inr (w, None) \<Longrightarrow>
      id_Resolve sha (v # vs) e (id_req_of r) c = (Inr w, c(id_key sha r := None))" for w x
    unfolding unfold by simp_all
next
  fix c :: "(string, string) ttl_store" and r :: id_parts and e :: id_env and w x
  assume "c (id_key sha r) = Some (w, x)" "ie_now e < x"
  moreover have "iq_Provider (id_req_of r) \<noteq> []" "iq_Token (id_req_of r) \<noteq> []"
    by (cases r rule: id_req_of.cases; simp)+
  ultimately show "id_Resolve sha (v # vs) e (id_req_of r) c = (Inr w, c)"
    by (simp add: id_Resolve_def id_key_def)
qed

section \<open>Injection\<close>

record outbound_identity =
  ob_AgentID :: string
  ob_CredResolver :: "string option"
  ob_IdentityResolver :: "string option"
  ob_RuntimeConfig :: "rc_manager option"

record cred_state =
  cs_creds :: "(string, credential option) ttl_store"
  cs_users :: "(string, string) ttl_store"

datatype token_error = MissingPrefix string | EmptyToken

definition trimTokenPrefix :: "string \<Rightarrow> string \<Rightarrow> token_error + string" where
  "trimTokenPrefix v pfx =
     (let value = TrimSpace v in
      if pfx = [] then Inr value
      else
        let p = TrimSpace pfx in
        if \<not> HasPrefix (ToLower value) (ToLower p) then Inl (MissingPrefix p)
        else let token = TrimSpace (drop (length p) value) in
             if token = [] then Inl EmptyToken else Inr token)"

text \<open>
  The loop of \<open>resolveUserID\<close>. \<open>envs n\<close> is the environment of the \<open>n\<close>-th call of the
  identity service within the request.
\<close>

fun resolve_sources ::
  "(string \<Rightarrow> string) \<Rightarrow> string \<Rightarrow> (nat \<Rightarrow> id_env) \<Rightarrow> (string \<Rightarrow> string) \<Rightarrow> user_source list
     \<Rightarrow> nat \<Rightarrow> (string, string) ttl_store \<Rightarrow> (vault_error + string) \<times> (string, string) ttl_store" where
  "resolve_sources sha uri envs getHeader [] n users = (Inr [], users)"
| "resolve_sources sha uri envs getHeader (source # rest) n users =
     (if us_Type source = UserSourceOAuth2Token then
        (let raw = TrimSpace (getHeader (us_Header source)) in
         if raw = [] then resolve_sources sha uri envs getHeader rest n users
         else (case trimTokenPrefix raw (us_Prefix source) of
                 Inl _ \<Rightarrow> resolve_sources sha uri envs getHeader rest n users
               | Inr token \<Rightarrow>
                   (case id_Resolve sha uri (envs n)
                           \<lparr>iq_Provider = us_Provider source, iq_Token = token\<rparr> users of
                      (Inl e, users') \<Rightarrow> (Inl e, users')
                    | (Inr userID, users') \<Rightarrow>
                        if userID \<noteq> [] then (Inr userID, users')
                        else resolve_sources sha uri envs getHeader rest (n + 1) users')))
      else if us_Type source = UserSourceHeader then
        (let raw = TrimSpace (getHeader (us_Header source)) in
         if raw \<noteq> [] then (Inr raw, users)
         else resolve_sources sha uri envs getHeader rest n users)
      else resolve_sources sha uri envs getHeader rest n users)"

definition resolveUserID ::
  "(string \<Rightarrow> string) \<Rightarrow> outbound_identity \<Rightarrow> (nat \<Rightarrow> id_env) \<Rightarrow> (string \<Rightarrow> string)
     \<Rightarrow> (string, string) ttl_store \<Rightarrow> (vault_error + string) \<times> (string, string) ttl_store" where
  "resolveUserID sha ob envs getHeader users =
     (case (ob_RuntimeConfig ob, ob_IdentityResolver ob) of
        (Some rc, Some uri) \<Rightarrow> resolve_sources sha uri envs getHeader (rc_UserSources rc) 0 users
      | _ \<Rightarrow> (Inr [], users))"

text \<open>
  The result: the user (with the error, if any) and the header to set, if any.
\<close>

record injection =
  in_User :: string
  in_Error :: "vault_error option"
  in_Header :: "(string \<times> string) option"

definition applyCredentialInjection ::
  "(string \<Rightarrow> string) \<Rightarrow> outbound_identity \<Rightarrow> cred_env \<Rightarrow> (nat \<Rightarrow> id_env) \<Rightarrow> string
     \<Rightarrow> (string \<Rightarrow> string) \<Rightarrow> cred_state \<Rightarrow> injection \<times> cred_state" where
  "applyCredentialInjection sha ob env envs targetHost getHeader st =
     (case ob_CredResolver ob of
        None \<Rightarrow> (\<lparr>in_User = [], in_Error = None, in_Header = None\<rparr>, st)
      | Some uri \<Rightarrow>
          let host = normalizeHost targetHost;
              (user, users') = resolveUserID sha ob envs getHeader (cs_users st);
              st1 = st\<lparr>cs_users := users'\<rparr>
          in (case user of
                Inl e \<Rightarrow> (\<lparr>in_User = [], in_Error = Some e, in_Header = None\<rparr>, st1)
              | Inr userID \<Rightarrow>
                  let (cred, creds') = cred_Resolve uri env
                        \<lparr>cq_AgentID = ob_AgentID ob, cq_TargetHost = host, cq_UserID = userID\<rparr>
                        (cs_creds st1);
                      st2 = st1\<lparr>cs_creds := creds'\<rparr>
                  in (case cred of
                        Inl e \<Rightarrow> (\<lparr>in_User = userID, in_Error = Some e, in_Header = None\<rparr>, st2)
                      | Inr None \<Rightarrow> (\<lparr>in_User = userID, in_Error = None, in_Header = None\<rparr>, st2)
                      | Inr (Some c) \<Rightarrow>
                          (\<lparr>in_User = userID, in_Error = None,
                            in_Header = Some (HeaderName c, HeaderPrefix c @ Value c)\<rparr>, st2))))"

section \<open>Whose credential\<close>

lemma fmtKey_inj:
  assumes "fmtKey a h u = fmtKey a h' u'" "CHR '':'' \<notin> set h" "CHR '':'' \<notin> set h'"
  shows "h = h' \<and> u = u'"
proof -
  have "h @ CHR '':'' # u = h' @ CHR '':'' # u'" using assms(1) by (simp add: fmtKey_def)
  then show ?thesis using assms(2,3)
    by (auto simp: append_eq_append_conv2 append_eq_Cons_conv Cons_eq_append_conv)
qed

lemma cred_answer:
  assumes "uri \<noteq> []"
    and hist: "\<forall>(e, q) \<in> set es. cq_AgentID q = cq_AgentID r \<and> CHR '':'' \<notin> set (cq_TargetHost q)"
    and host: "CHR '':'' \<notin> set (cq_TargetHost r)"
    and ans: "fst (cred_Resolve uri e r (resolve_run (cred_Resolve uri) es Map.empty)) = Inr cred"
  shows "Fetch uri e r = Inr cred \<or>
    (\<exists>e'. (e', r) \<in> set es \<and> Fetch uri e' r = Inr cred \<and> ce_now e < ce_store_now e' + cred_ttl)"
proof -
  obtain v vs where uri: "uri = v # vs" using assms(1) by (cases uri) auto
  have ans_of: "cred_backend uri e q = Inr (c, t) \<longleftrightarrow>
      Fetch uri e q = Inr c \<and> t = Some (ce_store_now e + cred_ttl)" for e q c t
    by (cases "Fetch uri e q") (auto simp: cred_backend_def)
  have key: "q = r" if "(e', q) \<in> set es" "cred_key q = cred_key r" for e' q
  proof -
    have "cq_AgentID q = cq_AgentID r" "CHR '':'' \<notin> set (cq_TargetHost q)"
      using hist that(1) by auto
    moreover from this have "cq_TargetHost q = cq_TargetHost r \<and> cq_UserID q = cq_UserID r"
      using that(2) host fmtKey_inj unfolding cred_key_def by metis
    ultimately show ?thesis by simp
  qed
  from cred_cache.answer_origin [of v vs e r es cred] ans
  show ?thesis unfolding uri [symmetric] ans_of using key by blast
qed

lemma id_key_inj:
  assumes "id_key sha r = id_key sha r'" and "length (sha (iq_Token (id_req_of r))) = length (sha (iq_Token (id_req_of r')))"
  shows "iq_Provider (id_req_of r) = iq_Provider (id_req_of r') \<and>
    sha (iq_Token (id_req_of r)) = sha (iq_Token (id_req_of r'))"
proof -
  have "(iq_Provider (id_req_of r) @ '':'') @ sha (iq_Token (id_req_of r)) =
      (iq_Provider (id_req_of r') @ '':'') @ sha (iq_Token (id_req_of r'))"
    using assms(1) by (simp add: id_key_def cacheKey_def)
  then have "iq_Provider (id_req_of r) @ '':'' = iq_Provider (id_req_of r') @ '':'' \<and>
      sha (iq_Token (id_req_of r)) = sha (iq_Token (id_req_of r'))"
    using assms(2) by (subst (asm) append_eq_append_conv) auto
  then show ?thesis by simp
qed

text \<open>
  A user is only ever taken from the identity service's answer to the same provider
  and token, given now or earlier and not yet expired. The hypotheses on the digest are
  its fixed length and that the tokens in play do not collide.
\<close>

theorem identity_answer:
  assumes "uri \<noteq> []"
    and "\<And>x y. length (sha x) = length (sha y)"
    and "\<And>e' r'. (e', r') \<in> set es \<Longrightarrow>
      sha (iq_Token (id_req_of r')) = sha (iq_Token (id_req_of r)) \<Longrightarrow>
      iq_Token (id_req_of r') = iq_Token (id_req_of r)"
    and "fst (id_Resolve sha uri e (id_req_of r)
           (resolve_run (\<lambda>env r. id_Resolve sha uri env (id_req_of r)) es Map.empty)) = Inr user"
  shows "(\<exists>t. id_fetch uri e (id_req_of r) = Inr (user, t)) \<or>
    (\<exists>e' x. (e', r) \<in> set es \<and> id_fetch uri e' (id_req_of r) = Inr (user, Some x) \<and> ie_now e < x)"
proof -
  obtain v vs where uri: "uri = v # vs" using assms(1) by (cases uri) auto
  have same: "r' = r" if "(e', r') \<in> set es" "id_key sha r' = id_key sha r" for e' r'
  proof -
    have "id_req_of r' = id_req_of r"
      using id_key_inj [OF that(2) assms(2)] assms(3) [OF that(1)] by simp
    then show ?thesis
      by (cases r rule: id_req_of.cases; cases r' rule: id_req_of.cases) simp
  qed
  from id_cache.answer_origin [of sha v vs e r es user] assms(4)
  show ?thesis unfolding uri [symmetric] using same by blast
qed

section \<open>A sequence of requests\<close>

record inject_call =
  ic_env :: cred_env
  ic_envs :: "nat \<Rightarrow> id_env"
  ic_host :: string
  ic_getHeader :: "string \<Rightarrow> string"

definition inject :: "(string \<Rightarrow> string) \<Rightarrow> outbound_identity \<Rightarrow> inject_call \<Rightarrow> cred_state \<Rightarrow> injection \<times> cred_state" where
  "inject sha ob c = applyCredentialInjection sha ob (ic_env c) (ic_envs c) (ic_host c) (ic_getHeader c)"

definition no_state :: cred_state where
  "no_state = \<lparr>cs_creds = Map.empty, cs_users = Map.empty\<rparr>"

fun inject_run :: "(string \<Rightarrow> string) \<Rightarrow> outbound_identity \<Rightarrow> inject_call list \<Rightarrow> cred_state \<Rightarrow> cred_state" where
  "inject_run sha ob [] st = st"
| "inject_run sha ob (c # cs) st = inject_run sha ob cs (snd (inject sha ob c st))"

text \<open>What one injection does to the credential cache: nothing, or one resolve.\<close>

lemma inject_creds:
  assumes "ob_CredResolver ob = Some uri"
  shows "cs_creds (snd (inject sha ob c st)) = cs_creds st \<or>
    (\<exists>u. cs_creds (snd (inject sha ob c st)) =
       snd (cred_Resolve uri (ic_env c)
         \<lparr>cq_AgentID = ob_AgentID ob, cq_TargetHost = normalizeHost (ic_host c), cq_UserID = u\<rparr> (cs_creds st)))"
proof (cases "fst (resolveUserID sha ob (ic_envs c) (ic_getHeader c) (cs_users st))")
  case (Inl e)
  with assms show ?thesis
    by (simp add: inject_def applyCredentialInjection_def Let_def case_prod_beta)
next
  case (Inr u)
  with assms have "cs_creds (snd (inject sha ob c st)) =
       snd (cred_Resolve uri (ic_env c)
         \<lparr>cq_AgentID = ob_AgentID ob, cq_TargetHost = normalizeHost (ic_host c), cq_UserID = u\<rparr> (cs_creds st))"
    by (simp add: inject_def applyCredentialInjection_def Let_def case_prod_beta
        split: sum.split option.split)
  then show ?thesis by blast
qed

lemma inject_run_trace:
  assumes "ob_CredResolver ob = Some uri"
  shows "\<exists>es. cs_creds (inject_run sha ob cs st) = resolve_run (cred_Resolve uri) es (cs_creds st) \<and>
    (\<forall>(e, q) \<in> set es. cq_AgentID q = ob_AgentID ob \<and>
       (\<exists>c \<in> set cs. e = ic_env c \<and> cq_TargetHost q = normalizeHost (ic_host c)))"
proof (induction cs arbitrary: st)
  case Nil
  show ?case by (rule exI [of _ "[]"]) simp
next
  case (Cons c cs)
  obtain es where es: "cs_creds (inject_run sha ob cs (snd (inject sha ob c st))) =
      resolve_run (cred_Resolve uri) es (cs_creds (snd (inject sha ob c st)))"
    "\<forall>(e, q) \<in> set es. cq_AgentID q = ob_AgentID ob \<and>
       (\<exists>c \<in> set cs. e = ic_env c \<and> cq_TargetHost q = normalizeHost (ic_host c))"
    using Cons by blast
  from inject_creds [OF assms, of sha c st] show ?case
  proof
    assume "cs_creds (snd (inject sha ob c st)) = cs_creds st"
    with es show ?case by (intro exI [of _ es]) auto
  next
    assume "\<exists>u. cs_creds (snd (inject sha ob c st)) =
       snd (cred_Resolve uri (ic_env c)
         \<lparr>cq_AgentID = ob_AgentID ob, cq_TargetHost = normalizeHost (ic_host c), cq_UserID = u\<rparr> (cs_creds st))"
    then obtain u where u: "cs_creds (snd (inject sha ob c st)) =
       snd (cred_Resolve uri (ic_env c)
         \<lparr>cq_AgentID = ob_AgentID ob, cq_TargetHost = normalizeHost (ic_host c), cq_UserID = u\<rparr> (cs_creds st))" ..
    let ?q = "\<lparr>cq_AgentID = ob_AgentID ob, cq_TargetHost = normalizeHost (ic_host c), cq_UserID = u\<rparr>"
    from es u show ?case by (intro exI [of _ "(ic_env c, ?q) # es"]) auto
  qed
qed

lemma inject_header:
  assumes "ob_CredResolver ob = Some uri" "in_Header (fst (inject sha ob c st)) = Some (h, v)"
  obtains cred where "h = HeaderName cred" "v = HeaderPrefix cred @ Value cred"
    "fst (cred_Resolve uri (ic_env c)
       \<lparr>cq_AgentID = ob_AgentID ob, cq_TargetHost = normalizeHost (ic_host c),
        cq_UserID = in_User (fst (inject sha ob c st))\<rparr> (cs_creds st)) = Inr (Some cred)"
  using assms
  by (auto simp: inject_def applyCredentialInjection_def Let_def split: prod.splits sum.splits option.splits)

text \<open>A vault that issues one credential while it is up, and an identity service likewise.\<close>

definition demo_cred :: credential where
  "demo_cred = \<lparr>HeaderName = ''Authorization'', HeaderPrefix = ''Bearer '', Value = ''s3cret''\<rparr>"

definition demo_cred_env :: "bool \<Rightarrow> int \<Rightarrow> cred_env" where
  "demo_cred_env up t = \<lparr>ce_now = t, ce_store_now = t, ce_marshal = (\<lambda>_. Inr ''{}''),
     ce_Post = (\<lambda>_ _. if up then Inr (200, ''ok'') else Inl ''down''),
     ce_decode = (\<lambda>_. Inr (Some demo_cred))\<rparr>"

definition demo_id_env :: "bool \<Rightarrow> int \<Rightarrow> id_env" where
  "demo_id_env up t = \<lparr>ie_now = t, ie_store_now = t, ie_marshal = (\<lambda>_. Inr ''{}''),
     ie_Post = (\<lambda>_ _. if up then Inr (200, ''ok'') else Inl ''down''),
     ie_decode = (\<lambda>_. Inr (''alice'', 0))\<rparr>"

definition demo_ob :: outbound_identity where
  "demo_ob = \<lparr>ob_AgentID = ''agent'', ob_CredResolver = Some ''http://vault'', ob_IdentityResolver = None,
     ob_RuntimeConfig = None\<rparr>"

definition demo_call :: "bool \<Rightarrow> int \<Rightarrow> inject_call" where
  "demo_call up t = \<lparr>ic_env = demo_cred_env up t, ic_envs = (\<lambda>_. demo_id_env up t),
     ic_host = ''api.example'', ic_getHeader = (\<lambda>_. [])\<rparr>"

lemmas demo_cred_defs = demo_cred_def demo_cred_env_def demo_id_env_def demo_ob_def demo_call_def

theorem identity_answer_witness:
  "let sha = (\<lambda>_. ''digest''); r = ((CHR ''p'', []), (CHR ''t'', []));
       es = [(demo_id_env True 0, r)]
   in (\<exists>t. id_fetch ''http://vault'' (demo_id_env False 5) (id_req_of r) = Inr (''alice'', t)) \<or>
      (\<exists>e' x. (e', r) \<in> set es \<and> id_fetch ''http://vault'' e' (id_req_of r) = Inr (''alice'', Some x) \<and>
         ie_now (demo_id_env False 5) < x)"
  unfolding Let_def
  by (rule identity_answer [where sha = "\<lambda>_. ''digest''"])
    (auto simp: id_Resolve_def id_fetch_def demo_cred_defs cacheKey_def id_ttl_def)



text \<open>
  The cache key is not injective: it joins agent, host and user with colons, so that
  a request without a host for the user \<open>:1:u\<close> shares the entry of the IPv6 host \<open>::1\<close>
  and the user \<open>u\<close>. What one of them cached, the other is given without asking.
\<close>

theorem cred_key_collision:
  assumes "uri \<noteq> []" and "Fetch uri e \<lparr>cq_AgentID = a, cq_TargetHost = ''::1'', cq_UserID = ''u''\<rparr> = Inr cred"
    and "ce_now e' < ce_store_now e + cred_ttl"
  shows "fst (cred_Resolve uri e' \<lparr>cq_AgentID = a, cq_TargetHost = [], cq_UserID = '':1:u''\<rparr>
    (snd (cred_Resolve uri e \<lparr>cq_AgentID = a, cq_TargetHost = ''::1'', cq_UserID = ''u''\<rparr> Map.empty)))
    = Inr cred"
  using assms by (simp add: cred_Resolve_def fmtKey_def)

theorem cred_key_collision_witness:
  "fst (cred_Resolve ''http://vault'' (demo_cred_env False 1)
      \<lparr>cq_AgentID = ''a'', cq_TargetHost = [], cq_UserID = '':1:u''\<rparr>
      (snd (cred_Resolve ''http://vault'' (demo_cred_env True 0)
        \<lparr>cq_AgentID = ''a'', cq_TargetHost = ''::1'', cq_UserID = ''u''\<rparr> Map.empty)))
    = Inr (Some demo_cred)"
  by (rule cred_key_collision) (simp_all add: Fetch_def demo_cred_env_def cred_ttl_def)

end
