(* ===== verification/Enforcement.thy ===== *)
theory Enforcement
  imports Policy_Manager Client_Hello Http_Relay Credentials
begin

text \<open>
  How the proxy applies the domain policy to connections, \<open>cmd/proxy/domain_policy.go\<close>:
  by the domain of an HTTP request, or by the server name of a TLS hello that is peeked
  at. A refused client gets a 403 response. The downstream connection may be absent
  (\<open>None\<close>).
\<close>

section \<open>Operations\<close>

record config =
  ServerName :: string
  DomainPolicy :: "dp_manager option"
  MITMEnabled :: bool

datatype proxy_error =
    ConnectionDone
  | BadRequest http_error
  | RelayFailed relay_error
  | InjectionFailed vault_error
  | DialFailed string
  | MitmFailed string
  | Panicked

definition forbidden_response :: "string \<Rightarrow> string" where
  "forbidden_response r =
     (let reason = (if r = [] then ''domain_policy_denied'' else r);
          body = ''Forbidden: '' @ reason @ [LF]
      in ''HTTP/1.1 403 Forbidden'' @ CRLF @
         ''Server: lhotse-agent'' @ CRLF @
         ''Content-Type: text/plain;charset=UTF-8'' @ CRLF @
         ''Content-Length: '' @ nat_digits (length body) @ CRLF @
         ''Connection: close'' @ CRLF @ CRLF @ body)"

definition writeDomainPolicyForbidden :: "sink \<Rightarrow> string \<Rightarrow> sink \<times> relay_error option" where
  "writeDomainPolicyForbidden w reason = sink_write w (forbidden_response reason)"

definition enforceDomainPolicy ::
  "config option \<Rightarrow> string \<Rightarrow> string \<Rightarrow> string \<Rightarrow> sink option \<Rightarrow> proxy_error option \<times> sink option" where
  "enforceDomainPolicy conf direction domain targetAddr downstream =
     (case Option.bind conf DomainPolicy of
        None \<Rightarrow> (None, downstream)
      | Some m \<Rightarrow>
          let d = Manager_Evaluate m direction domain targetAddr in
          if Allowed d then (None, downstream)
          else (Some ConnectionDone,
                map_option (\<lambda>w. fst (writeDomainPolicyForbidden w (Reason d))) downstream))"

text \<open>The reader of a connection, with the buffer size the handlers give it.\<close>

definition conn_reader :: "stream \<Rightarrow> reader" where
  "conn_reader s = \<lparr>buf_size = ClientHelloPeekBufferSize, incoming = string_to_bytes (unread s), final = at_end s\<rparr>"

definition enforceRawDomainPolicy ::
  "config option \<Rightarrow> string \<Rightarrow> stream \<Rightarrow> string \<Rightarrow> sink option \<Rightarrow> proxy_error option \<times> sink option" where
  "enforceRawDomainPolicy conf direction reader targetAddr downstream =
     (case PeekClientHelloServerName (conn_reader reader) of
        (serverName, isTLS, err) \<Rightarrow>
          let domain = (if err = None \<and> isTLS then serverName else []) in
          enforceDomainPolicy conf direction domain targetAddr downstream)"

definition outboundDirection :: string where "outboundDirection = DirectionOutbound"
definition inboundDirection :: string where "inboundDirection = DirectionInbound"

text \<open>What the configuration decides about a connection.\<close>

definition config_decision :: "config option \<Rightarrow> string \<Rightarrow> string \<Rightarrow> string \<Rightarrow> decision" where
  "config_decision conf direction domain target =
     (case Option.bind conf DomainPolicy of
        None \<Rightarrow> allowed
      | Some m \<Rightarrow> Manager_Evaluate m direction domain target)"

lemma enforceDomainPolicy_cases:
  "enforceDomainPolicy conf dir domain target w =
     (if Allowed (config_decision conf dir domain target) then (None, w)
      else (Some ConnectionDone,
        map_option (\<lambda>w. fst (writeDomainPolicyForbidden w (Reason (config_decision conf dir domain target)))) w))"
  by (simp add: enforceDomainPolicy_def config_decision_def allowed_def Let_def split: option.split)

section \<open>The refusal is a well-formed response\<close>

definition refusal_fields :: "string \<Rightarrow> (string \<times> string) list" where
  "refusal_fields body =
     [(''Server'', ''lhotse-agent''), (''Content-Type'', ''text/plain;charset=UTF-8''),
      (''Content-Length'', nat_digits (length body)), (''Connection'', ''close'')]"

definition refusal_body :: "string \<Rightarrow> string" where
  "refusal_body r = ''Forbidden: '' @ (if r = [] then ''domain_policy_denied'' else r) @ [LF]"

lemma forbidden_response_fields:
  "forbidden_response r =
     ''HTTP/1.1 403 Forbidden'' @ CRLF @ concat (map field_text (refusal_fields (refusal_body r))) @ CRLF @ refusal_body r"
  by (simp add: forbidden_response_def refusal_fields_def field_text_def refusal_body_def Let_def)

lemma digit_char_valid: "is_digit c \<Longrightarrow> validHeaderValueByte c \<and> \<not> is_blank c"
  by (auto simp: is_digit_def validHeaderValueByte_def is_blank_def TAB_def)

lemma plain_length_field: "plain_field (''Content-Length'', nat_digits n)"
proof -
  have "list_all is_digit (nat_digits n)" "nat_digits n \<noteq> []"
    using nat_digits_props [of n] by (auto simp: list_all_iff)
  then have "\<forall>c \<in> set (nat_digits n). validHeaderValueByte c \<and> \<not> is_blank c" "nat_digits n \<noteq> []"
    using digit_char_valid by (auto simp: list_all_iff)
  moreover have "list_all validHeaderFieldByte ''Content-Length''" "canonical_case True ''Content-Length'' = ''Content-Length''"
    by code_simp+
  ultimately show ?thesis by (auto simp: plain_field_def list_all_iff)
qed

lemma refusal_fields_plain: "list_all plain_field (refusal_fields body)"
proof -
  have "plain_field (''Server'', ''lhotse-agent'')"
    "plain_field (''Content-Type'', ''text/plain;charset=UTF-8'')" "plain_field (''Connection'', ''close'')"
    by code_simp+
  then show ?thesis by (simp add: refusal_fields_def plain_length_field)
qed

text \<open>
  A refused client gets a response it can parse: reading the bytes of the refusal
  as the proxy itself reads responses gives status 403 with the reason as the body, the
  body is exactly as long as \<open>Content-Length\<close> says, it is neither chunked nor an
  upgrade, and the connection is marked to be closed when the header asks for it.
\<close>

theorem refusal_parses:
  assumes "length (refusal_body reason) < 2 ^ 63"
  shows "\<exists>resp. ReadResponse lib \<lparr>unread = forbidden_response reason, at_end = e\<rparr> =
      (Inr resp, \<lparr>unread = refusal_body reason, at_end = e\<rparr>) \<and>
    rs_StatusCode resp = 403 \<and> rs_ContentLength resp = int (length (refusal_body reason)) \<and>
    \<not> Chunked resp \<and> \<not> Upgraded resp \<and>
    rs_Close resp = ContainsToken lib [''close''] ''close''"
proof -
  let ?s = "\<lparr>unread = forbidden_response reason, at_end = e\<rparr>"
  let ?body = "refusal_body reason"
  let ?h = "map (\<lambda>(k, v). (k, [v])) (refusal_fields ?body)"
  have "LF \<notin> set ''HTTP/1.1 403 Forbidden''" by (simp add: LF_def char_of_def bit_0)
  then have line: "ReadLine ?s = (Inr ''HTTP/1.1 403 Forbidden'',
      \<lparr>unread = concat (map field_text (refusal_fields ?body)) @ CRLF @ ?body, at_end = e\<rparr>)"
    using ReadLine_CRLF [of ?s "''HTTP/1.1 403 Forbidden''"] by (simp add: forbidden_response_fields)
  have header: "ReadMIMEHeader \<lparr>unread = concat (map field_text (refusal_fields ?body)) @ CRLF @ ?body, at_end = e\<rparr> =
      (Inr ?h, \<lparr>unread = ?body, at_end = e\<rparr>)"
    using ReadMIMEHeader_fields [OF refusal_fields_plain, of ?body "\<lparr>unread = _, at_end = e\<rparr>" ?body]
    by (simp add: refusal_fields_def)
  have status: "parse_status_line ''HTTP/1.1 403 Forbidden'' = Inr (''HTTP/1.1'', ''403 Forbidden'', 403)"
    by (simp add: parse_status_line_def str_eval TrimLeft_def Atoi_def is_digit_def digit_val_def)
  have keys: "CanonicalHeaderKey ''Upgrade'' = ''Upgrade''" by code_simp
  have len: "content_length ?h = int (length ?body)"
    using Atoi_nat_digits [OF assms] nat_digits_props [of "length ?body"]
    by (auto simp: content_length_def header_get_def refusal_fields_def Let_def)
  have pragma: "fixPragmaCacheControl ?h = ?h" by (simp add: fixPragmaCacheControl_def refusal_fields_def)
  have look: "map_of ?h ''Transfer-Encoding'' = None" "map_of ?h ''Upgrade'' = None"
    "map_of ?h ''Connection'' = Some [''close'']"
    by (simp_all add: refusal_fields_def)
  show ?thesis
    unfolding ReadResponse_def line header prod.case sum.case status
    by (simp add: ParseHTTPVersion_def pragma Let_def len look keys fillRespContentLength_def
        fillRespTransferEncoding_def fillRespUpgrade_def parseTransferEncoding_def
        header_Get_def header_get_def shouldClose_def TrimString_def)
qed

theorem refusal_parses_witness:
  "\<exists>resp. fst (ReadResponse demo_lib \<lparr>unread = forbidden_response ''domain_blocked'', at_end = EOF\<rparr>) = Inr resp \<and>
     rs_StatusCode resp = 403 \<and> rs_ContentLength resp = 26"
proof -
  have "length (refusal_body ''domain_blocked'') = 26" by (simp add: refusal_body_def)
  then show ?thesis using refusal_parses [of "''domain_blocked''" demo_lib EOF] by auto
qed

end
