(* ===== verification/Load_Balancer.thy ===== *)
theory Load_Balancer
  imports Go_Strings
begin

text \<open>
  The load balancers of \<open>cmd/config\<close>: the endpoint balancers behind the \<open>LoadBalancer\<close>
  interface (round robin, random, last connection, pass through) and the smooth
  weighted round robin that splits a route over clusters. The interface is a locale; the
  random number generator is an argument. A Go panic is \<open>None\<close>.

  The weighted balancer counts with \<open>int\<close>; the bound proved below on its counters
  keeps them far inside 64 bits for every sum of 32-bit weights.
\<close>

section \<open>Endpoint balancers\<close>

record endpoint =
  Ip :: string
  Port :: string

datatype balancer =
    RoundRobinLoadBalancer "32 word"
  | RandomLoadBalancer
  | LastConnLoadBalancer int
  | PassThroughLoadBalancer

text \<open>
  \<open>Select\<close> of each implementation: the endpoint (\<open>None\<close> for \<open>nil\<close>) and the new state,
  or a panic. \<open>rand\<close> is the number from which \<open>rand.Intn(size)\<close> is drawn.
\<close>

definition go_at :: "'a list \<Rightarrow> int \<Rightarrow> 'a option" where
  "go_at xs i = (if 0 \<le> i \<and> i < int (length xs) then Some (xs ! nat i) else None)"

text \<open>Go's \<open>%\<close> truncates towards zero, and divides by zero with a panic.\<close>

definition go_rem :: "int \<Rightarrow> int \<Rightarrow> int option" where
  "go_rem a b = (if b = 0 then None else Some (sgn a * (\<bar>a\<bar> mod \<bar>b\<bar>)))"

definition RoundRobin_Select :: "32 word \<Rightarrow> endpoint list \<Rightarrow> (endpoint \<times> 32 word) option" where
  "RoundRobin_Select nxt endpoints =
     (let n = nxt + 1 in
      case go_rem (uint n - 1) (int (length endpoints)) of
        None \<Rightarrow> None
      | Some i \<Rightarrow> map_option (\<lambda>e. (e, n)) (go_at endpoints i))"

definition Random_Select :: "nat \<Rightarrow> endpoint list \<Rightarrow> endpoint option" where
  "Random_Select rand endpoints =
     (if endpoints = [] then None else Some (endpoints ! (rand mod length endpoints)))"

definition LastConn_Select :: "nat \<Rightarrow> int \<Rightarrow> endpoint list \<Rightarrow> endpoint option \<times> int" where
  "LastConn_Select rand lst endpoints =
     (if lst < 0 \<or> int (length endpoints) - 1 < lst then
        (if endpoints = [] then (None, lst)
         else let i = rand mod length endpoints in (Some (endpoints ! i), int i))
      else (Some (endpoints ! nat lst), lst))"

fun Select :: "nat \<Rightarrow> balancer \<Rightarrow> endpoint list \<Rightarrow> (endpoint option \<times> balancer) option" where
  "Select rand (RoundRobinLoadBalancer nxt) es =
     map_option (\<lambda>(e, n). (Some e, RoundRobinLoadBalancer n)) (RoundRobin_Select nxt es)"
| "Select rand RandomLoadBalancer es = Some (Random_Select rand es, RandomLoadBalancer)"
| "Select rand (LastConnLoadBalancer lst) es =
     (let (e, l) = LastConn_Select rand lst es in Some (e, LastConnLoadBalancer l))"
| "Select rand PassThroughLoadBalancer es = Some (None, PassThroughLoadBalancer)"

section \<open>The interface\<close>

locale load_balancer =
  fixes select :: "'r \<Rightarrow> 's \<Rightarrow> 'e list \<Rightarrow> ('e option \<times> 's) option"
  assumes select_member: "select r s es = Some (Some e, s') \<Longrightarrow> e \<in> set es"
begin

text \<open>A sequence of selections, stopping at a panic.\<close>

lemma select_restrict:
  "set es \<subseteq> A \<Longrightarrow> select r s es = Some (oe, s') \<Longrightarrow> set_option oe \<subseteq> A"
  using select_member by (cases oe) auto

lemma select_empty: "select r s [] = Some (oe, s') \<Longrightarrow> oe = None"
  using select_member [of r s "[]"] by (cases oe) auto

end

interpretation lb: load_balancer Select
proof
  fix rand s es e s'
  assume "Select rand s es = Some (Some e, s')"
  then show "e \<in> set es"
    by (cases s)
      (auto simp: RoundRobin_Select_def Random_Select_def LastConn_Select_def go_at_def Let_def
        split: option.splits if_splits intro!: nth_mem)
qed

section \<open>Round robin\<close>

text \<open>\<open>k\<close> selections in a row over the same endpoints.\<close>

fun rr_run :: "nat \<Rightarrow> 32 word \<Rightarrow> endpoint list \<Rightarrow> (endpoint list \<times> 32 word) option" where
  "rr_run 0 nxt es = Some ([], nxt)"
| "rr_run (Suc k) nxt es =
     (case RoundRobin_Select nxt es of
        None \<Rightarrow> None
      | Some (e, n) \<Rightarrow> map_option (\<lambda>(l, n'). (e # l, n')) (rr_run k n es))"

lemma uint32_of_nat: "n < 2 ^ 32 \<Longrightarrow> uint (of_nat n :: 32 word) = int n"
  by (simp only: unsigned_of_nat) (simp add: take_bit_nat_eq_self)

lemma RoundRobin_Select_step:
  assumes "es \<noteq> []" and "c + 1 < 2 ^ 32"
  shows "RoundRobin_Select (of_nat c) es = Some (es ! (c mod length es), of_nat (c + 1))"
proof -
  have "uint (of_nat (c + 1) :: 32 word) = int (c + 1)" by (rule uint32_of_nat [OF assms(2)])
  then have "uint (of_nat c + 1 :: 32 word) - 1 = int c" by (simp add: add.commute)
  moreover have "go_rem (int c) (int (length es)) = Some (int (c mod length es))"
    using assms(1) by (cases "c = 0") (simp_all add: go_rem_def zmod_int)
  ultimately show ?thesis
    using assms(1) by (simp add: RoundRobin_Select_def go_at_def add.commute)
qed

lemma rr_run_from:
  assumes "es \<noteq> []"
  shows "c + k < 2 ^ 32 \<Longrightarrow>
    rr_run k (of_nat c) es = Some (map (\<lambda>i. es ! (i mod length es)) [c..<c + k], of_nat (c + k))"
proof (induction k arbitrary: c)
  case (Suc k)
  then have step: "RoundRobin_Select (of_nat c) es = Some (es ! (c mod length es), of_nat (c + 1))"
    using RoundRobin_Select_step [OF assms, of c] by simp
  have "rr_run k (of_nat (c + 1)) es
      = Some (map (\<lambda>i. es ! (i mod length es)) [c + 1..<c + 1 + k], of_nat (c + 1 + k))"
    using Suc by (intro Suc.IH) simp
  moreover have "[c..<c + Suc k] = c # [c + 1..<c + 1 + k]"
    by (simp add: upt_rec)
  ultimately show ?case using step by simp
qed simp

lemma RoundRobin_Select_wrap:
  assumes "1 < length es"
  shows "RoundRobin_Select (- 1) es = None"
proof -
  have "\<bar>- 1 :: int\<bar> mod int (length es) = 1" using assms by simp
  then show ?thesis using assms by (simp add: RoundRobin_Select_def go_rem_def go_at_def)
qed

text \<open>
  C13. Round robin visits the endpoints in order, wrapping around, for as many calls as
  its 32-bit counter lasts; the call after the counter reaches \<open>2 ^ 32 - 1\<close> computes the
  index \<open>-1\<close> and panics whenever there is more than one endpoint.
\<close>

theorem rr_run_cycles:
  assumes "1 < length es" and "k < 2 ^ 32"
  shows "rr_run k 0 es = Some (map (\<lambda>i. es ! (i mod length es)) [0..<k], of_nat k) \<and>
    (k = 2 ^ 32 - 1 \<longrightarrow> RoundRobin_Select (of_nat k) es = None)"
proof -
  have "es \<noteq> []" using assms(1) by auto
  moreover have "RoundRobin_Select (of_nat k) es = None" if "k = 2 ^ 32 - 1"
  proof -
    have "(of_nat k :: 32 word) = - 1" using that by simp
    then show ?thesis using RoundRobin_Select_wrap [OF assms(1)] by simp
  qed
  ultimately show ?thesis
    using rr_run_from [of es 0 k] assms(2) by simp
qed

theorem rr_run_cycles_witness:
  "rr_run 3 0 [\<lparr>Ip = ''10.0.0.1'', Port = ''80''\<rparr>, \<lparr>Ip = ''10.0.0.2'', Port = ''80''\<rparr>] =
     Some ([\<lparr>Ip = ''10.0.0.1'', Port = ''80''\<rparr>, \<lparr>Ip = ''10.0.0.2'', Port = ''80''\<rparr>,
            \<lparr>Ip = ''10.0.0.1'', Port = ''80''\<rparr>], 3)"
proof -
  have "[0..<3 :: nat] = [0, 1, 2]" "(2 :: nat) mod Suc (Suc 0) = 0"
    by (simp_all add: upt_rec numeral_2_eq_2)
  then show ?thesis
    using rr_run_cycles [of "[\<lparr>Ip = ''10.0.0.1'', Port = ''80''\<rparr>, \<lparr>Ip = ''10.0.0.2'', Port = ''80''\<rparr>]" 3]
    by simp
qed

section \<open>Smooth weighted round robin\<close>

record weight_node =
  cluster :: string
  Weight :: int
  currentWeight :: int
  effectiveWeight :: int

datatype add_error = ParamsLen | BadWeight

text \<open>\<open>Add\<close> takes variadic strings: a cluster and a decimal weight.\<close>

definition Add :: "string list \<Rightarrow> weight_node list \<Rightarrow> add_error + weight_node list" where
  "Add params rss =
     (if length params \<noteq> 2 then Inl ParamsLen
      else (case Atoi (params ! 1) of
              None \<Rightarrow> Inl BadWeight
            | Some w \<Rightarrow> Inr (rss @ [\<lparr>cluster = params ! 0, Weight = w, currentWeight = 0,
                effectiveWeight = w\<rparr>])))"

text \<open>
  The loop of \<open>Next\<close>: the nodes it has passed (updated in place in the source), the sum
  of effective weights and the index of the best node so far.
\<close>

definition bump :: "weight_node \<Rightarrow> weight_node" where
  "bump w = w\<lparr>currentWeight := currentWeight w + effectiveWeight w,
     effectiveWeight := (if effectiveWeight w < Weight w then effectiveWeight w + 1
                         else effectiveWeight w)\<rparr>"

fun next_loop :: "weight_node list \<Rightarrow> weight_node list \<Rightarrow> int \<Rightarrow> nat option
    \<Rightarrow> weight_node list \<times> int \<times> nat option" where
  "next_loop passed [] tot best = (passed, tot, best)"
| "next_loop passed (w # ws) tot best =
     (let w' = bump w; i = length passed in
      next_loop (passed @ [w']) ws (tot + effectiveWeight w)
        (case best of
           None \<Rightarrow> Some i
         | Some b \<Rightarrow> if currentWeight w' > currentWeight (passed ! b) then Some i else best))"

definition next_index :: "weight_node list \<Rightarrow> nat option \<times> weight_node list" where
  "next_index rss =
     (case next_loop [] rss 0 None of
        (rss', tot, None) \<Rightarrow> (None, rss')
      | (rss', tot, Some b) \<Rightarrow>
          (Some b, rss'[b := (rss' ! b)\<lparr>currentWeight := currentWeight (rss' ! b) - tot\<rparr>]))"

definition Next :: "weight_node list \<Rightarrow> string \<times> weight_node list" where
  "Next rss =
     (case next_index rss of
        (None, rss') \<Rightarrow> ([], rss')
      | (Some b, rss') \<Rightarrow> (cluster (rss' ! b), rss'))"

definition WRR_Select :: "string \<Rightarrow> weight_node list \<Rightarrow> string \<times> weight_node list" where
  "WRR_Select _ rss = Next rss"

fun next_run :: "nat \<Rightarrow> weight_node list \<Rightarrow> string list \<times> weight_node list" where
  "next_run 0 rss = ([], rss)"
| "next_run (Suc k) rss =
     (let (c, rss1) = Next rss; (cs, rss2) = next_run k rss1 in (c # cs, rss2))"

text \<open>
  Nodes as \<open>Add\<close> makes them and \<open>Next\<close> keeps them: the effective weight is the weight,
  and weights are not negative.
\<close>

definition steady :: "weight_node list \<Rightarrow> bool" where
  "steady rss \<longleftrightarrow> (\<forall>w \<in> set rss. effectiveWeight w = Weight w \<and> 0 \<le> Weight w)"

definition total_weight :: "weight_node list \<Rightarrow> int" where
  "total_weight rss = sum_list (map Weight rss)"

lemma bump_steady: "effectiveWeight w = Weight w \<Longrightarrow>
    bump w = w\<lparr>currentWeight := currentWeight w + Weight w\<rparr>"
  by (simp add: bump_def)

text \<open>What the loop computes: the bumped nodes, the total and the first best index.\<close>

lemma next_loop_nodes:
  "fst (next_loop passed ws tot best) = passed @ map bump ws"
  "fst (snd (next_loop passed ws tot best)) = tot + sum_list (map effectiveWeight ws)"
  by (induction passed ws tot best rule: next_loop.induct) (simp_all add: Let_def)

definition best_of :: "weight_node list \<Rightarrow> nat option \<Rightarrow> bool" where
  "best_of ws best \<longleftrightarrow>
     (case best of
        None \<Rightarrow> ws = []
      | Some b \<Rightarrow> b < length ws \<and> (\<forall>w \<in> set ws. currentWeight w \<le> currentWeight (ws ! b)))"

lemma next_loop_best:
  "best_of passed best \<Longrightarrow>
   best_of (fst (next_loop passed ws tot best)) (snd (snd (next_loop passed ws tot best)))"
proof (induction passed ws tot best rule: next_loop.induct)
  case (2 passed w ws tot best)
  have "best_of (passed @ [bump w])
     (case best of
        None \<Rightarrow> Some (length passed)
      | Some b \<Rightarrow> if currentWeight (bump w) > currentWeight (passed ! b) then Some (length passed) else best)"
    using 2(2) by (fastforce simp: best_of_def nth_append split: option.splits)
  with 2(1) show ?case by (simp add: Let_def)
qed simp

text \<open>
  One call on steady nodes: some node is chosen whose raised counter is positive, it
  pays the total, and everything else about the nodes stays.
\<close>

lemma next_index_step:
  assumes st: "steady rss" and W: "0 < total_weight rss"
    and zero: "sum_list (map currentWeight rss) = 0"
  obtains b rss' where "next_index rss = (Some b, rss')" "b < length rss"
    "map Weight rss' = map Weight rss" "map cluster rss' = map cluster rss" "steady rss'"
    "\<And>i. i < length rss \<Longrightarrow> currentWeight (rss' ! i) =
       currentWeight (rss ! i) + Weight (rss ! i) - (if i = b then total_weight rss else 0)"
    "- total_weight rss < currentWeight (rss' ! b)"
proof -
  let ?up = "map bump rss"
  have up: "?up = map (\<lambda>w. w\<lparr>currentWeight := currentWeight w + Weight w\<rparr>) rss"
    using st by (auto simp: steady_def bump_steady)
  have tot: "fst (snd (next_loop [] rss 0 None)) = total_weight rss"
    using st by (auto simp: next_loop_nodes total_weight_def steady_def intro!: arg_cong [of _ _ sum_list])
  have nodes: "fst (next_loop [] rss 0 None) = ?up" by (simp add: next_loop_nodes)
  have best: "best_of ?up (snd (snd (next_loop [] rss 0 None)))"
    using next_loop_best [of "[]" None rss 0] nodes by (simp add: best_of_def)
  have "rss \<noteq> []" using W by (auto simp: total_weight_def)
  then obtain b where b: "snd (snd (next_loop [] rss 0 None)) = Some b" "b < length rss"
    and max: "\<forall>w \<in> set ?up. currentWeight w \<le> currentWeight (?up ! b)"
    using best by (auto simp: best_of_def split: option.splits)
  let ?r = "?up[b := (?up ! b)\<lparr>currentWeight := currentWeight (?up ! b) - total_weight rss\<rparr>]"
  have sum: "sum_list (map currentWeight ?up) = total_weight rss"
    using zero by (simp add: up o_def sum_list_addf total_weight_def)
  have pos: "0 < currentWeight (?up ! b)"
  proof (rule ccontr)
    assume "\<not> 0 < currentWeight (?up ! b)"
    with max have "\<forall>x \<in> set (map currentWeight ?up). x \<le> 0" by fastforce
    then have "sum_list (map currentWeight ?up) \<le> 0" by (intro sum_list_nonpos) auto
    with sum W show False by simp
  qed
  show thesis
  proof
    show "next_index rss = (Some b, ?r)"
      using b nodes tot by (cases "next_loop [] rss 0 None") (auto simp: next_index_def)
    show "map Weight ?r = map Weight rss" "map cluster ?r = map cluster rss"
      using b(2) unfolding up by (auto simp: list_eq_iff_nth_eq nth_list_update)
    show "steady ?r"
      using b(2) st unfolding up steady_def
      by (simp add: all_set_conv_all_nth nth_list_update)
    show "currentWeight (?r ! i) =
       currentWeight (rss ! i) + Weight (rss ! i) - (if i = b then total_weight rss else 0)"
      if "i < length rss" for i
      using that b(2) by (simp add: up nth_list_update)
    show "- total_weight rss < currentWeight (?r ! b)" using pos b(2) by simp
  qed (fact b(2))
qed

text \<open>The indices chosen by \<open>k\<close> calls.\<close>

fun index_run :: "nat \<Rightarrow> weight_node list \<Rightarrow> nat list \<times> weight_node list" where
  "index_run 0 rss = ([], rss)"
| "index_run (Suc k) rss =
     (case next_index rss of
        (None, rss1) \<Rightarrow> ([], rss1)
      | (Some b, rss1) \<Rightarrow> (let (bs, rss2) = index_run k rss1 in (b # bs, rss2)))"

text \<open>
  After \<open>k\<close> calls the counter of node \<open>i\<close> is \<open>k\<close> times its weight less the total for
  every time it was chosen; counters stay above minus the total.
\<close>

lemma index_run_invariant:
  assumes "steady rss" and "0 < total_weight rss" and "sum_list (map currentWeight rss) = 0"
    and "\<forall>i < length rss. - total_weight rss < currentWeight (rss ! i)"
    and "index_run k rss = (bs, rss')"
  shows "length bs = k \<and> set bs \<subseteq> {..<length rss} \<and> map cluster rss' = map cluster rss \<and>
    map Weight rss' = map Weight rss \<and>
    fst (next_run k rss) = map (\<lambda>b. cluster (rss ! b)) bs \<and> snd (next_run k rss) = rss' \<and>
    (\<forall>i < length rss. currentWeight (rss' ! i) =
        currentWeight (rss ! i) + int k * Weight (rss ! i) - total_weight rss * int (count_list bs i) \<and>
        - total_weight rss < currentWeight (rss' ! i))"
  using assms
proof (induction k arbitrary: rss bs)
  case (Suc k)
  obtain b rss1 where step: "next_index rss = (Some b, rss1)" "b < length rss"
      "map Weight rss1 = map Weight rss" "map cluster rss1 = map cluster rss" "steady rss1"
      "\<And>i. i < length rss \<Longrightarrow> currentWeight (rss1 ! i) =
         currentWeight (rss ! i) + Weight (rss ! i) - (if i = b then total_weight rss else 0)"
      "- total_weight rss < currentWeight (rss1 ! b)"
    using next_index_step [OF Suc.prems(1-3)] by metis
  have len: "length rss1 = length rss" using step(3) by (metis length_map)
  have tw: "total_weight rss1 = total_weight rss" using step(3) by (simp add: total_weight_def)
  have W1: "Weight (rss1 ! i) = Weight (rss ! i)" and C1: "cluster (rss1 ! i) = cluster (rss ! i)"
    if "i < length rss" for i
    using that step(3,4) len by (metis nth_map)+
  obtain bs1 where rest: "index_run k rss1 = (bs1, rss')" "bs = b # bs1"
    using Suc.prems(5) step(1) by (auto split: prod.splits)
  have low: "\<forall>i < length rss1. - total_weight rss1 < currentWeight (rss1 ! i)"
  proof (intro allI impI)
    fix i assume i: "i < length rss1"
    show "- total_weight rss1 < currentWeight (rss1 ! i)"
    proof (cases "i = b")
      case False
      moreover have "0 \<le> Weight (rss ! i)" using Suc.prems(1) i len by (auto simp: steady_def)
      ultimately show ?thesis using step(6) [of i] i len tw Suc.prems(4) by fastforce
    qed (use step(7) tw in simp)
  qed
  have sum0: "sum_list (map currentWeight rss1) = 0"
  proof -
    have "sum_list (map currentWeight rss1) = (\<Sum>i<length rss. currentWeight (rss1 ! i))"
      by (simp add: sum_list_sum_nth len atLeast0LessThan)
    also have "\<dots> = (\<Sum>i<length rss. currentWeight (rss ! i)) + (\<Sum>i<length rss. Weight (rss ! i))
        - (\<Sum>i<length rss. if i = b then total_weight rss else 0)"
      by (simp add: step(6) sum.distrib sum_subtractf)
    also have "\<dots> = 0"
      using Suc.prems(3) step(2)
      by (simp add: sum_list_sum_nth atLeast0LessThan total_weight_def)
    finally show ?thesis .
  qed
  note IH = Suc.IH [OF step(5) _ sum0 low rest(1)]
  have nx: "Next rss = (cluster (rss ! b), rss1)"
    using step(1,2) C1 by (simp add: Next_def)
  show ?case
    using IH Suc.prems(2) tw len step(2,3,4) rest(2) W1 C1 nx step(6)
    by (auto simp: split_beta algebra_simps subset_iff)
qed auto

text \<open>Nodes that have just been added.\<close>

definition fresh_nodes :: "weight_node list \<Rightarrow> bool" where
  "fresh_nodes rss \<longleftrightarrow> (\<forall>w \<in> set rss. currentWeight w = 0)"

lemma sum_list_fresh: "fresh_nodes rss \<Longrightarrow> sum_list (map currentWeight rss) = 0"
  by (induction rss) (simp_all add: fresh_nodes_def)

lemma count_list_map_index:
  fixes n :: nat
  assumes "set bs \<subseteq> {..<n}"
  shows "count_list (map f bs) c = (\<Sum>i<n. if f i = c then count_list bs i else 0)"
  using assms
proof (induction bs)
  case (Cons b bs)
  then have b: "b < n" by simp
  have "(\<Sum>i<n. if f i = c then count_list (b # bs) i else 0) =
      (\<Sum>i<n. (if f i = c then count_list bs i else 0) + (if b = i then of_bool (f b = c) else 0))"
    by (rule sum.cong) auto
  also have "\<dots> = (\<Sum>i<n. if f i = c then count_list bs i else 0) + of_bool (f b = c)"
    using b by (simp only: sum.distrib sum.delta' finite_lessThan lessThan_iff if_True)
  finally show ?case using Cons by simp
qed simp

lemma full_cycle_counts:
  assumes "steady rss" and "0 < total_weight rss" and "fresh_nodes rss"
    and "index_run (nat (total_weight rss)) rss = (bs, rss')"
  shows "\<forall>i < length rss. int (count_list bs i) = Weight (rss ! i)"
proof -
  let ?W = "total_weight rss"
  have cw: "currentWeight (rss ! i) = 0" if "i < length rss" for i
    using assms(3) that by (auto simp: fresh_nodes_def)
  have inv: "length bs = nat ?W \<and> set bs \<subseteq> {..<length rss} \<and>
    (\<forall>i < length rss. - ?W < ?W * Weight (rss ! i) - ?W * int (count_list bs i))"
    using index_run_invariant [OF assms(1,2) sum_list_fresh [OF assms(3)] _ assms(4)] assms(2) cw
    by auto
  have le: "int (count_list bs i) \<le> Weight (rss ! i)" if "i < length rss" for i
  proof -
    have "0 < ?W * (Weight (rss ! i) - int (count_list bs i) + 1)"
      using inv that by (simp add: algebra_simps)
    then have "0 < Weight (rss ! i) - int (count_list bs i) + 1"
      using assms(2) by (simp add: zero_less_mult_iff)
    then show ?thesis by simp
  qed
  have "(\<Sum>i<length rss. int (count_list bs i)) = int (length bs)"
    using count_list_map_index [of bs "length rss" "\<lambda>_. ()" "()"] inv
    by (simp add: count_list_eq_length_filter flip: of_nat_sum)
  also have "\<dots> = (\<Sum>i<length rss. Weight (rss ! i))"
    using inv assms(2) by (simp add: total_weight_def sum_list_sum_nth atLeast0LessThan)
  finally have "(\<Sum>i<length rss. Weight (rss ! i) - int (count_list bs i)) = 0"
    by (simp add: sum_subtractf)
  with le have "\<forall>i \<in> {..<length rss}. Weight (rss ! i) - int (count_list bs i) = 0"
    by (subst (asm) sum_nonneg_eq_0_iff) auto
  then show ?thesis by simp
qed

text \<open>
  C14. Weighted round robin is exact: over a full cycle of as many calls as the weights
  sum up to, each cluster is returned exactly as often as its weight says (the sum of
  its weights when it is listed more than once), whatever the order of the nodes; and
  the cycle returns the balancer to its initial counters, so the next cycle is the same.
\<close>

theorem next_run_full_cycle:
  assumes "steady rss" and "0 < total_weight rss" and "fresh_nodes rss"
  shows "int (count_list (fst (next_run (nat (total_weight rss)) rss)) c) =
      sum_list (map Weight (filter (\<lambda>w. cluster w = c) rss)) \<and>
    map currentWeight (snd (next_run (nat (total_weight rss)) rss)) = map currentWeight rss"
proof -
  let ?k = "nat (total_weight rss)"
  obtain bs rss' where run: "index_run ?k rss = (bs, rss')" by fastforce
  have cw: "currentWeight (rss ! i) = 0" if "i < length rss" for i
    using assms(3) that by (auto simp: fresh_nodes_def)
  then have low: "\<forall>i < length rss. - total_weight rss < currentWeight (rss ! i)"
    using assms(2) by simp
  note inv = index_run_invariant [OF assms(1,2) sum_list_fresh [OF assms(3)] low run]
  note counts = full_cycle_counts [OF assms run]
  have "int (count_list (fst (next_run ?k rss)) c) =
      (\<Sum>i<length rss. if cluster (rss ! i) = c then int (count_list bs i) else 0)"
    using inv count_list_map_index [of bs "length rss" "\<lambda>b. cluster (rss ! b)" c]
    by (simp add: if_distrib [of int] cong: if_cong)
  also have "\<dots> = (\<Sum>i<length rss. if cluster (rss ! i) = c then Weight (rss ! i) else 0)"
    using counts by (intro sum.cong) auto
  also have "\<dots> = sum_list (map Weight (filter (\<lambda>w. cluster w = c) rss))"
    unfolding sum_list_map_filter' by (simp add: sum_list_sum_nth atLeast0LessThan)
  finally have "int (count_list (fst (next_run ?k rss)) c) = \<dots>" .
  moreover have "map currentWeight rss' = map currentWeight rss"
  proof (rule nth_equalityI)
    show len: "length (map currentWeight rss') = length (map currentWeight rss)"
      using inv by (metis length_map)
    show "map currentWeight rss' ! i = map currentWeight rss ! i"
      if "i < length (map currentWeight rss')" for i
      using that len inv counts assms(2) by simp
  qed
  ultimately show ?thesis using inv by simp
qed

definition sample_nodes :: "weight_node list" where
  "sample_nodes =
     [\<lparr>cluster = ''a'', Weight = 5, currentWeight = 0, effectiveWeight = 5\<rparr>,
      \<lparr>cluster = ''b'', Weight = 1, currentWeight = 0, effectiveWeight = 1\<rparr>,
      \<lparr>cluster = ''c'', Weight = 1, currentWeight = 0, effectiveWeight = 1\<rparr>]"

theorem next_run_full_cycle_witness:
  "fst (next_run 7 sample_nodes) = [''a'', ''a'', ''b'', ''a'', ''c'', ''a'', ''a''] \<and>
   count_list (fst (next_run 7 sample_nodes)) ''a'' = 5"
proof -
  have "steady sample_nodes" "fresh_nodes sample_nodes" "total_weight sample_nodes = 7"
    by (simp_all add: sample_nodes_def steady_def fresh_nodes_def total_weight_def)
  moreover have "fst (next_run 7 sample_nodes) = [''a'', ''a'', ''b'', ''a'', ''c'', ''a'', ''a'']"
    by code_simp
  ultimately show ?thesis
    using next_run_full_cycle [of sample_nodes "''a''"] by (simp add: sample_nodes_def)
qed

text \<open>
  Balancers built by \<open>Add\<close> alone satisfy the hypotheses, for non-negative weights.
\<close>

lemma Add_keeps:
  assumes "Add params rss = Inr rss'" "steady rss" "fresh_nodes rss"
    and "\<And>w. Atoi (params ! 1) = Some w \<Longrightarrow> 0 \<le> w"
  shows "steady rss' \<and> fresh_nodes rss' \<and> (\<exists>n. rss' = rss @ [n] \<and> cluster n = params ! 0)"
  using assms by (auto simp: Add_def steady_def fresh_nodes_def split: if_splits option.splits)

end
