(* ===== verification/Route_Match.thy ===== *)
theory Route_Match
  imports Load_Balancer
begin

text \<open>
  The routing data of \<open>cmd/proxy/data/config.go\<close> with the types of
  \<open>cmd/config/config.go\<close>: loading services, clusters, rules and balancers, and choosing
  an endpoint for a request.

  Balancers are shared through pointers and change when they select, so they live in a
  store and the structures hold addresses; \<open>None\<close> is a nil pointer. A Go map whose
  iteration order matters is an association list in the order of the iteration; the
  endpoints of a service are a map, and the order in which \<open>range\<close> visits them is an
  argument. Regular expression matching and the YAML decoder are arguments. A panic is
  \<open>None\<close> when loading and \<open>MatchPanic\<close> when matching.
\<close>

section \<open>Data\<close>

definition ROUND_ROBIN :: string where "ROUND_ROBIN = []"
definition LEAST_CONN :: string where "LEAST_CONN = []"
definition RANDOM :: string where "RANDOM = []"
definition PASSTHROUGH :: string where "PASSTHROUGH = []"

lemmas simple_lb_consts = ROUND_ROBIN_def LEAST_CONN_def RANDOM_def PASSTHROUGH_def

record string_match =
  Exact :: string
  Prefix :: string
  Regex :: string

record http_match_request =
  mr_Uri :: string_match
  mr_Scheme :: string_match
  mr_Method :: string_match
  mr_Authority :: string_match
  mr_Headers :: "(string \<times> string_match) list"
  mr_Port :: int
  mr_QueryParams :: "(string \<times> string_match) list"
  mr_IgnoreUriCase :: bool
  mr_WithoutHeaders :: "(string \<times> string_match) list"

record http_route_destination =
  Destination :: string
  dest_Weight :: int

record http_route =
  route_Match :: "http_match_request list"
  route_Route :: "http_route_destination list"
  route_LoadBalancer :: "nat option"

record route_rule =
  Http :: "http_route option list"
  Order :: int

record load_balancer_settings =
  Simple :: string
  lb_LoadBalancer :: "nat option"

record cluster_config =
  cl_Name :: string
  cl_Endpoints :: "endpoint list"
  TrafficPolicy :: load_balancer_settings

record service =
  sv_Name :: string
  sv_Hosts :: "string list"
  sv_Clusters :: "cluster_config list"
  sv_Rules :: "route_rule list"
  LB :: "nat option"

record maps =
  ServiceMap :: "string \<rightharpoonup> service"
  RuleMap :: "string \<rightharpoonup> route_rule list"
  Endpoints :: "string \<rightharpoonup> (string \<rightharpoonup> endpoint)"
  Clusters :: "string \<rightharpoonup> (string \<rightharpoonup> cluster_config)"

text \<open>The store of balancers: endpoint balancers and weighted cluster balancers.\<close>

record store =
  next_addr :: nat
  lbs :: "nat \<rightharpoonup> balancer"
  wrrs :: "nat \<rightharpoonup> weight_node list"

record route_request =
  rq_Host :: string
  rq_Method :: string
  rq_Authority :: string
  rq_Scheme :: string
  rq_RequestURI :: string
  rq_Header :: "string \<Rightarrow> string"
  rq_Query :: "string \<Rightarrow> string"
  rq_Port :: int

datatype match_result =
    MatchError string
  | MatchEndpoint "endpoint option"
  | MatchPanic

definition NewMaps :: maps where
  "NewMaps = \<lparr>ServiceMap = Map.empty, RuleMap = Map.empty, Endpoints = Map.empty, Clusters = Map.empty\<rparr>"

definition empty_store :: store where
  "empty_store = \<lparr>next_addr = 0, lbs = Map.empty, wrrs = Map.empty\<rparr>"

section \<open>Queries\<close>

definition GetService :: "maps \<Rightarrow> string \<Rightarrow> service option" where
  "GetService m host = ServiceMap m host"

definition GetRule :: "maps \<Rightarrow> string \<Rightarrow> route_rule list option" where
  "GetRule m svc = RuleMap m svc"

definition GetServiceRule :: "maps \<Rightarrow> string \<Rightarrow> route_rule list option" where
  "GetServiceRule m host = (case GetService m host of None \<Rightarrow> None | Some s \<Rightarrow> GetRule m (sv_Name s))"

definition GetEndpoints :: "((string \<rightharpoonup> endpoint) \<Rightarrow> endpoint list) \<Rightarrow> maps \<Rightarrow> string \<Rightarrow> endpoint list" where
  "GetEndpoints order m svc = (case Endpoints m svc of None \<Rightarrow> [] | Some em \<Rightarrow> order em)"

definition GetCluster ::
  "((string \<rightharpoonup> cluster_config) \<Rightarrow> cluster_config list) \<Rightarrow> maps \<Rightarrow> string \<Rightarrow> cluster_config list" where
  "GetCluster order m svc = (case Clusters m svc of None \<Rightarrow> [] | Some cm \<Rightarrow> order cm)"

section \<open>Loading\<close>

definition alloc_lb :: "balancer \<Rightarrow> store \<Rightarrow> nat \<times> store" where
  "alloc_lb b st = (next_addr st, st\<lparr>next_addr := next_addr st + 1, lbs := (lbs st)(next_addr st \<mapsto> b)\<rparr>)"

definition alloc_wrr :: "weight_node list \<Rightarrow> store \<Rightarrow> nat \<times> store" where
  "alloc_wrr ns st = (next_addr st, st\<lparr>next_addr := next_addr st + 1, wrrs := (wrrs st)(next_addr st \<mapsto> ns)\<rparr>)"

definition simple_balancer :: "string \<Rightarrow> balancer" where
  "simple_balancer simple =
     (if simple = ROUND_ROBIN then RoundRobinLoadBalancer 0
      else if simple = RANDOM then RandomLoadBalancer
      else if simple = LEAST_CONN then LastConnLoadBalancer (- 1)
      else if simple = PASSTHROUGH then PassThroughLoadBalancer
      else RoundRobinLoadBalancer 0)"

definition endpoint_key :: "endpoint \<Rightarrow> string" where
  "endpoint_key e = Ip e @ '':'' @ Port e"

definition init_cluster :: "cluster_config \<Rightarrow> store \<Rightarrow> cluster_config \<times> store" where
  "init_cluster c st =
     (case lb_LoadBalancer (TrafficPolicy c) of
        Some _ \<Rightarrow> (c, st)
      | None \<Rightarrow>
          let (a, st') = alloc_lb (simple_balancer (Simple (TrafficPolicy c))) st
          in (c\<lparr>TrafficPolicy := (TrafficPolicy c)\<lparr>lb_LoadBalancer := Some a\<rparr>\<rparr>, st'))"

fun load_clusters :: "cluster_config list
    \<Rightarrow> (string \<rightharpoonup> cluster_config) \<times> (string \<rightharpoonup> endpoint) \<times> store
    \<Rightarrow> (string \<rightharpoonup> cluster_config) \<times> (string \<rightharpoonup> endpoint) \<times> store" where
  "load_clusters [] s = s"
| "load_clusters (c # cs) (cm, em, st) =
     (let (c', st') = init_cluster c st in
      load_clusters cs
        (cm(cl_Name c' \<mapsto> c'), fold (\<lambda>e m. m(endpoint_key e \<mapsto> e)) (cl_Endpoints c') em, st'))"

text \<open>
  The balancer of a route: one node per destination with a positive weight and a
  cluster, added as decimal text. \<open>Add\<close> cannot fail here; its error is ignored.
\<close>

fun add_destinations :: "http_route_destination list \<Rightarrow> weight_node list \<Rightarrow> weight_node list" where
  "add_destinations [] ns = ns"
| "add_destinations (d # ds) ns =
     (if dest_Weight d \<le> 0 then add_destinations ds ns
      else if Destination d = [] then add_destinations ds ns
      else (case Add [Destination d, nat_digits (nat (dest_Weight d))] ns of
              Inl _ \<Rightarrow> add_destinations ds ns
            | Inr ns' \<Rightarrow> add_destinations ds ns'))"

definition init_route :: "http_route \<Rightarrow> store \<Rightarrow> http_route \<times> store" where
  "init_route r st =
     (case route_LoadBalancer r of
        Some _ \<Rightarrow> (r, st)
      | None \<Rightarrow>
          let (a, st') = alloc_wrr (add_destinations (route_Route r) []) st
          in (r\<lparr>route_LoadBalancer := Some a\<rparr>, st'))"

text \<open>A nil entry of \<open>rule.Http\<close> is dereferenced: a panic.\<close>

fun init_routes :: "http_route option list \<Rightarrow> store \<Rightarrow> (http_route option list \<times> store) option" where
  "init_routes [] st = Some ([], st)"
| "init_routes (None # rs) st = None"
| "init_routes (Some r # rs) st =
     (let (r', st1) = init_route r st in
      map_option (\<lambda>(rs', st2). (Some r' # rs', st2)) (init_routes rs st1))"

fun load_rules :: "string \<Rightarrow> route_rule list \<Rightarrow> maps \<times> store \<Rightarrow> (maps \<times> store) option" where
  "load_rules svc [] s = Some s"
| "load_rules svc (rule # rs) (m, st) =
     (case init_routes (Http rule) st of
        None \<Rightarrow> None
      | Some (http', st') \<Rightarrow>
          let old = (case RuleMap m svc of None \<Rightarrow> [] | Some l \<Rightarrow> l)
          in load_rules svc rs
               (m\<lparr>RuleMap := (RuleMap m)(svc \<mapsto> old @ [rule\<lparr>Http := http'\<rparr>])\<rparr>, st'))"

definition load_service :: "service \<Rightarrow> maps \<times> store \<Rightarrow> (maps \<times> store) option" where
  "load_service s0 = (\<lambda>(m, st0).
     let (svc, st1) =
           (case LB s0 of
              Some _ \<Rightarrow> (s0, st0)
            | None \<Rightarrow> let (a, st') = alloc_lb (RoundRobinLoadBalancer 0) st0
                      in (s0\<lparr>LB := Some a\<rparr>, st'));
         cm0 = (case Clusters m (sv_Name svc) of None \<Rightarrow> Map.empty | Some c \<Rightarrow> c);
         em0 = (case Endpoints m (sv_Name svc) of None \<Rightarrow> Map.empty | Some e \<Rightarrow> e);
         (cm, em, st2) = load_clusters (sv_Clusters svc) (cm0, em0, st1);
         m1 = m\<lparr>Clusters := (Clusters m)(sv_Name svc \<mapsto> cm),
               Endpoints := (Endpoints m)(sv_Name svc \<mapsto> em)\<rparr>;
         m2 = m1\<lparr>ServiceMap := fold (\<lambda>h sm. sm(h \<mapsto> svc)) (sv_Hosts svc) (ServiceMap m1)\<rparr>
     in load_rules (sv_Name svc) (sv_Rules svc) (m2, st2))"

fun load_services :: "service list \<Rightarrow> maps \<times> store \<Rightarrow> (maps \<times> store) option" where
  "load_services [] s = Some s"
| "load_services (svc # rest) s =
     (case load_service svc s of None \<Rightarrow> None | Some s' \<Rightarrow> load_services rest s')"

text \<open>\<open>unmarshal\<close> stands for reading, YAML decoding and the default values.\<close>

definition LoadServiceData ::
  "(string \<Rightarrow> string + service list) \<Rightarrow> string \<Rightarrow> maps \<times> store \<Rightarrow> (maps \<times> store) option" where
  "LoadServiceData unmarshal yaml_file s =
     (case unmarshal yaml_file of Inl e \<Rightarrow> Some s | Inr services \<Rightarrow> load_services services s)"

section \<open>Matching\<close>

definition sm_Empty :: "string_match \<Rightarrow> bool" where
  "sm_Empty sm \<longleftrightarrow> \<not> (Prefix sm \<noteq> [] \<or> Exact sm \<noteq> [] \<or> Regex sm \<noteq> [])"

definition checkMatch ::
  "(string \<Rightarrow> string \<Rightarrow> bool option) \<Rightarrow> string_match \<Rightarrow> string \<Rightarrow> bool \<Rightarrow> bool \<times> bool" where
  "checkMatch regexp sm reqV ignoreCase =
     (if \<not> sm_Empty sm then
        (let v = (if ignoreCase then ToLower reqV else reqV) in
         (if Exact sm \<noteq> [] then v = (if ignoreCase then ToLower (Exact sm) else Exact sm)
          else if Prefix sm \<noteq> [] then
            HasPrefix v (if ignoreCase then ToLower (Prefix sm) else Prefix sm)
          else if Regex sm \<noteq> [] then regexp (Regex sm) v = Some True
          else False, True))
      else (False, False))"

text \<open>The guard \<open>needMatch && !matched\<close> of the single-valued conditions.\<close>

definition passes :: "bool \<times> bool \<Rightarrow> bool" where
  "passes r \<longleftrightarrow> \<not> (snd r \<and> \<not> fst r)"

text \<open>
  The three loops over maps: \<open>headerMatched\<close>, \<open>headerWithOutMatched\<close> and
  \<open>paramMatched\<close> after the loop.
\<close>

fun header_loop ::
  "(string \<Rightarrow> string \<Rightarrow> bool option) \<Rightarrow> (string \<Rightarrow> string) \<Rightarrow> (string \<times> string_match) list \<Rightarrow> bool \<Rightarrow> bool" where
  "header_loop regexp hdr [] acc = acc"
| "header_loop regexp hdr ((h, sm) # rest) acc =
     (let (matched, needMatch) = checkMatch regexp sm (hdr h) False in
      if needMatch \<and> \<not> matched then False else header_loop regexp hdr rest matched)"

fun without_loop ::
  "(string \<Rightarrow> string \<Rightarrow> bool option) \<Rightarrow> (string \<Rightarrow> string) \<Rightarrow> (string \<times> string_match) list \<Rightarrow> bool" where
  "without_loop regexp hdr [] = False"
| "without_loop regexp hdr ((h, sm) # rest) =
     (let (matched, needMatch) = checkMatch regexp sm (hdr h) False in
      if needMatch \<and> matched then True else without_loop regexp hdr rest)"

fun param_loop ::
  "(string \<Rightarrow> string \<Rightarrow> bool option) \<Rightarrow> (string \<Rightarrow> string) \<Rightarrow> (string \<times> string_match) list \<Rightarrow> bool" where
  "param_loop regexp query [] = True"
| "param_loop regexp query ((p, sm) # rest) =
     (let (matched, needMatch) = checkMatch regexp sm (query p) False in
      if needMatch \<and> matched then False else param_loop regexp query rest)"

text \<open>All conditions of one \<open>match\<close> entry: none of the \<open>continue\<close> statements is taken.\<close>

definition entry_accepts ::
  "(string \<Rightarrow> string \<Rightarrow> bool option) \<Rightarrow> route_request \<Rightarrow> http_match_request \<Rightarrow> bool" where
  "entry_accepts regexp req mr \<longleftrightarrow>
     passes (checkMatch regexp (mr_Method mr) (rq_Method req) False) \<and>
     passes (checkMatch regexp (mr_Authority mr) (rq_Authority req) False) \<and>
     passes (checkMatch regexp (mr_Scheme mr) (rq_Scheme req) False) \<and>
     passes (checkMatch regexp (mr_Uri mr) (rq_RequestURI req) (mr_IgnoreUriCase mr)) \<and>
     \<not> (mr_Headers mr \<noteq> [] \<and> \<not> header_loop regexp (rq_Header req) (mr_Headers mr) True) \<and>
     \<not> (mr_WithoutHeaders mr \<noteq> [] \<and> without_loop regexp (rq_Header req) (mr_WithoutHeaders mr)) \<and>
     \<not> (mr_QueryParams mr \<noteq> [] \<and> \<not> param_loop regexp (rq_Query req) (mr_QueryParams mr)) \<and>
     \<not> (mr_Port mr \<noteq> 0 \<and> mr_Port mr \<noteq> rq_Port req)"

text \<open>
  What happens once an entry accepts and its route has a balancer: the cluster is
  chosen, looked up, and one of its endpoints is selected.
\<close>

definition run_lb :: "nat \<Rightarrow> nat \<Rightarrow> endpoint list \<Rightarrow> store \<Rightarrow> match_result \<times> store" where
  "run_lb rand a es st =
     (case lbs st a of
        None \<Rightarrow> (MatchPanic, st)
      | Some b \<Rightarrow>
          (case Select rand b es of
             None \<Rightarrow> (MatchPanic, st)
           | Some (e, b') \<Rightarrow> (MatchEndpoint e, st\<lparr>lbs := (lbs st)(a \<mapsto> b')\<rparr>)))"

definition route_action :: "nat \<Rightarrow> maps \<Rightarrow> service \<Rightarrow> nat \<Rightarrow> store \<Rightarrow> match_result \<times> store" where
  "route_action rand m svc a st =
     (case wrrs st a of
        None \<Rightarrow> (MatchPanic, st)
      | Some ns \<Rightarrow>
          let (c, ns') = WRR_Select [] ns; st1 = st\<lparr>wrrs := (wrrs st)(a \<mapsto> ns')\<rparr> in
          (case Clusters m (sv_Name svc) of
             None \<Rightarrow> (MatchError ''service no cluster'', st1)
           | Some clusterMap \<Rightarrow>
               (case clusterMap c of
                  None \<Rightarrow> (MatchError ''cluster not found'', st1)
                | Some clusterV \<Rightarrow>
                    (case lb_LoadBalancer (TrafficPolicy clusterV) of
                       None \<Rightarrow> (MatchError ''cluster not found'', st1)
                     | Some b \<Rightarrow>
                         if Simple (TrafficPolicy clusterV) = PASSTHROUGH
                         then (MatchError ''PassThrough'', st1)
                         else run_lb rand b (cl_Endpoints clusterV) st1))))"

text \<open>The nested loops: the first accepting entry of a route that has a balancer acts.\<close>

definition route_candidate ::
  "(string \<Rightarrow> string \<Rightarrow> bool option) \<Rightarrow> route_request \<Rightarrow> http_route option \<Rightarrow> nat option" where
  "route_candidate regexp req r =
     (case r of
        None \<Rightarrow> None
      | Some route \<Rightarrow>
          if list_ex (entry_accepts regexp req) (route_Match route) then route_LoadBalancer route
          else None)"

fun first_some :: "('a \<Rightarrow> 'b option) \<Rightarrow> 'a list \<Rightarrow> 'b option" where
  "first_some f [] = None"
| "first_some f (x # xs) = (case f x of None \<Rightarrow> first_some f xs | Some y \<Rightarrow> Some y)"

definition Match ::
  "(string \<Rightarrow> string \<Rightarrow> bool option) \<Rightarrow> ((string \<rightharpoonup> endpoint) \<Rightarrow> endpoint list) \<Rightarrow> nat
     \<Rightarrow> route_request \<Rightarrow> maps \<times> store \<Rightarrow> match_result \<times> store" where
  "Match regexp order rand req = (\<lambda>(m, st).
     case GetService m (rq_Host req) of
       None \<Rightarrow> (MatchError ''no service'', st)
     | Some svc \<Rightarrow>
         let rules = (case GetRule m (sv_Name svc) of None \<Rightarrow> [] | Some l \<Rightarrow> l) in
         if rules = [] then
           let endpoints = GetEndpoints order m (sv_Name svc) in
           if endpoints = [] then (MatchError ''no cluster'', st)
           else (case LB svc of
                   None \<Rightarrow> (MatchPanic, st)
                 | Some a \<Rightarrow> run_lb rand a endpoints st)
         else
           (case first_some (\<lambda>rule. first_some (route_candidate regexp req) (Http rule)) rules of
              None \<Rightarrow> (MatchError ''no endpoint'', st)
            | Some a \<Rightarrow> route_action rand m svc a st))"

section \<open>Selected endpoints are configured\<close>

lemma first_some_Some: "first_some f xs = Some y \<Longrightarrow> \<exists>x \<in> set xs. f x = Some y"
  by (induction xs) (auto split: option.splits)

lemma run_lb_member:
  "run_lb rand a es st = (MatchEndpoint (Some e), st') \<Longrightarrow> e \<in> set es"
  using lb.select_member by (auto simp: run_lb_def split: option.splits)

lemma route_action_member:
  assumes "route_action rand m svc a st = (MatchEndpoint (Some e), st')"
  shows "\<exists>cm c cl. Clusters m (sv_Name svc) = Some cm \<and> cm c = Some cl \<and> e \<in> set (cl_Endpoints cl)"
  using assms
  by (auto simp: route_action_def Let_def split: option.splits prod.splits if_splits
      dest!: run_lb_member)

text \<open>
  C15. Routing stays inside the configuration: whenever \<open>Match\<close> returns an endpoint, the
  request's host belongs to a service, and the endpoint is one of that service's own
  endpoints or of one of its clusters.
\<close>

theorem Match_member:
  assumes "Match regexp order rand req (m, st) = (MatchEndpoint (Some e), st')"
    and "\<And>em. set (order em) \<subseteq> ran em"
  shows "\<exists>svc. ServiceMap m (rq_Host req) = Some svc \<and>
    ((\<exists>em. Endpoints m (sv_Name svc) = Some em \<and> e \<in> ran em) \<or>
     (\<exists>cm c cl. Clusters m (sv_Name svc) = Some cm \<and> cm c = Some cl \<and> e \<in> set (cl_Endpoints cl)))"
proof -
  obtain svc where svc: "ServiceMap m (rq_Host req) = Some svc"
    using assms(1) by (auto simp: Match_def GetService_def split: option.splits)
  consider a where "run_lb rand a (GetEndpoints order m (sv_Name svc)) st = (MatchEndpoint (Some e), st')"
    | a where "route_action rand m svc a st = (MatchEndpoint (Some e), st')"
    using assms(1) svc
    by (auto simp: Match_def GetService_def Let_def split: option.splits if_splits)
  then show ?thesis
  proof cases
    case 1
    then have "e \<in> set (GetEndpoints order m (sv_Name svc))" by (rule run_lb_member)
    with assms(2) svc show ?thesis
      by (cases "Endpoints m (sv_Name svc)") (auto simp: GetEndpoints_def)
  next
    case 2
    with svc route_action_member show ?thesis by blast
  qed
qed

theorem Match_member_witness:
  "let e = \<lparr>Ip = ''10.0.0.1'', Port = ''80''\<rparr>;
       svc = \<lparr>sv_Name = ''s'', sv_Hosts = [''h''], sv_Clusters = [], sv_Rules = [], LB = Some 0\<rparr>;
       m = NewMaps\<lparr>ServiceMap := [''h'' \<mapsto> svc], Endpoints := [''s'' \<mapsto> [''k'' \<mapsto> e]]\<rparr>;
       st = empty_store\<lparr>lbs := [0 \<mapsto> RandomLoadBalancer]\<rparr>;
       req = \<lparr>rq_Host = ''h'', rq_Method = [], rq_Authority = [], rq_Scheme = [], rq_RequestURI = [],
         rq_Header = (\<lambda>_. []), rq_Query = (\<lambda>_. []), rq_Port = 0\<rparr>;
       order = (\<lambda>em. case em ''k'' of None \<Rightarrow> [] | Some e \<Rightarrow> [e])
   in fst (Match (\<lambda>_ _. None) order 7 req (m, st)) = MatchEndpoint (Some e) \<and>
      (\<exists>svc. ServiceMap m ''h'' = Some svc \<and> (\<exists>em. Endpoints m (sv_Name svc) = Some em \<and> e \<in> ran em))"
proof -
  let ?e = "\<lparr>Ip = ''10.0.0.1'', Port = ''80''\<rparr>"
  let ?svc = "\<lparr>sv_Name = ''s'', sv_Hosts = [''h''], sv_Clusters = [], sv_Rules = [], LB = Some 0\<rparr>"
  let ?m = "NewMaps\<lparr>ServiceMap := [''h'' \<mapsto> ?svc], Endpoints := [''s'' \<mapsto> [''k'' \<mapsto> ?e]]\<rparr>"
  let ?st = "empty_store\<lparr>lbs := [0 \<mapsto> RandomLoadBalancer]\<rparr>"
  let ?req = "\<lparr>rq_Host = ''h'', rq_Method = [], rq_Authority = [], rq_Scheme = [], rq_RequestURI = [],
         rq_Header = (\<lambda>_. []), rq_Query = (\<lambda>_. []), rq_Port = 0\<rparr>"
  let ?order = "\<lambda>em :: string \<rightharpoonup> endpoint. case em ''k'' of None \<Rightarrow> [] | Some e \<Rightarrow> [e]"
  have run: "\<exists>st'. Match (\<lambda>_ _. None) ?order 7 ?req (?m, ?st) = (MatchEndpoint (Some ?e), st')"
    by (simp add: Match_def GetService_def GetRule_def GetEndpoints_def NewMaps_def empty_store_def
        run_lb_def Random_Select_def)
  then obtain st' where st': "Match (\<lambda>_ _. None) ?order 7 ?req (?m, ?st) = (MatchEndpoint (Some ?e), st')" ..
  have order: "set (?order em) \<subseteq> ran em" for em by (auto intro: ranI split: option.split)
  from Match_member [OF st' order] st' show ?thesis
    by (auto simp: Let_def NewMaps_def)
qed

section \<open>Pointers\<close>

text \<open>
  Every pointer of the data leads somewhere: services and clusters to an endpoint
  balancer, routes to a weighted balancer. \<open>lb_ok\<close> and \<open>wrr_ok\<close> are the two kinds.
\<close>

definition lb_ok :: "store \<Rightarrow> nat option \<Rightarrow> bool" where
  "lb_ok st p \<longleftrightarrow> (\<exists>a b. p = Some a \<and> lbs st a = Some b)"

definition wrr_ok :: "store \<Rightarrow> nat option \<Rightarrow> bool" where
  "wrr_ok st p \<longleftrightarrow> (\<exists>a ns. p = Some a \<and> wrrs st a = Some ns)"

definition cluster_ok :: "store \<Rightarrow> cluster_config \<Rightarrow> bool" where
  "cluster_ok st c \<longleftrightarrow> lb_ok st (lb_LoadBalancer (TrafficPolicy c))"

definition routes_ok :: "store \<Rightarrow> http_route option list \<Rightarrow> bool" where
  "routes_ok st rs \<longleftrightarrow> (\<forall>r \<in> set rs. \<exists>route. r = Some route \<and> wrr_ok st (route_LoadBalancer route))"

definition wf_data :: "maps \<times> store \<Rightarrow> bool" where
  "wf_data = (\<lambda>(m, st).
     (\<forall>h svc. ServiceMap m h = Some svc \<longrightarrow> lb_ok st (LB svc)) \<and>
     (\<forall>s cm c cl. Clusters m s = Some cm \<longrightarrow> cm c = Some cl \<longrightarrow> cluster_ok st cl) \<and>
     (\<forall>s rules rule. RuleMap m s = Some rules \<longrightarrow> rule \<in> set rules \<longrightarrow> routes_ok st (Http rule)))"

text \<open>The store only grows: addresses that are in use stay in use.\<close>

definition grows :: "store \<Rightarrow> store \<Rightarrow> bool" where
  "grows st st' \<longleftrightarrow> dom (lbs st) \<subseteq> dom (lbs st') \<and> dom (wrrs st) \<subseteq> dom (wrrs st')"

lemma grows_refl [simp]: "grows st st"
  by (simp add: grows_def)

lemma grows_trans: "grows a b \<Longrightarrow> grows b c \<Longrightarrow> grows a c"
  unfolding grows_def by blast

lemma ok_grows:
  assumes "grows st st'"
  shows "lb_ok st p \<Longrightarrow> lb_ok st' p" "wrr_ok st p \<Longrightarrow> wrr_ok st' p"
    "cluster_ok st c \<Longrightarrow> cluster_ok st' c" "routes_ok st rs \<Longrightarrow> routes_ok st' rs"
    "wf_data (m, st) \<Longrightarrow> wf_data (m, st')"
proof -
  show lb: "lb_ok st p \<Longrightarrow> lb_ok st' p" for p
    using assms by (auto simp: lb_ok_def grows_def dom_def subset_iff)
  show wrr: "wrr_ok st p \<Longrightarrow> wrr_ok st' p" for p
    using assms by (auto simp: wrr_ok_def grows_def dom_def subset_iff)
  show cl: "cluster_ok st c \<Longrightarrow> cluster_ok st' c" for c using lb by (simp add: cluster_ok_def)
  show rt: "routes_ok st rs \<Longrightarrow> routes_ok st' rs" for rs
    using wrr unfolding routes_ok_def by blast
  show "wf_data (m, st) \<Longrightarrow> wf_data (m, st')"
    unfolding wf_data_def prod.case using lb cl rt by blast
qed

text \<open>Configuration as the decoder delivers it: no balancer yet, no nil route.\<close>

definition raw_service :: "service \<Rightarrow> bool" where
  "raw_service s \<longleftrightarrow> LB s = None \<and>
     (\<forall>c \<in> set (sv_Clusters s). lb_LoadBalancer (TrafficPolicy c) = None) \<and>
     (\<forall>rule \<in> set (sv_Rules s). \<forall>r \<in> set (Http rule). \<exists>route. r = Some route \<and> route_LoadBalancer route = None)"

lemma init_cluster_ok:
  assumes "init_cluster c st = (c', st')" "lb_LoadBalancer (TrafficPolicy c) = None"
  shows "cluster_ok st' c' \<and> grows st st'"
  using assms by (auto simp: init_cluster_def alloc_lb_def cluster_ok_def lb_ok_def grows_def)

lemma load_clusters_ok:
  assumes "load_clusters cs (cm, em, st) = (cm', em', st')"
    and "\<forall>c \<in> set cs. lb_LoadBalancer (TrafficPolicy c) = None"
    and "\<forall>c cl. cm c = Some cl \<longrightarrow> cluster_ok st cl"
  shows "grows st st' \<and> (\<forall>c cl. cm' c = Some cl \<longrightarrow> cluster_ok st' cl)"
  using assms
proof (induction cs arbitrary: cm em st)
  case (Cons c cs)
  obtain c1 st1 where c1: "init_cluster c st = (c1, st1)" by fastforce
  then have ok: "cluster_ok st1 c1" "grows st st1"
    using init_cluster_ok Cons.prems(2) by auto
  have "\<forall>k cl. (cm(cl_Name c1 \<mapsto> c1)) k = Some cl \<longrightarrow> cluster_ok st1 cl"
    using ok Cons.prems(3) ok_grows(3) [OF ok(2)] by auto
  moreover have "load_clusters cs (cm(cl_Name c1 \<mapsto> c1),
      fold (\<lambda>e m. m(endpoint_key e \<mapsto> e)) (cl_Endpoints c1) em, st1) = (cm', em', st')"
    using Cons.prems(1) c1 by simp
  moreover have "\<forall>c \<in> set cs. lb_LoadBalancer (TrafficPolicy c) = None"
    using Cons.prems(2) by simp
  ultimately show ?case using Cons.IH ok(2) grows_trans by blast
qed simp

lemma init_routes_ok:
  assumes "\<forall>r \<in> set rs. \<exists>route. r = Some route \<and> route_LoadBalancer route = None"
  shows "\<exists>rs' st'. init_routes rs st = Some (rs', st') \<and> grows st st' \<and> routes_ok st' rs'"
  using assms
proof (induction rs arbitrary: st)
  case (Cons r rs)
  then obtain route where r: "r = Some route" "route_LoadBalancer route = None" by auto
  obtain r1 st1 where r1: "init_route route st = (r1, st1)" by fastforce
  then have ok: "wrr_ok st1 (route_LoadBalancer r1)" "grows st st1"
    using r(2) by (auto simp: init_route_def alloc_wrr_def wrr_ok_def grows_def)
  obtain rs' st' where rest: "init_routes rs st1 = Some (rs', st')" "grows st1 st'" "routes_ok st' rs'"
    using Cons.IH [of st1] Cons.prems by auto
  then have "routes_ok st' (Some r1 # rs')"
    using ok ok_grows(2) [OF rest(2)] by (simp add: routes_ok_def)
  with rest ok(2) r r1 show ?case by (auto intro: grows_trans)
qed (simp add: routes_ok_def)

lemma load_rules_ok:
  assumes "wf_data (m, st)"
    and "\<forall>rule \<in> set rs. \<forall>r \<in> set (Http rule). \<exists>route. r = Some route \<and> route_LoadBalancer route = None"
  shows "\<exists>m' st'. load_rules svc rs (m, st) = Some (m', st') \<and> wf_data (m', st')"
  using assms
proof (induction rs arbitrary: m st)
  case (Cons rule rs)
  obtain http' st1 where h: "init_routes (Http rule) st = Some (http', st1)" "grows st st1" "routes_ok st1 http'"
    using init_routes_ok [of "Http rule" st] Cons.prems(2) by auto
  let ?old = "case RuleMap m svc of None \<Rightarrow> [] | Some l \<Rightarrow> l"
  have "wf_data (m\<lparr>RuleMap := (RuleMap m)(svc \<mapsto> ?old @ [rule\<lparr>Http := http'\<rparr>])\<rparr>, st1)"
    using ok_grows(5) [OF h(2) Cons.prems(1)] h(3)
    by (cases "RuleMap m svc") (auto simp: wf_data_def split: if_splits)
  from Cons.IH [OF this] Cons.prems(2) h(1) show ?case by simp
qed simp

lemma fold_hosts: "fold (\<lambda>h sm. sm(h \<mapsto> svc)) hs sm k = (if k \<in> set hs then Some svc else sm k)"
  by (induction hs arbitrary: sm) auto

lemma load_service_ok:
  assumes wf: "wf_data (m, st)" and raw: "raw_service s"
  shows "\<exists>m' st'. load_service s (m, st) = Some (m', st') \<and> wf_data (m', st')"
proof -
  let ?st1 = "snd (alloc_lb (RoundRobinLoadBalancer 0) st)"
  let ?svc = "s\<lparr>LB := Some (fst (alloc_lb (RoundRobinLoadBalancer 0) st))\<rparr>"
  let ?cm0 = "case Clusters m (sv_Name s) of None \<Rightarrow> Map.empty | Some c \<Rightarrow> c"
  let ?em0 = "case Endpoints m (sv_Name s) of None \<Rightarrow> Map.empty | Some e \<Rightarrow> e"
  have g1: "grows st ?st1" and lb1: "lb_ok ?st1 (LB ?svc)"
    by (auto simp: alloc_lb_def grows_def lb_ok_def)
  note wf1 = ok_grows(5) [OF g1 wf]
  obtain cm em st2 where lc: "load_clusters (sv_Clusters s) (?cm0, ?em0, ?st1) = (cm, em, st2)"
    by (metis prod_cases3)
  have "\<forall>c cl. ?cm0 c = Some cl \<longrightarrow> cluster_ok ?st1 cl"
    using wf1 by (auto simp: wf_data_def split: option.splits)
  with load_clusters_ok [OF lc] raw have g2: "grows ?st1 st2" and cl: "\<forall>c cl. cm c = Some cl \<longrightarrow> cluster_ok st2 cl"
    by (auto simp: raw_service_def)
  let ?m2 = "m\<lparr>Clusters := (Clusters m)(sv_Name s \<mapsto> cm), Endpoints := (Endpoints m)(sv_Name s \<mapsto> em),
      ServiceMap := fold (\<lambda>h sm. sm(h \<mapsto> ?svc)) (sv_Hosts s) (ServiceMap m)\<rparr>"
  have "wf_data (?m2, st2)"
    using ok_grows(5) [OF g2 wf1] cl ok_grows(1) [OF g2 lb1]
    by (auto simp: wf_data_def fold_hosts split: if_splits)
  then obtain m' st' where "load_rules (sv_Name s) (sv_Rules s) (?m2, st2) = Some (m', st')" "wf_data (m', st')"
    using load_rules_ok [of ?m2 st2 "sv_Rules s" "sv_Name s"] raw by (auto simp: raw_service_def)
  moreover have "load_service s (m, st) = load_rules (sv_Name s) (sv_Rules s) (?m2, st2)"
    using raw lc by (simp add: load_service_def raw_service_def Let_def case_prod_beta)
  ultimately show ?thesis by simp
qed

lemma load_services_ok:
  "wf_data s \<Longrightarrow> list_all raw_service svcs \<Longrightarrow> \<exists>s'. load_services svcs s = Some s' \<and> wf_data s'"
proof (induction svcs arbitrary: s)
  case (Cons svc svcs)
  then obtain m' st' where "load_service svc s = Some (m', st')" "wf_data (m', st')"
    using load_service_ok [of "fst s" "snd s" svc] by auto
  with Cons show ?case by simp
qed simp

lemma wf_NewMaps: "wf_data (NewMaps, st)"
  by (simp add: wf_data_def NewMaps_def)

lemma run_lb_grows: "grows st (snd (run_lb rand a es st))"
  by (auto simp: run_lb_def grows_def split: option.split)

lemma route_action_grows: "grows st (snd (route_action rand m svc a st))"
proof -
  have g: "grows st (st\<lparr>wrrs := (wrrs st)(a \<mapsto> ns')\<rparr>)" for ns' by (auto simp: grows_def)
  show ?thesis
    by (auto simp: route_action_def Let_def case_prod_beta g intro!: grows_trans [OF g run_lb_grows]
        split: option.split)
qed

lemma Match_grows: "grows st (snd (Match regexp order rand req (m, st)))"
  by (auto simp: Match_def Let_def run_lb_grows route_action_grows split: option.split)

text \<open>Where a selection can panic.\<close>

lemma RoundRobin_Select_None_iff:
  "RoundRobin_Select nxt es = None \<longleftrightarrow> es = [] \<or> (nxt = - 1 \<and> 1 < length es)"
proof (cases "es = [] \<or> nxt = - 1")
  case True
  then show ?thesis
  proof
    assume n: "nxt = - 1"
    consider "es = []" | e where "es = [e]" | "1 < length es"
      by (cases es rule: remdups_adj.cases) auto
    then show ?thesis
      using n RoundRobin_Select_wrap [of es]
      by cases (auto simp: RoundRobin_Select_def go_rem_def go_at_def)
  qed (simp add: RoundRobin_Select_def go_rem_def)
next
  case False
  have "unat nxt + 1 < 2 ^ 32"
  proof (rule ccontr)
    assume "\<not> unat nxt + 1 < 2 ^ 32"
    moreover have "unat nxt < 2 ^ 32" using unsigned_less [of nxt] by simp
    ultimately have "unat nxt = 2 ^ 32 - 1" by simp
    then have "nxt = of_nat (2 ^ 32 - 1)" by (simp add: word_unat_eq_iff)
    then show False using False by simp
  qed
  with False RoundRobin_Select_step [of es "unat nxt"] show ?thesis by simp
qed

lemma run_lb_panic:
  assumes "fst (run_lb rand a es st) = MatchPanic" "lb_ok st (Some a)"
  shows "\<exists>nxt. lbs st a = Some (RoundRobinLoadBalancer nxt) \<and> (es = [] \<or> nxt = - 1)"
proof -
  obtain b where b: "lbs st a = Some b" "Select rand b es = None"
    using assms by (auto simp: run_lb_def lb_ok_def split: option.splits)
  then show ?thesis
    by (cases b) (auto simp: RoundRobin_Select_None_iff case_prod_beta)
qed

fun match_run ::
  "(string \<Rightarrow> string \<Rightarrow> bool option) \<Rightarrow> ((string \<rightharpoonup> endpoint) \<Rightarrow> endpoint list) \<Rightarrow> maps
     \<Rightarrow> (nat \<times> route_request) list \<Rightarrow> store \<Rightarrow> store" where
  "match_run regexp order m [] st = st"
| "match_run regexp order m ((rand, req) # rest) st =
     match_run regexp order m rest (snd (Match regexp order rand req (m, st)))"

lemma match_run_grows: "grows st (match_run regexp order m reqs st)"
proof (induction reqs arbitrary: st)
  case (Cons r reqs)
  then show ?case using Match_grows grows_trans by (cases r) fastforce
qed simp

lemma Match_panic_cases:
  assumes wf: "wf_data (m, st)" and panic: "fst (Match regexp order rand req (m, st)) = MatchPanic"
  shows "\<exists>a nxt. lbs st a = Some (RoundRobinLoadBalancer nxt) \<and>
    (nxt = - 1 \<or> (\<exists>s cm c cl. Clusters m s = Some cm \<and> cm c = Some cl \<and> cl_Endpoints cl = [] \<and>
       lb_LoadBalancer (TrafficPolicy cl) = Some a))"
proof -
  obtain svc where svc: "ServiceMap m (rq_Host req) = Some svc"
    using panic by (auto simp: Match_def GetService_def split: option.splits)
  then obtain a0 where a0: "LB svc = Some a0" "lb_ok st (Some a0)"
    using wf by (fastforce simp: wf_data_def lb_ok_def)
  let ?es = "GetEndpoints order m (sv_Name svc)"
  consider "?es \<noteq> []" "fst (run_lb rand a0 ?es st) = MatchPanic"
    | a rules rule route where "RuleMap m (sv_Name svc) = Some rules" "rule \<in> set rules"
        "Some route \<in> set (Http rule)" "route_LoadBalancer route = Some a"
        "fst (route_action rand m svc a st) = MatchPanic"
    using panic svc a0(1)
    by (auto simp: Match_def GetService_def GetRule_def Let_def route_candidate_def
        split: option.splits if_splits dest!: first_some_Some)
  then show ?thesis
  proof cases
    case 1
    with run_lb_panic [of rand a0 ?es st] a0(2) show ?thesis by blast
  next
    case 2
    then have "wrr_ok st (Some a)" using wf by (fastforce simp: wf_data_def routes_ok_def)
    then obtain ns where ns: "wrrs st a = Some ns" by (auto simp: wrr_ok_def)
    define st1 where "st1 = st\<lparr>wrrs := (wrrs st)(a \<mapsto> snd (WRR_Select [] ns))\<rparr>"
    obtain cm c cl b where cl: "Clusters m (sv_Name svc) = Some cm" "cm c = Some cl"
        "lb_LoadBalancer (TrafficPolicy cl) = Some b"
        "fst (run_lb rand b (cl_Endpoints cl) st1) = MatchPanic"
      using 2(5) ns
      by (auto simp: route_action_def Let_def case_prod_beta st1_def split: option.splits if_splits)
    have "lb_ok st (Some b)" using wf cl(1-3) by (fastforce simp: wf_data_def cluster_ok_def)
    then have "lb_ok st1 (Some b)" and "lbs st1 = lbs st" by (simp_all add: lb_ok_def st1_def)
    with run_lb_panic [OF cl(4)] cl(1-3) show ?thesis by metis
  qed
qed


definition no_match :: string_match where
  "no_match = \<lparr>Exact = [], Prefix = [], Regex = []\<rparr>"

definition any_request :: http_match_request where
  "any_request = \<lparr>mr_Uri = no_match, mr_Scheme = no_match, mr_Method = no_match, mr_Authority = no_match,
     mr_Headers = [], mr_Port = 0, mr_QueryParams = [], mr_IgnoreUriCase = False, mr_WithoutHeaders = []\<rparr>"

definition sample_service :: "string \<Rightarrow> http_match_request \<Rightarrow> service" where
  "sample_service policy mr = \<lparr>sv_Name = ''svc'', sv_Hosts = [''svc.example''],
     sv_Clusters = [\<lparr>cl_Name = ''c1'', cl_Endpoints = [\<lparr>Ip = ''10.0.0.1'', Port = ''80''\<rparr>],
        TrafficPolicy = \<lparr>Simple = policy, lb_LoadBalancer = None\<rparr>\<rparr>],
     sv_Rules = [\<lparr>Http = [Some \<lparr>route_Match = [mr],
        route_Route = [\<lparr>Destination = ''c1'', dest_Weight = 100\<rparr>], route_LoadBalancer = None\<rparr>], Order = 0\<rparr>],
     LB = None\<rparr>"


section \<open>What the conditions mean\<close>

lemma checkMatch_need [simp]: "snd (checkMatch regexp sm v ic) \<longleftrightarrow> \<not> sm_Empty sm"
  by (simp add: checkMatch_def Let_def)

lemma passes_checkMatch:
  "passes (checkMatch regexp sm v ic) \<longleftrightarrow> sm_Empty sm \<or> fst (checkMatch regexp sm v ic)"
  by (auto simp: passes_def)

lemma header_loop_all:
  "\<forall>(h, sm) \<in> set hs. \<not> sm_Empty sm \<Longrightarrow>
   header_loop regexp hdr hs True \<longleftrightarrow> (\<forall>(h, sm) \<in> set hs. fst (checkMatch regexp sm (hdr h) False))"
proof (induction hs)
  case (Cons x hs)
  obtain h sm where x: "x = (h, sm)" by (cases x)
  have "snd (checkMatch regexp sm (hdr h) False)" using Cons.prems x by simp
  with Cons x show ?case by (auto simp: case_prod_beta)
qed simp

lemma without_loop_ex:
  "without_loop regexp hdr hs \<longleftrightarrow>
     (\<exists>(h, sm) \<in> set hs. \<not> sm_Empty sm \<and> fst (checkMatch regexp sm (hdr h) False))"
  by (induction hs) (auto simp: case_prod_beta)

lemma param_loop_none:
  "param_loop regexp query ps \<longleftrightarrow>
     \<not> (\<exists>(p, sm) \<in> set ps. \<not> sm_Empty sm \<and> fst (checkMatch regexp sm (query p) False))"
  by (induction ps) (auto simp: case_prod_beta split: if_splits)



text \<open>
  The policy names of a cluster have no effect. Their four constants are never
  given a value, so every cluster gets a round robin balancer, whatever its policy says;
  and a route to a cluster whose policy is left out always ends in the pass-through
  error, because the empty policy equals the pass-through constant.
\<close>

theorem cluster_policy_names_ignored:
  assumes "wrrs st a = Some ns" and "Clusters m (sv_Name svc) = Some cm"
    and "cm (fst (Next ns)) = Some cl" and "lb_LoadBalancer (TrafficPolicy cl) = Some b"
    and "Simple (TrafficPolicy cl) = []"
  shows "fst (route_action rand m svc a st) = MatchError ''PassThrough'' \<and>
    simple_balancer policy = RoundRobinLoadBalancer 0"
  using assms
  by (simp add: route_action_def WRR_Select_def Let_def case_prod_beta simple_balancer_def
      simple_lb_consts)

definition sample_data :: "maps \<times> store" where
  "sample_data = the (load_services [sample_service [] any_request] (NewMaps, empty_store))"

lemma Add_100: "Add [''c1'', nat_digits 100] [] =
    Inr [\<lparr>cluster = ''c1'', Weight = 100, currentWeight = 0, effectiveWeight = 100\<rparr>]"
  using Atoi_nat_digits [of 100] by (simp add: Add_def)

theorem cluster_policy_names_ignored_witness:
  "fst (route_action 0 (fst sample_data) (sample_service [] any_request) 2 (snd sample_data))
     = MatchError ''PassThrough''"
proof -
  have "wrrs (snd sample_data) 2 =
      Some [\<lparr>cluster = ''c1'', Weight = 100, currentWeight = 0, effectiveWeight = 100\<rparr>]"
    "\<exists>cm cl b. Clusters (fst sample_data) ''svc'' = Some cm \<and> cm ''c1'' = Some cl \<and>
      lb_LoadBalancer (TrafficPolicy cl) = Some b \<and> Simple (TrafficPolicy cl) = []"
    using Add_100
    by (simp_all add: sample_data_def sample_service_def load_service_def alloc_lb_def alloc_wrr_def
        init_cluster_def init_route_def NewMaps_def empty_store_def Let_def)
  moreover have "fst (Next [\<lparr>cluster = ''c1'', Weight = 100, currentWeight = 0, effectiveWeight = 100\<rparr>]) = ''c1''"
    by (simp add: Next_def next_index_def bump_def)
  ultimately show ?thesis
    using cluster_policy_names_ignored [of "snd sample_data" 2 _ "fst sample_data" "sample_service [] any_request"]
    by (fastforce simp: sample_service_def)
qed

end
