(* ===== verification/Cert_Store.thy ===== *)
theory Cert_Store
  imports Go_Strings Go_Net
begin

text \<open>
  The store of interception certificates, \<open>pkg/tls/mitm/ca.go\<close>: the CA pair loaded from
  the vault, leaf certificates made for each server name, and their cache. Package
  \<open>crypto\<close> is an argument (\<open>x509_lib\<close>), with the little that the code relies on as the
  hypothesis \<open>x509_ok\<close>. Times are nanoseconds.
\<close>

section \<open>Data\<close>

record certificate =
  SerialNumber :: nat
  Organization :: "string list"
  CommonName :: string
  NotBefore :: int
  NotAfter :: int
  KeyUsage :: nat
  ExtKeyUsage :: "nat list"
  BasicConstraintsValid :: bool
  IPAddresses :: "ip list"
  DNSNames :: "string list"

text \<open>\<open>tls.Certificate\<close>: the encoded certificate, its private key, the decoded leaf.\<close>

record tls_certificate =
  cert_DER :: string
  cert_key :: string
  Leaf :: certificate

record cert_store =
  primary :: "tls_certificate option"
  secondary :: "tls_certificate option"
  leafCache :: "string \<rightharpoonup> tls_certificate"
  vaultURI :: string

datatype cert_error =
    MissingServerName | NoCA | CryptoError string
  | VaultNotConfigured | CAFetch string | CAStatus int string | CADecode string
  | NoCAReturned | MismatchedCA nat nat | NoValidCA

record x509_lib =
  CreateCertificate :: "certificate \<Rightarrow> tls_certificate \<Rightarrow> string \<Rightarrow> string + string"
  ParseCertificate :: "string \<Rightarrow> string + certificate"
  X509KeyPair :: "string \<Rightarrow> string \<Rightarrow> string + (string \<times> string)"
  MarshalPKCS8PrivateKey :: "string \<Rightarrow> string + string"
  pem_Encode :: "string \<Rightarrow> string \<Rightarrow> string"

text \<open>One call of \<open>GetCertificate\<close>: its clock readings and its random values.\<close>

record leaf_env =
  le_now :: int
  le_key :: "string + string"
  le_serial :: "string + nat"
  le_before :: int
  le_after :: int

definition hour :: int where "hour = 3600 * 1000000000"

section \<open>Operations\<close>

definition NewCertStore :: "string \<Rightarrow> cert_store" where
  "NewCertStore uri = \<lparr>primary = None, secondary = None, leafCache = Map.empty, vaultURI = TrimRight uri ''/''\<rparr>"

definition leaf_template :: "leaf_env \<Rightarrow> nat \<Rightarrow> string \<Rightarrow> certificate" where
  "leaf_template env serial domain =
     \<lparr>SerialNumber = serial, Organization = [''Lhotse MITM Agent''], CommonName = domain,
      NotBefore = le_before env - hour, NotAfter = le_after env + 24 * hour,
      KeyUsage = 5, ExtKeyUsage = [1], BasicConstraintsValid = True,
      IPAddresses = (case ParseIP domain of Some a \<Rightarrow> [a] | None \<Rightarrow> []),
      DNSNames = (case ParseIP domain of Some a \<Rightarrow> [] | None \<Rightarrow> [domain])\<rparr>"

definition crypto :: "string + 'a \<Rightarrow> ('a \<Rightarrow> cert_error + 'b) \<Rightarrow> cert_error + 'b" where
  "crypto r f = (case r of Inl e \<Rightarrow> Inl (CryptoError e) | Inr x \<Rightarrow> f x)"

definition generateLeafCert ::
  "x509_lib \<Rightarrow> leaf_env \<Rightarrow> cert_store \<Rightarrow> string \<Rightarrow> cert_error + tls_certificate" where
  "generateLeafCert lib env cs domain =
     (case primary cs of
        None \<Rightarrow> Inl NoCA
      | Some caCert \<Rightarrow>
          crypto (le_key env) (\<lambda>priv.
          crypto (le_serial env) (\<lambda>serialNumber.
          crypto (CreateCertificate lib (leaf_template env serialNumber domain) caCert priv) (\<lambda>derBytes.
          crypto (MarshalPKCS8PrivateKey lib priv) (\<lambda>privBytes.
          crypto (X509KeyPair lib (pem_Encode lib ''CERTIFICATE'' derBytes)
                   (pem_Encode lib ''PRIVATE KEY'' privBytes)) (\<lambda>(der, key).
          crypto (ParseCertificate lib derBytes) (\<lambda>leaf.
          Inr \<lparr>cert_DER = der, cert_key = key, Leaf = leaf\<rparr>)))))))"

definition cached_leaf :: "int \<Rightarrow> cert_store \<Rightarrow> string \<Rightarrow> tls_certificate option" where
  "cached_leaf t cs domain =
     (case leafCache cs domain of
        Some leaf \<Rightarrow> if t + hour < NotAfter (Leaf leaf) then Some leaf else None
      | None \<Rightarrow> None)"

definition GetCertificate ::
  "x509_lib \<Rightarrow> leaf_env \<Rightarrow> string \<Rightarrow> cert_store \<Rightarrow> (cert_error + tls_certificate) \<times> cert_store" where
  "GetCertificate lib env serverName cs =
     (let domain = TrimSpace serverName in
      if domain = [] then (Inl MissingServerName, cs)
      else (case cached_leaf (le_now env) cs domain of
              Some leaf \<Rightarrow> (Inr leaf, cs)
            | None \<Rightarrow>
                (case generateLeafCert lib env cs domain of
                   Inl e \<Rightarrow> (Inl e, cs)
                 | Inr cert \<Rightarrow> (Inr cert, cs\<lparr>leafCache := (leafCache cs)(domain \<mapsto> cert)\<rparr>))))"

definition set_cas :: "tls_certificate list \<Rightarrow> cert_store \<Rightarrow> cert_store" where
  "set_cas certs cs =
     cs\<lparr>primary := Some (certs ! 0), secondary := (if 1 < length certs then Some (certs ! 1) else None)\<rparr>"

definition cs_Reload :: "tls_certificate list \<Rightarrow> cert_store \<Rightarrow> cert_store" where
  "cs_Reload certs cs =
     (if certs = [] then cs else (set_cas certs cs)\<lparr>leafCache := Map.empty\<rparr>)"

text \<open>The loop over the pairs of the payload: what cannot be used is skipped.\<close>

definition load_ca :: "x509_lib \<Rightarrow> string \<times> string \<Rightarrow> tls_certificate option" where
  "load_ca lib = (\<lambda>(c, k).
     let certPEM = TrimSpace c; keyPEM = TrimSpace k in
     if certPEM = [] \<or> keyPEM = [] then None
     else (case X509KeyPair lib certPEM keyPEM of
             Inl _ \<Rightarrow> None
           | Inr (der, key) \<Rightarrow>
               (case ParseCertificate lib der of
                  Inl _ \<Rightarrow> None
                | Inr leaf \<Rightarrow> Some \<lparr>cert_DER = der, cert_key = key, Leaf = leaf\<rparr>)))"

record ca_env =
  ca_Get :: "string \<Rightarrow> string + (int \<times> string)"
  ca_decode :: "string \<Rightarrow> string + (string list \<times> string list)"

definition FetchAndReload ::
  "x509_lib \<Rightarrow> ca_env \<Rightarrow> cert_store \<Rightarrow> cert_error option \<times> cert_store" where
  "FetchAndReload lib env cs =
     (if vaultURI cs = [] then (Some VaultNotConfigured, cs)
      else (case ca_Get env (vaultURI cs @ ''/internal/ca/keypair'') of
              Inl e \<Rightarrow> (Some (CAFetch e), cs)
            | Inr (status, body) \<Rightarrow>
                if status \<noteq> 200 then (Some (CAStatus status body), cs)
                else (case ca_decode env body of
                        Inl e \<Rightarrow> (Some (CADecode e), cs)
                      | Inr (certPEMs, keyPEMs) \<Rightarrow>
                          if certPEMs = [] \<or> keyPEMs = [] then (Some NoCAReturned, cs)
                          else if length certPEMs \<noteq> length keyPEMs
                            then (Some (MismatchedCA (length certPEMs) (length keyPEMs)), cs)
                          else
                            let certs = List.map_filter (load_ca lib) (zip certPEMs keyPEMs) in
                            if certs = [] then (Some NoValidCA, cs)
                            else (None, cs_Reload certs cs))))"

definition GetActiveCAPEM :: "x509_lib \<Rightarrow> cert_store \<Rightarrow> string" where
  "GetActiveCAPEM lib cs =
     (let pem = (\<lambda>c. case c of None \<Rightarrow> [] | Some ca \<Rightarrow> pem_Encode lib ''CERTIFICATE'' (cert_DER ca)) in
      pem (primary cs) @ pem (secondary cs))"

section \<open>Certificates fit their names\<close>

text \<open>
  What the code relies on in package \<open>x509\<close>: parsing an encoded certificate gives back
  the template, its times cut to seconds, and a key pair holds the certificate that was
  put into its PEM block.
\<close>

definition to_second :: "int \<Rightarrow> int" where
  "to_second t = t div 1000000000 * 1000000000"

definition x509_ok :: "x509_lib \<Rightarrow> bool" where
  "x509_ok lib \<longleftrightarrow>
     (\<forall>t ca k der c. CreateCertificate lib t ca k = Inr der \<longrightarrow> ParseCertificate lib der = Inr c \<longrightarrow>
        c = t\<lparr>NotBefore := to_second (NotBefore t), NotAfter := to_second (NotAfter t)\<rparr>) \<and>
     (\<forall>der kb c k. X509KeyPair lib (pem_Encode lib ''CERTIFICATE'' der) (pem_Encode lib ''PRIVATE KEY'' kb) = Inr (c, k)
        \<longrightarrow> c = der)"

text \<open>A certificate for \<open>domain\<close> that \<open>ca\<close> signed.\<close>

definition issued :: "x509_lib \<Rightarrow> tls_certificate \<Rightarrow> string \<Rightarrow> tls_certificate \<Rightarrow> bool" where
  "issued lib ca domain cert \<longleftrightarrow>
     (\<exists>t k. CreateCertificate lib t ca k = Inr (cert_DER cert)) \<and>
     CommonName (Leaf cert) = domain \<and> ExtKeyUsage (Leaf cert) = [1] \<and>
     (case ParseIP domain of
        Some a \<Rightarrow> IPAddresses (Leaf cert) = [a] \<and> DNSNames (Leaf cert) = []
      | None \<Rightarrow> IPAddresses (Leaf cert) = [] \<and> DNSNames (Leaf cert) = [domain])"

lemma crypto_Inr: "crypto r f = Inr y \<longleftrightarrow> (\<exists>x. r = Inr x \<and> f x = Inr y)"
  by (cases r) (simp_all add: crypto_def)

lemma generateLeafCert_issued:
  assumes "x509_ok lib" "generateLeafCert lib env cs domain = Inr cert"
  shows "\<exists>ca. primary cs = Some ca \<and> issued lib ca domain cert"
    and "NotAfter (Leaf cert) = to_second (le_after env + 24 * hour)"
proof -
  from assms(2) obtain ca priv sn der kb where
    ca: "primary cs = Some ca"
    and der: "CreateCertificate lib (leaf_template env sn domain) ca priv = Inr der"
    and pair: "X509KeyPair lib (pem_Encode lib ''CERTIFICATE'' der) (pem_Encode lib ''PRIVATE KEY'' kb) =
      Inr (cert_DER cert, cert_key cert)"
    and leaf: "ParseCertificate lib der = Inr (Leaf cert)"
    by (auto simp: generateLeafCert_def crypto_Inr split: option.splits)
  have 1: "cert_DER cert = der" using assms(1) pair unfolding x509_ok_def by blast
  have 2: "Leaf cert = (leaf_template env sn domain)
      \<lparr>NotBefore := to_second (le_before env - hour), NotAfter := to_second (le_after env + 24 * hour)\<rparr>"
    using assms(1) der leaf unfolding x509_ok_def by (fastforce simp: leaf_template_def)
  show "\<exists>ca. primary cs = Some ca \<and> issued lib ca domain cert"
    using ca der 1 2 by (auto simp: issued_def leaf_template_def split: option.split)
  show "NotAfter (Leaf cert) = to_second (le_after env + 24 * hour)" by (simp add: 2)
qed

text \<open>The invariant of a store that is used by one goroutine at a time.\<close>

definition cs_ok :: "x509_lib \<Rightarrow> cert_store \<Rightarrow> bool" where
  "cs_ok lib cs \<longleftrightarrow>
     (\<forall>domain cert. leafCache cs domain = Some cert \<longrightarrow>
        (\<exists>ca. primary cs = Some ca \<and> issued lib ca domain cert))"

lemma cs_ok_New: "cs_ok lib (NewCertStore uri)"
  by (simp add: cs_ok_def NewCertStore_def)

lemma cs_ok_Reload: "cs_ok lib cs \<Longrightarrow> cs_ok lib (cs_Reload certs cs)"
  by (simp add: cs_ok_def cs_Reload_def)

lemma cs_ok_Fetch: "cs_ok lib cs \<Longrightarrow> cs_ok lib (snd (FetchAndReload lib env cs))"
  by (simp add: FetchAndReload_def cs_ok_Reload Let_def split: sum.split prod.split)

lemma GetCertificate_issued:
  assumes "x509_ok lib" "cs_ok lib cs" "GetCertificate lib env name cs = (Inr cert, cs')"
  shows "\<exists>ca. primary cs = Some ca \<and> issued lib ca (TrimSpace name) cert" "primary cs' = primary cs"
  using assms generateLeafCert_issued(1) [OF assms(1)]
  by (auto simp: GetCertificate_def cached_leaf_def cs_ok_def Let_def split: if_splits option.splits sum.splits)

lemma cs_ok_Get:
  assumes "x509_ok lib" "cs_ok lib cs"
  shows "cs_ok lib (snd (GetCertificate lib env name cs))"
  using assms generateLeafCert_issued(1) [OF assms(1)]
  by (auto simp: GetCertificate_def cs_ok_def Let_def split: option.split sum.split)

datatype cs_op = OpGet leaf_env string | OpFetch ca_env

fun cs_run :: "x509_lib \<Rightarrow> cs_op list \<Rightarrow> cert_store \<Rightarrow> cert_store" where
  "cs_run lib [] cs = cs"
| "cs_run lib (OpGet env name # ops) cs = cs_run lib ops (snd (GetCertificate lib env name cs))"
| "cs_run lib (OpFetch env # ops) cs = cs_run lib ops (snd (FetchAndReload lib env cs))"

lemma cs_ok_run: "x509_ok lib \<Longrightarrow> cs_ok lib cs \<Longrightarrow> cs_ok lib (cs_run lib ops cs)"
  by (induction lib ops cs rule: cs_run.induct) (simp_all add: cs_ok_Get cs_ok_Fetch)

lemma to_second_gt: "t - 1000000000 < to_second t"
  unfolding to_second_def by (simp add: minus_mult_div_eq_mod [symmetric] div_mult_mod_eq)


definition demo_leaf_env :: "int \<Rightarrow> leaf_env" where
  "demo_leaf_env t = \<lparr>le_now = t, le_key = Inr ''k'', le_serial = Inr 7, le_before = t, le_after = t\<rparr>"

definition demo_template :: certificate where
  "demo_template = leaf_template (demo_leaf_env 0) 7 ''a.example''"

definition demo_x509 :: x509_lib where
  "demo_x509 =
     \<lparr>CreateCertificate = (\<lambda>t ca k. if t = demo_template then Inr (''leaf by '' @ cert_DER ca) else Inl ''bad''),
      ParseCertificate = (\<lambda>der. Inr (demo_template\<lparr>NotBefore := to_second (NotBefore demo_template),
        NotAfter := to_second (NotAfter demo_template)\<rparr>)),
      X509KeyPair = (\<lambda>c k. Inr (drop 11 c, k)),
      MarshalPKCS8PrivateKey = Inr, pem_Encode = (@)\<rparr>"

definition demo_ca_env :: "string \<Rightarrow> ca_env" where
  "demo_ca_env c = \<lparr>ca_Get = (\<lambda>_. Inr (200, c)), ca_decode = (\<lambda>c. Inr ([''CERTIFICATE'' @ c], [''PRIVATE KEY'']))\<rparr>"

lemma demo_x509_ok: "x509_ok demo_x509"
  by (simp add: x509_ok_def demo_x509_def)

lemma demo_loaded:
  "FetchAndReload demo_x509 (demo_ca_env ''old'') (NewCertStore ''v/'') =
     (None, \<lparr>primary = Some \<lparr>cert_DER = ''old'', cert_key = ''PRIVATE KEY'',
        Leaf = demo_template\<lparr>NotBefore := to_second (NotBefore demo_template),
          NotAfter := to_second (NotAfter demo_template)\<rparr>\<rparr>,
      secondary = None, leafCache = Map.empty, vaultURI = ''v''\<rparr>)"
  by (simp add: FetchAndReload_def demo_ca_env_def NewCertStore_def TrimRight_def demo_x509_def
      map_filter_simps load_ca_def str_eval cs_Reload_def set_cas_def Let_def)

lemma demo_TrimSpace: "TrimSpace ''a.example'' = ''a.example''"
  by (simp add: str_eval)

lemma demo_generated:
  assumes "primary cs = Some ca"
  shows "generateLeafCert demo_x509 (demo_leaf_env 0) cs ''a.example'' =
     Inr \<lparr>cert_DER = ''leaf by '' @ cert_DER ca, cert_key = ''PRIVATE KEYk'',
       Leaf = demo_template\<lparr>NotBefore := to_second (NotBefore demo_template),
         NotAfter := to_second (NotAfter demo_template)\<rparr>\<rparr>"
  using assms by (simp add: generateLeafCert_def demo_x509_def demo_leaf_env_def crypto_def demo_template_def)


section \<open>Concurrent use\<close>

text \<open>
  The proxy asks for certificates on every connection while another goroutine reloads the
  CA. \<open>GetCertificate\<close> touches the shared store three times: it looks the name up, it
  reads the primary CA under the read lock, and it stores the new certificate. \<open>Reload\<close>
  holds the write lock, exchanges the CAs and then deletes cache entries one by one;
  \<open>Range\<close> visits at least every key that is present all the time. The cache itself is
  not guarded by the lock.

  \<open>calls i\<close> is the environment and the server name of call \<open>i\<close>. \<open>w_cas\<close> collects the CAs
  that were primary at some time.
\<close>

datatype gc_pc = Started | Missed | Generated tls_certificate | Returned "cert_error + tls_certificate"

record cs_world =
  w_store :: cert_store
  w_calls :: "nat \<Rightarrow> gc_pc"
  w_reload :: "string set option"
  w_cas :: "tls_certificate set"

definition call_domain :: "(nat \<Rightarrow> leaf_env \<times> string) \<Rightarrow> nat \<Rightarrow> string" where
  "call_domain calls i = TrimSpace (snd (calls i))"

inductive cs_step :: "x509_lib \<Rightarrow> (nat \<Rightarrow> leaf_env \<times> string) \<Rightarrow> cs_world \<Rightarrow> cs_world \<Rightarrow> bool"
  for lib calls where
  no_name: "w_calls w i = Started \<Longrightarrow> call_domain calls i = [] \<Longrightarrow>
    cs_step lib calls w (w\<lparr>w_calls := (w_calls w)(i := Returned (Inl MissingServerName))\<rparr>)"
| hit: "w_calls w i = Started \<Longrightarrow> call_domain calls i \<noteq> [] \<Longrightarrow>
    cached_leaf (le_now (fst (calls i))) (w_store w) (call_domain calls i) = Some leaf \<Longrightarrow>
    cs_step lib calls w (w\<lparr>w_calls := (w_calls w)(i := Returned (Inr leaf))\<rparr>)"
| miss: "w_calls w i = Started \<Longrightarrow> call_domain calls i \<noteq> [] \<Longrightarrow>
    cached_leaf (le_now (fst (calls i))) (w_store w) (call_domain calls i) = None \<Longrightarrow>
    cs_step lib calls w (w\<lparr>w_calls := (w_calls w)(i := Missed)\<rparr>)"
| generate: "w_calls w i = Missed \<Longrightarrow> w_reload w = None \<Longrightarrow>
    generateLeafCert lib (fst (calls i)) (w_store w) (call_domain calls i) = Inr cert \<Longrightarrow>
    cs_step lib calls w (w\<lparr>w_calls := (w_calls w)(i := Generated cert)\<rparr>)"
| generate_fails: "w_calls w i = Missed \<Longrightarrow> w_reload w = None \<Longrightarrow>
    generateLeafCert lib (fst (calls i)) (w_store w) (call_domain calls i) = Inl e \<Longrightarrow>
    cs_step lib calls w (w\<lparr>w_calls := (w_calls w)(i := Returned (Inl e))\<rparr>)"
| store: "w_calls w i = Generated cert \<Longrightarrow>
    cs_step lib calls w
      (w\<lparr>w_calls := (w_calls w)(i := Returned (Inr cert)),
         w_store := (w_store w)\<lparr>leafCache := (leafCache (w_store w))(call_domain calls i \<mapsto> cert)\<rparr>\<rparr>)"
| reload_begin: "w_reload w = None \<Longrightarrow> certs \<noteq> [] \<Longrightarrow>
    cs_step lib calls w
      (w\<lparr>w_store := set_cas certs (w_store w), w_reload := Some (dom (leafCache (w_store w))),
         w_cas := insert (certs ! 0) (w_cas w)\<rparr>)"
| reload_delete: "w_reload w = Some pending \<Longrightarrow>
    cs_step lib calls w
      (w\<lparr>w_store := (w_store w)\<lparr>leafCache := (leafCache (w_store w))(key := None)\<rparr>,
         w_reload := Some (pending - {key})\<rparr>)"
| reload_end: "w_reload w = Some {} \<Longrightarrow> cs_step lib calls w (w\<lparr>w_reload := None\<rparr>)"

definition initial_world :: "cert_store \<Rightarrow> cs_world" where
  "initial_world cs = \<lparr>w_store = cs, w_calls = (\<lambda>_. Started), w_reload = None, w_cas = set_option (primary cs)\<rparr>"

definition world_ok :: "x509_lib \<Rightarrow> (nat \<Rightarrow> leaf_env \<times> string) \<Rightarrow> cs_world \<Rightarrow> bool" where
  "world_ok lib calls w \<longleftrightarrow>
     set_option (primary (w_store w)) \<subseteq> w_cas w \<and>
     (\<forall>d cert. leafCache (w_store w) d = Some cert \<longrightarrow> (\<exists>ca \<in> w_cas w. issued lib ca d cert)) \<and>
     (\<forall>i cert. w_calls w i = Generated cert \<or> w_calls w i = Returned (Inr cert) \<longrightarrow>
        (\<exists>ca \<in> w_cas w. issued lib ca (call_domain calls i) cert))"

lemma cached_leaf_in_cache: "cached_leaf t cs d = Some leaf \<Longrightarrow> leafCache cs d = Some leaf"
  by (auto simp: cached_leaf_def split: option.splits if_splits)

lemma world_ok_step:
  assumes "x509_ok lib" "world_ok lib calls w" "cs_step lib calls w w'"
  shows "world_ok lib calls w'"
  using assms(3)
proof (cases rule: cs_step.cases)
  case (hit i leaf)
  then have "\<exists>ca \<in> w_cas w. issued lib ca (call_domain calls i) leaf"
    using assms(2) cached_leaf_in_cache [OF hit(4)] by (simp add: world_ok_def)
  with assms(2) hit show ?thesis by (auto simp: world_ok_def)
next
  case (generate i cert)
  then have "\<exists>ca \<in> w_cas w. issued lib ca (call_domain calls i) cert"
    using assms(2) generateLeafCert_issued(1) [OF assms(1) generate(4)] by (auto simp: world_ok_def)
  with assms(2) generate show ?thesis by (auto simp: world_ok_def)
qed (use assms(2) in \<open>auto simp: world_ok_def set_cas_def\<close>)


text \<open>
  A leaf can outlive the rotation of its CA: when a request has generated its
  certificate before a reload and stores it afterwards, the reload has not removed it,
  and later requests for that name get the certificate of the former CA until it comes
  close to its end, although another CA is primary.
\<close>

theorem leaf_outlives_rotation:
  assumes "call_domain calls 0 = d" and "d \<noteq> []" and "leafCache cs = Map.empty"
    and "generateLeafCert lib (fst (calls 0)) cs d = Inr cert" and "certs \<noteq> []"
    and "TrimSpace name = d" and "le_now env + hour < NotAfter (Leaf cert)"
  shows "\<exists>w. (cs_step lib calls)\<^sup>*\<^sup>* (initial_world cs) w \<and> w_reload w = None \<and>
    primary (w_store w) = Some (certs ! 0) \<and> w_calls w 0 = Returned (Inr cert) \<and>
    GetCertificate lib env name (w_store w) = (Inr cert, w_store w)"
proof -
  let ?w0 = "initial_world cs"
  let ?w1 = "?w0\<lparr>w_calls := (w_calls ?w0)(0 := Missed)\<rparr>"
  let ?w2 = "?w1\<lparr>w_calls := (w_calls ?w1)(0 := Generated cert)\<rparr>"
  let ?w3 = "?w2\<lparr>w_store := set_cas certs (w_store ?w2), w_reload := Some (dom (leafCache (w_store ?w2))),
         w_cas := insert (certs ! 0) (w_cas ?w2)\<rparr>"
  let ?w4 = "?w3\<lparr>w_reload := None\<rparr>"
  let ?w5 = "?w4\<lparr>w_calls := (w_calls ?w4)(0 := Returned (Inr cert)),
         w_store := (w_store ?w4)\<lparr>leafCache := (leafCache (w_store ?w4))(call_domain calls 0 \<mapsto> cert)\<rparr>\<rparr>"
  have "cs_step lib calls ?w0 ?w1"
    by (rule cs_step.miss) (simp_all add: assms initial_world_def cached_leaf_def)
  moreover have "cs_step lib calls ?w1 ?w2"
    by (rule cs_step.generate) (simp_all add: assms initial_world_def)
  moreover have "cs_step lib calls ?w2 ?w3"
    by (rule cs_step.reload_begin) (simp_all add: assms initial_world_def)
  moreover have "cs_step lib calls ?w3 ?w4"
    by (rule cs_step.reload_end) (simp add: assms initial_world_def)
  moreover have "cs_step lib calls ?w4 ?w5"
    by (rule cs_step.store) simp
  ultimately have "(cs_step lib calls)\<^sup>*\<^sup>* ?w0 ?w5"
    by (meson converse_rtranclp_into_rtranclp r_into_rtranclp)
  moreover have "GetCertificate lib env name (w_store ?w5) = (Inr cert, w_store ?w5)"
    using assms by (simp add: GetCertificate_def cached_leaf_def)
  moreover have "primary (w_store ?w5) = Some (certs ! 0)" by (simp add: set_cas_def)
  ultimately show ?thesis by (intro exI [of _ ?w5]) simp
qed

definition demo_calls :: "nat \<Rightarrow> leaf_env \<times> string" where
  "demo_calls i = (demo_leaf_env 0, ''a.example'')"

definition demo_store :: cert_store where
  "demo_store = snd (FetchAndReload demo_x509 (demo_ca_env ''old'') (NewCertStore ''v/''))"

definition demo_new_ca :: tls_certificate where
  "demo_new_ca = \<lparr>cert_DER = ''new'', cert_key = ''k'', Leaf = demo_template\<rparr>"

lemma demo_store_parts:
  "\<exists>ca. primary demo_store = Some ca \<and> cert_DER ca = ''old''" "leafCache demo_store = Map.empty"
  by (simp_all add: demo_store_def demo_loaded)

theorem leaf_outlives_rotation_witness:
  "\<exists>w cert. (cs_step demo_x509 demo_calls)\<^sup>*\<^sup>* (initial_world demo_store) w \<and>
     primary (w_store w) = Some demo_new_ca \<and> cert_DER cert = ''leaf by old'' \<and>
     GetCertificate demo_x509 (demo_leaf_env 0) ''a.example'' (w_store w) = (Inr cert, w_store w)"
proof -
  obtain ca where ca: "primary demo_store = Some ca" "cert_DER ca = ''old''" using demo_store_parts by blast
  note gen = demo_generated [OF ca(1), unfolded ca(2)]
  have call: "call_domain demo_calls 0 = ''a.example''" "fst (demo_calls 0) = demo_leaf_env 0"
    by (simp_all add: call_domain_def demo_calls_def demo_TrimSpace)
  have late: "hour < to_second (NotAfter demo_template)"
    by (simp add: demo_template_def leaf_template_def demo_leaf_env_def hour_def to_second_def)
  show ?thesis
    using leaf_outlives_rotation [OF call(1) _ demo_store_parts(2) gen [folded call(2)],
        of "[demo_new_ca]" "''a.example''" "demo_leaf_env 0"] late
    by (auto simp: demo_TrimSpace demo_leaf_env_def)
qed

definition demo_world :: cs_world where
  "demo_world = (initial_world (NewCertStore ''v''))
     \<lparr>w_store := set_cas [demo_new_ca] (NewCertStore ''v''), w_cas := {demo_new_ca},
      w_calls := (\<lambda>_. Started)\<rparr>"


end
