(* ===== verification/Tcp_Proxy.thy ===== *)
theory Tcp_Proxy
  imports Enforcement Route_Match Cert_Store
begin

text \<open>
  The TCP handlers: the HTTP exchange and the tunnel of \<open>cmd/proxy/http.go\<close>, the inbound
  handler (\<open>inbound.go\<close>, \<open>inbound_target.go\<close>) and the outbound handler with its
  interception of TLS (\<open>outbound.go\<close>, \<open>pkg/tls/mitm/buffered_conn.go\<close>).

  A connection is the stream its client sends, the sink towards the client, and the list
  of upstream connections dialled for it, each with the address and what was exchanged.
  One iteration of a handler runs in an environment \<open>tcp_env\<close>: who answers a dial and
  what they send, how many bytes a discarded \<open>bufio.Reader\<close> still holds, which copy of a
  tunnel ends first, and the TLS library. A panic ends the process: \<open>util.GO\<close> recovers
  it and panics again.
\<close>

section \<open>State\<close>

record peer =
  up_in :: stream
  up_out :: sink

record conn =
  c_in :: stream
  c_out :: sink
  c_peers :: "(string \<times> peer) list"

record tls_session =
  ts_ServerName :: string
  ts_NegotiatedProtocol :: string
  ts_plain :: stream

record mitm_request =
  mr_Host :: string
  mr_Header :: header

record tcp_env =
  te_lib :: http_lib
  te_dial :: "string \<Rightarrow> string + peer"
  te_lost :: nat
  te_resp_lost :: nat
  te_up_first :: bool
  te_regexp :: "string \<Rightarrow> string \<Rightarrow> bool option"
  te_order :: "(string \<rightharpoonup> endpoint) \<Rightarrow> endpoint list"
  te_rand :: nat
  te_sha :: "string \<Rightarrow> string"
  te_cred :: cred_env
  te_ids :: "nat \<Rightarrow> id_env"

record ob_state =
  os_routes :: "maps \<times> store"
  os_creds :: cred_state
  os_certs :: "cert_store option"

section \<open>Tunnels\<close>

definition proxyTunnel ::
  "bool \<Rightarrow> stream \<Rightarrow> sink \<Rightarrow> peer \<Rightarrow> relay_error option \<times> stream \<times> sink \<times> peer" where
  "proxyTunnel up_first s w p =
     (case io_Copy s (up_out p) of
        (e1, s', u') \<Rightarrow>
          (case io_Copy (up_in p) w of
             (e2, p_in', w') \<Rightarrow>
               let firstErr = (if up_first then (if e1 \<noteq> None then e1 else e2)
                               else (if e2 \<noteq> None then e2 else e1))
               in (firstErr, s', w', \<lparr>up_in = p_in', up_out = u'\<rparr>)))"

text \<open>The result of a handler for one request or one raw connection.\<close>

type_synonym handled = "proxy_error option \<times> conn"

definition tunnel_conn :: "bool \<Rightarrow> string \<Rightarrow> peer \<Rightarrow> conn \<Rightarrow> handled" where
  "tunnel_conn up_first addr p c =
     (case proxyTunnel up_first (c_in c) (c_out c) p of
        (e, s', w', p') \<Rightarrow>
          (Some (case e of Some x \<Rightarrow> RelayFailed x | None \<Rightarrow> ConnectionDone),
           \<lparr>c_in = s', c_out = w', c_peers = c_peers c @ [(addr, p')]\<rparr>))"

definition proxyRawConnection :: "bool \<Rightarrow> string \<Rightarrow> peer \<Rightarrow> conn \<Rightarrow> handled" where
  "proxyRawConnection up_first addr p c = tunnel_conn up_first addr p c"

section \<open>One HTTP exchange\<close>

text \<open>The text in UTF-8 before the error of a failed dial, and the whole answer.\<close>

definition connect_failed :: string where
  "connect_failed = map char_of [232, 191, 158, 230, 142, 165, 229, 164, 177, 232, 180, 165, 58 :: nat]"

definition dial_failed_response :: "string \<Rightarrow> string" where
  "dial_failed_response err =
     (let body = connect_failed @ err in
      ''HTTP/1.1 200 OK'' @ [LF] @ ''Server: idefav'' @ [LF] @
      ''Content-Type: text/plain;charset=UTF-8'' @ [LF] @
      ''Content-Length: '' @ nat_digits (length body) @ [LF, LF] @ body @ [LF])"

definition drop_stream :: "nat \<Rightarrow> stream \<Rightarrow> stream" where
  "drop_stream n s = s\<lparr>unread := drop n (unread s)\<rparr>"

definition exchange :: "tcp_env \<Rightarrow> string \<Rightarrow> string \<Rightarrow> request \<Rightarrow> peer \<Rightarrow> conn \<Rightarrow> handled" where
  "exchange env serverName addr req p c =
     (let give = (\<lambda>s w p'. \<lparr>c_in = s, c_out = w, c_peers = c_peers c @ [(addr, p')]\<rparr>) in
      if Method req = ''CONNECT'' then
        (case writeConnectEstablished serverName (c_out c) of
           (w1, Some e) \<Rightarrow> (Some (RelayFailed e), give (c_in c) w1 p)
         | (w1, None) \<Rightarrow> tunnel_conn (te_up_first env) addr p (c\<lparr>c_out := w1\<rparr>))
      else
        (case writeHTTPRequest req (c_in c) (up_out p) of
           (Some e, s1, u1) \<Rightarrow> (Some (RelayFailed e), give s1 (c_out c) (p\<lparr>up_out := u1\<rparr>))
         | (None, s1, u1) \<Rightarrow>
             (case ReadResponse (te_lib env) (up_in p) of
                (Inl e, i1) \<Rightarrow> (Some (BadRequest e), give s1 (c_out c) \<lparr>up_in = i1, up_out = u1\<rparr>)
              | (Inr resp, i1) \<Rightarrow>
                  if Upgraded resp then
                    (case writeHTTPResponse resp [] (c_out c) of
                       (w1, Some e) \<Rightarrow> (Some (RelayFailed e), give s1 w1 \<lparr>up_in = i1, up_out = u1\<rparr>)
                     | (w1, None) \<Rightarrow>
                         tunnel_conn (te_up_first env) addr
                           \<lparr>up_in = drop_stream (te_resp_lost env) i1, up_out = u1\<rparr>
                           (c\<lparr>c_in := s1, c_out := w1\<rparr>))
                  else
                    (case writeHTTPResponse resp serverName (c_out c) of
                       (w1, Some e) \<Rightarrow> (Some (RelayFailed e), give s1 w1 \<lparr>up_in = i1, up_out = u1\<rparr>)
                     | (w1, None) \<Rightarrow>
                         (case proxyHTTPBody req resp i1 w1 of
                            (e, i2, w2) \<Rightarrow>
                              ((case e of
                                  Some x \<Rightarrow> Some (RelayFailed x)
                                | None \<Rightarrow> if Close req \<or> rs_Close resp then Some ConnectionDone else None),
                               give s1 w2 \<lparr>up_in = i2, up_out = u1\<rparr>))))))"

definition proxyHTTPRequest :: "tcp_env \<Rightarrow> string \<Rightarrow> request \<Rightarrow> string \<Rightarrow> conn \<Rightarrow> handled" where
  "proxyHTTPRequest env serverName req dialTarget c =
     (case te_dial env dialTarget of
        Inl err \<Rightarrow>
          (Some ConnectionDone, c\<lparr>c_out := fst (sink_write (c_out c) (dial_failed_response err))\<rparr>)
      | Inr p \<Rightarrow> exchange env serverName dialTarget req p c)"

section \<open>The inbound handler\<close>

definition inboundDialTarget :: "string \<Rightarrow> string" where
  "inboundDialTarget originalTarget =
     (case SplitHostPort originalTarget of
        Inl _ \<Rightarrow> originalTarget
      | Inr (_, port) \<Rightarrow> JoinHostPort ''127.0.0.1'' port)"

definition enforce_conn :: "config option \<Rightarrow> string \<Rightarrow> string \<Rightarrow> string \<Rightarrow> conn \<Rightarrow> proxy_error option \<times> conn" where
  "enforce_conn conf direction domain target c =
     (case enforceDomainPolicy conf direction domain target (Some (c_out c)) of
        (e, w) \<Rightarrow> (e, c\<lparr>c_out := (case w of Some x \<Rightarrow> x | None \<Rightarrow> c_out c)\<rparr>))"

definition HttpProc2 :: "tcp_env \<Rightarrow> config \<Rightarrow> string \<Rightarrow> string \<Rightarrow> conn \<Rightarrow> handled" where
  "HttpProc2 env conf dstHost dialTarget c =
     (case ReadRequest (te_lib env) (c_in c) of
        (Inl e, s1) \<Rightarrow> (Some (BadRequest e), c\<lparr>c_in := s1\<rparr>)
      | (Inr req, s1) \<Rightarrow>
          (case enforce_conn (Some conf) inboundDirection (TargetDomain req) dstHost (c\<lparr>c_in := s1\<rparr>) of
             (Some e, c1) \<Rightarrow> (Some e, c1)
           | (None, c1) \<Rightarrow> proxyHTTPRequest env (ServerName conf) req dialTarget c1))"

definition inbound_HttpProc :: "tcp_env \<Rightarrow> config \<Rightarrow> string \<Rightarrow> conn \<Rightarrow> handled" where
  "inbound_HttpProc env conf dstHost c = HttpProc2 env conf dstHost dstHost c"

definition inbound_http_prefix :: "string \<Rightarrow> bool" where
  "inbound_http_prefix header \<longleftrightarrow>
     HasPrefix header ''GET'' \<or> HasPrefix header ''POST'' \<or> HasPrefix header ''HEAD'' \<or>
     HasPrefix header ''CONNECT'' \<or> HasPrefix header ''OPTIONS'' \<or> HasPrefix header ''PUT'' \<or>
     HasPrefix header ''DELETE''"

definition raw_conn :: "tcp_env \<Rightarrow> string \<Rightarrow> conn \<Rightarrow> handled" where
  "raw_conn env addr c =
     (case te_dial env addr of
        Inl e \<Rightarrow> (Some (DialFailed e), c)
      | Inr p \<Rightarrow> proxyRawConnection (te_up_first env) addr p c)"

definition enforce_raw :: "config option \<Rightarrow> string \<Rightarrow> string \<Rightarrow> conn \<Rightarrow> proxy_error option \<times> conn" where
  "enforce_raw conf direction target c =
     (case enforceRawDomainPolicy conf direction (c_in c) target (Some (c_out c)) of
        (e, w) \<Rightarrow> (e, c\<lparr>c_out := (case w of Some x \<Rightarrow> x | None \<Rightarrow> c_out c)\<rparr>))"

text \<open>
  One turn of the loop of \<open>proc\<close> for a connection with the addresses found so far: an
  error ends the handler, \<open>None\<close> starts the next turn with a new reader, and the bytes
  the old one had buffered are gone.
\<close>

definition inbound_turn ::
  "tcp_env \<Rightarrow> config \<Rightarrow> string \<times> string \<Rightarrow> conn \<Rightarrow> proxy_error option \<times> (string \<times> string) \<times> conn" where
  "inbound_turn env conf = (\<lambda>(dst_host, dialTarget) c.
     (case Peek (conn_reader (c_in c)) 5 of
        (_, Some e) \<Rightarrow> (Some (RelayFailed (RelayRead e)), (dst_host, dialTarget), c)
      | (peek, None) \<Rightarrow>
          if inbound_http_prefix (bytes_to_string peek) then
            let (dst, dial) = (if dst_host = [] then (''192.168.0.105:28080'', ''192.168.0.105:28080'')
                               else (dst_host, dialTarget));
                (e, c1) = HttpProc2 env conf dst dial c
            in (e, (dst, dial), c1\<lparr>c_in := drop_stream (te_lost env) (c_in c1)\<rparr>)
          else
            let (dst, dial) = (if dst_host = [] then (''192.168.0.105:28081'', ''192.168.0.105:28081'')
                               else (dst_host, dialTarget))
            in (case enforce_raw (Some conf) inboundDirection dst c of
                  (Some e, c1) \<Rightarrow> (Some e, (dst, dial), c1)
                | (None, c1) \<Rightarrow> (case raw_conn env dial c1 of (e, c2) \<Rightarrow> (e, (dst, dial), c2)))))"

text \<open>The turns in sequence; \<open>None\<close> when the connection is still open after them.\<close>

fun inbound_turns ::
  "config \<Rightarrow> tcp_env list \<Rightarrow> string \<times> string \<Rightarrow> conn \<Rightarrow> proxy_error option \<times> conn" where
  "inbound_turns conf [] dst c = (None, c)"
| "inbound_turns conf (env # envs) dst c =
     (case inbound_turn env conf dst c of
        (Some e, _, c1) \<Rightarrow> (Some e, c1)
      | (None, dst1, c1) \<Rightarrow> inbound_turns conf envs dst1 c1)"

definition inbound_proc :: "config \<Rightarrow> tcp_env list \<Rightarrow> string option \<Rightarrow> conn \<Rightarrow> proxy_error option \<times> conn" where
  "inbound_proc conf envs originalDst c =
     inbound_turns conf envs
       (case originalDst of Some host \<Rightarrow> (host, inboundDialTarget host) | None \<Rightarrow> ([], [])) c"

section \<open>Exchanges\<close>

lemma io_Copy_open:
  "capacity w = None \<Longrightarrow> io_Copy s w =
     (if at_end s = EOF then None else Some (RelayRead (at_end s)), s\<lparr>unread := []\<rparr>,
      w\<lparr>written := written w @ unread s\<rparr>)"
  by (simp add: io_Copy_def sink_write_open)

lemma sink_write_capacity: "sink_write w s = (w', e) \<Longrightarrow> capacity w = None \<Longrightarrow> capacity w' = None \<and> e = None"
  by (auto simp: sink_write_def)

text \<open>
  C29. Upgraded connections: after a response that switches protocols, the client gets
  the response head as it came and then the upstream's bytes, and the upstream gets
  everything the client sends after its request; but the first \<open>te_resp_lost\<close> bytes of
  the upstream, those that the response reader had already buffered behind the head, are
  lost, because the tunnel reads from the connection and not from that reader.
\<close>

theorem upgraded_tunnel:
  assumes "Method req \<noteq> ''CONNECT''" and "capacity (c_out c) = None"
    and "writeHTTPRequest req (c_in c) (up_out p) = (None, s1, u1)" and "capacity u1 = None"
    and "ReadResponse (te_lib env) (up_in p) = (Inr resp, i1)" and "Upgraded resp"
  shows "\<exists>e p'. exchange env serverName addr req p c =
      (Some e, \<lparr>c_in = s1\<lparr>unread := []\<rparr>,
        c_out = (c_out c)\<lparr>written := written (c_out c) @ responseHeaderText resp [] @
          drop (te_resp_lost env) (unread i1)\<rparr>,
        c_peers = c_peers c @ [(addr, p')]\<rparr>) \<and>
    written (up_out p') = written u1 @ unread s1"
  using assms
  by (simp add: exchange_def Let_def writeHTTPResponse_def sink_write_open tunnel_conn_def proxyTunnel_def
      io_Copy_open drop_stream_def)

definition switching_stream :: stream where
  "switching_stream = \<lparr>unread = ''HTTP/1.1 101 Switching'' @ CRLF @
     concat (map field_text [(''Upgrade'', ''websocket''), (''Connection'', ''Upgrade'')]) @ CRLF @ ''frames'', at_end = EOF\<rparr>"

definition ws_env :: tcp_env where
  "ws_env = \<lparr>te_lib = demo_lib, te_dial = (\<lambda>_. Inl ''unused''), te_lost = 0, te_resp_lost = 2,
     te_up_first = True, te_regexp = (\<lambda>_ _. None), te_order = (\<lambda>_. []), te_rand = 0, te_sha = id,
     te_cred = demo_cred_env True 0, te_ids = (\<lambda>_. demo_id_env True 0)\<rparr>"

lemma switching_response:
  "\<exists>resp. ReadResponse demo_lib switching_stream = (Inr resp, \<lparr>unread = ''frames'', at_end = EOF\<rparr>) \<and> Upgraded resp"
proof -
  let ?fields = "[(''Upgrade'', ''websocket''), (''Connection'', ''Upgrade'')]"
  have "LF \<notin> set ''HTTP/1.1 101 Switching''" by (simp add: LF_def char_of_def bit_0)
  then have line: "ReadLine switching_stream = (Inr ''HTTP/1.1 101 Switching'',
      \<lparr>unread = concat (map field_text ?fields) @ CRLF @ ''frames'', at_end = EOF\<rparr>)"
    using ReadLine_CRLF [of switching_stream "''HTTP/1.1 101 Switching''"] by (simp add: switching_stream_def)
  have "list_all plain_field ?fields" by code_simp
  then have header: "ReadMIMEHeader \<lparr>unread = concat (map field_text ?fields) @ CRLF @ ''frames'', at_end = EOF\<rparr> =
      (Inr [(''Upgrade'', [''websocket'']), (''Connection'', [''Upgrade''])], \<lparr>unread = ''frames'', at_end = EOF\<rparr>)"
    using ReadMIMEHeader_fields [of ?fields "\<lparr>unread = _, at_end = EOF\<rparr>" "''frames''"] by simp
  have status: "parse_status_line ''HTTP/1.1 101 Switching'' = Inr (''HTTP/1.1'', ''101 Switching'', 101)"
    by (simp add: parse_status_line_def str_eval TrimLeft_def Atoi_def is_digit_def digit_val_def)
  have keys: "CanonicalHeaderKey ''Upgrade'' = ''Upgrade''" "CanonicalHeaderKey ''Connection'' = ''Connection''"
    "TrimString ''websocket'' = ''websocket''" "hasToken ''Upgrade'' ''upgrade''"
    by code_simp+
  show ?thesis
    unfolding ReadResponse_def line header prod.case sum.case status
    by (simp add: ParseHTTPVersion_def fixPragmaCacheControl_def Let_def keys fillRespContentLength_def
        fillRespTransferEncoding_def fillRespUpgrade_def parseTransferEncoding_def header_Get_def header_get_def)
qed

theorem upgraded_tunnel_witness:
  "\<exists>e head peers. exchange ws_env [] ''127.0.0.1:80'' get_request
      \<lparr>up_in = switching_stream, up_out = \<lparr>written = [], capacity = None\<rparr>\<rparr>
      \<lparr>c_in = \<lparr>unread = ''client'', at_end = EOF\<rparr>, c_out = \<lparr>written = [], capacity = None\<rparr>, c_peers = []\<rparr> =
    (Some e, \<lparr>c_in = \<lparr>unread = [], at_end = EOF\<rparr>,
       c_out = \<lparr>written = head @ ''ames'', capacity = None\<rparr>, c_peers = peers\<rparr>)"
proof -
  let ?p = "\<lparr>up_in = switching_stream, up_out = \<lparr>written = [], capacity = None\<rparr>\<rparr>"
  let ?c = "\<lparr>c_in = \<lparr>unread = ''client'', at_end = EOF\<rparr>, c_out = \<lparr>written = [], capacity = None\<rparr>, c_peers = []\<rparr>"
  obtain resp where r: "ReadResponse (te_lib ws_env) (up_in ?p) = (Inr resp, \<lparr>unread = ''frames'', at_end = EOF\<rparr>)"
    "Upgraded resp" using switching_response by (auto simp: ws_env_def)
  have key: "CanonicalHeaderKey ''Transfer-Encoding'' = ''Transfer-Encoding''" by code_simp
  have w: "writeHTTPRequest get_request (c_in ?c) (up_out ?p) =
      (None, c_in ?c, \<lparr>written = requestHeaderText get_request, capacity = None\<rparr>)"
    by (simp add: writeHTTPRequest_def sink_write_def requestIsChunked_def get_request_def header_Get_def
        header_get_def str_eval EqualFold_def)
  have "Method get_request \<noteq> ''CONNECT''" by (simp add: get_request_def)
  from upgraded_tunnel [OF this _ w _ r] show ?thesis by (fastforce simp: ws_env_def)
qed

end
