(* ===== verification/Outbound.thy ===== *)
theory Outbound
  imports Tcp_Proxy
begin

text \<open>
  The outbound handler, \<open>cmd/proxy/outbound.go\<close> with \<open>HttpProc\<close> of \<open>http.go\<close>: plain HTTP
  requests with routing and credential injection, interception of TLS for the hosts of
  the runtime configuration, and tunnels for everything else.

  The TLS stack and the HTTP servers behind it are the environment \<open>mitm_env\<close>: the
  outcome of the handshake for the certificate they are given, the requests they hand to
  \<open>ServeHTTP\<close> and the error they end with.
\<close>

section \<open>HTTP requests\<close>

definition to_route_request :: "request \<Rightarrow> route_request" where
  "to_route_request r =
     \<lparr>rq_Host = Host r, rq_Method = Method r, rq_Authority = Authority r,
      rq_Scheme = u_Scheme (r_URL r), rq_RequestURI = RequestURI r,
      rq_Header = header_Get (Header r), rq_Query = u_Query (r_URL r), rq_Port = r_Port r\<rparr>"

definition endpoint_addr :: "endpoint \<Rightarrow> string" where
  "endpoint_addr e = Ip e @ '':'' @ Port e"

text \<open>Setting the header of an injection on a header map.\<close>

definition set_injected :: "injection \<Rightarrow> header \<Rightarrow> header" where
  "set_injected injd h = (case in_Header injd of Some (k, v) \<Rightarrow> header_Set h k v | None \<Rightarrow> h)"

definition HttpProc ::
  "tcp_env \<Rightarrow> config \<Rightarrow> outbound_identity \<Rightarrow> string \<Rightarrow> conn \<Rightarrow> ob_state
     \<Rightarrow> proxy_error option \<times> conn \<times> ob_state" where
  "HttpProc env conf ob dstHost c st =
     (case ReadRequest (te_lib env) (c_in c) of
        (Inl e, s1) \<Rightarrow> (Some (BadRequest e), c\<lparr>c_in := s1\<rparr>, st)
      | (Inr req, s1) \<Rightarrow>
          (case enforce_conn (Some conf) outboundDirection (TargetDomain req) dstHost (c\<lparr>c_in := s1\<rparr>) of
             (Some e, c1) \<Rightarrow> (Some e, c1, st)
           | (None, c1) \<Rightarrow>
               (case Match (te_regexp env) (te_order env) (te_rand env) (to_route_request req) (os_routes st) of
                  (m, store') \<Rightarrow>
                    let st1 = st\<lparr>os_routes := (fst (os_routes st), store')\<rparr>;
                        go = (\<lambda>dst.
                          let (injd, creds') = applyCredentialInjection (te_sha env) ob (te_cred env) (te_ids env)
                                (TargetDomain req) (header_Get (Header req)) (os_creds st1);
                              st2 = st1\<lparr>os_creds := creds'\<rparr>
                          in (case in_Error injd of
                                Some e \<Rightarrow> (Some (InjectionFailed e), c1, st2)
                              | None \<Rightarrow>
                                  let req' = req\<lparr>Header := set_injected injd (Header req)\<rparr>;
                                      (e, c2) = proxyHTTPRequest env (ServerName conf) req' dst c1
                                  in (e, c2, st2)))
                    in (case m of
                          MatchPanic \<Rightarrow> (Some Panicked, c1, st1)
                        | MatchEndpoint None \<Rightarrow> (Some Panicked, c1, st1)
                        | MatchEndpoint (Some e) \<Rightarrow> go (endpoint_addr e)
                        | MatchError _ \<Rightarrow> go dstHost))))"

definition isHTTPRequestPrefix :: "string \<Rightarrow> bool" where
  "isHTTPRequestPrefix header \<longleftrightarrow>
     HasPrefix header ''GET'' \<or> HasPrefix header ''POST'' \<or> HasPrefix header ''HEAD'' \<or>
     HasPrefix header ''CONNECT'' \<or> HasPrefix header ''OPTIONS'' \<or> HasPrefix header ''PUT'' \<or>
     HasPrefix header ''DELETE'' \<or> HasPrefix header ''PATCH''"

section \<open>Interception\<close>

datatype mitmProtocol = mitmProtocolHTTP1 | mitmProtocolHTTP2 | mitmProtocolGenericTLS

definition http2ClientPreface :: string where
  "http2ClientPreface = ''PRI * HTTP/2.0'' @ CRLF @ CRLF @ ''SM'' @ CRLF @ CRLF"

definition detectMITMProtocol :: "stream \<Rightarrow> string \<Rightarrow> io_error + mitmProtocol" where
  "detectMITMProtocol plain negotiated =
     (if negotiated = ''h2'' then Inr mitmProtocolHTTP2
      else if negotiated = ''http/1.1'' then Inr mitmProtocolHTTP1
      else (case Peek (conn_reader plain) (length http2ClientPreface) of
              (bytes, err) \<Rightarrow>
                let peek = bytes_to_string bytes;
                    sniff = (if peek = [] then mitmProtocolGenericTLS
                             else if length http2ClientPreface \<le> length peek \<and>
                               take (length http2ClientPreface) peek = http2ClientPreface
                             then mitmProtocolHTTP2
                             else if isHTTPRequestPrefix (take (min (length peek) 5) peek)
                             then mitmProtocolHTTP1 else mitmProtocolGenericTLS)
                in (case err of
                      None \<Rightarrow> Inr sniff
                    | Some e \<Rightarrow>
                        if e = Timeout then Inr mitmProtocolGenericTLS
                        else if e = ErrBufferFull \<or> e = EOF then Inr sniff
                        else Inl e)))"

definition extractHost :: "string \<Rightarrow> string" where
  "extractHost addr = normalizeHost addr"

definition shouldMITM :: "config \<Rightarrow> cert_store option \<Rightarrow> rc_manager option \<Rightarrow> string \<Rightarrow> string \<Rightarrow> bool" where
  "shouldMITM conf certs runtime serverName dstHost =
     (case (certs, runtime) of
        (Some _, Some rc) \<Rightarrow>
          MITMEnabled conf \<and>
          (let host = normalizeHost serverName;
               host' = (if host = [] then extractHost dstHost else host)
           in MITMEnabledForHost rc host')
      | _ \<Rightarrow> False)"

text \<open>Transports: one per server name that upstream certificates are verified against.\<close>

record transport =
  tr_ServerName :: string
  tr_RootCAs :: "string option"
  ForceAttemptHTTP2 :: bool

record transport_cache =
  rootCAs :: "string option"
  transports :: "string \<rightharpoonup> transport"

definition newMITMHTTPTransport :: "string \<Rightarrow> string option \<Rightarrow> transport" where
  "newMITMHTTPTransport serverName cas =
     \<lparr>tr_ServerName = serverName, tr_RootCAs = cas, ForceAttemptHTTP2 = True\<rparr>"

definition newMITMTransportCache :: "string option \<Rightarrow> transport_cache" where
  "newMITMTransportCache cas = \<lparr>rootCAs = cas, transports = Map.empty\<rparr>"

definition Transport :: "string \<Rightarrow> transport_cache \<Rightarrow> transport \<times> transport_cache" where
  "Transport serverName tc =
     (case transports tc serverName of
        Some t \<Rightarrow> (t, tc)
      | None \<Rightarrow>
          let t = newMITMHTTPTransport serverName (rootCAs tc)
          in (t, tc\<lparr>transports := (transports tc)(serverName \<mapsto> t)\<rparr>))"

record mitmHandler =
  h_dstHost :: string
  h_serverName :: string
  h_transports :: transport_cache

text \<open>A request as it leaves for the upstream server.\<close>

record forwarded =
  fw_Scheme :: string
  fw_Addr :: string
  fw_Host :: string
  fw_Header :: header
  fw_Transport :: transport

datatype mitm_reply =
    Misdirected
  | BadGateway vault_error
  | Forwarded string forwarded

definition RoundTrip :: "string \<Rightarrow> string \<Rightarrow> string \<Rightarrow> header \<Rightarrow> transport_cache \<Rightarrow> forwarded \<times> transport_cache" where
  "RoundTrip targetAddr serverName host h tc =
     (let (t, tc') = Transport serverName tc in
      (\<lparr>fw_Scheme = ''https'', fw_Addr = targetAddr, fw_Host = host, fw_Header = h, fw_Transport = t\<rparr>, tc'))"

record serve_env =
  se_sha :: "string \<Rightarrow> string"
  se_cred :: cred_env
  se_ids :: "nat \<Rightarrow> id_env"

definition ServeHTTP ::
  "serve_env \<Rightarrow> outbound_identity \<Rightarrow> mitm_request \<Rightarrow> mitmHandler \<times> cred_state
     \<Rightarrow> mitm_reply \<times> mitmHandler \<times> cred_state" where
  "ServeHTTP env ob r = (\<lambda>(h, creds).
     let host = normalizeHost (mr_Host r);
         targetHost = (if host = [] then h_serverName h else host)
     in if h_serverName h \<noteq> [] \<and> targetHost \<noteq> [] \<and> targetHost \<noteq> h_serverName h
        then (Misdirected, h, creds)
        else
          let (injd, creds') = applyCredentialInjection (se_sha env) ob (se_cred env) (se_ids env)
                targetHost (header_Get (mr_Header r)) creds
          in (case in_Error injd of
                Some e \<Rightarrow> (BadGateway e, h, creds')
              | None \<Rightarrow>
                  let (fw, tc') = RoundTrip (h_dstHost h) targetHost (mr_Host r)
                        (set_injected injd (mr_Header r)) (h_transports h)
                  in (Forwarded targetHost fw, h\<lparr>h_transports := tc'\<rparr>, creds')))"

fun serve_all ::
  "outbound_identity \<Rightarrow> (serve_env \<times> mitm_request) list \<Rightarrow> mitmHandler \<times> cred_state
     \<Rightarrow> mitm_reply list \<times> mitmHandler \<times> cred_state" where
  "serve_all ob [] hs = ([], hs)"
| "serve_all ob ((env, r) # rs) hs =
     (case ServeHTTP env ob r hs of
        (reply, hs1) \<Rightarrow> (case serve_all ob rs hs1 of (replies, hs2) \<Rightarrow> (reply # replies, hs2)))"

record mitm_env =
  me_roots :: "string option"
  me_hello_name :: string
  me_leaf1 :: leaf_env
  me_leaf2 :: leaf_env
  me_x509 :: x509_lib
  me_handshake :: "cert_error + tls_certificate \<Rightarrow> string + tls_session"
  me_requests :: "(serve_env \<times> mitm_request) list"
  me_serve_error :: "string option"
  me_dial :: "string \<Rightarrow> string + peer"
  me_up_handshake :: "string \<Rightarrow> string option"
  me_buffered :: nat
  me_consumed :: nat

definition NewBufferedConn :: "stream \<Rightarrow> string \<Rightarrow> stream" where
  "NewBufferedConn s preRead = s\<lparr>unread := preRead @ unread s\<rparr>"

definition proxyMITMTLSConnection ::
  "mitm_env \<Rightarrow> bool \<Rightarrow> stream \<Rightarrow> string \<Rightarrow> string \<Rightarrow> conn \<Rightarrow> handled" where
  "proxyMITMTLSConnection menv up_first plain dstHost serverName c =
     (case me_dial menv dstHost of
        Inl e \<Rightarrow> (Some (DialFailed e), c)
      | Inr p \<Rightarrow>
          (case me_up_handshake menv serverName of
             Some e \<Rightarrow> (Some (MitmFailed e), c\<lparr>c_peers := c_peers c @ [(dstHost, p)]\<rparr>)
           | None \<Rightarrow>
               (case proxyRawConnection up_first dstHost p (c\<lparr>c_in := plain\<rparr>) of
                  (e, c1) \<Rightarrow> (e, c1\<lparr>c_in := c_in c, c_out := c_out c\<rparr>))))"

text \<open>
  \<open>mitmTLSProc\<close>. The client's sink is left alone: what goes out is encrypted by the TLS
  stack. The stack reads the peeked bytes and then \<open>me_consumed\<close> bytes of the connection.
\<close>

definition mitm_certificate ::
  "mitm_env \<Rightarrow> tls_certificate option \<Rightarrow> cert_store \<Rightarrow> (cert_error + tls_certificate) \<times> cert_store" where
  "mitm_certificate menv fallback cs =
     (case fallback of
        Some cert \<Rightarrow>
          if normalizeHost (me_hello_name menv) = [] then (Inr cert, cs)
          else GetCertificate (me_x509 menv) (me_leaf2 menv) (me_hello_name menv) cs
      | None \<Rightarrow> GetCertificate (me_x509 menv) (me_leaf2 menv) (me_hello_name menv) cs)"

definition mitm_session ::
  "mitm_env \<Rightarrow> bool \<Rightarrow> outbound_identity \<Rightarrow> string \<Rightarrow> string \<Rightarrow> tls_session \<Rightarrow> conn \<Rightarrow> cred_state
     \<Rightarrow> proxy_error option \<times> conn \<times> cred_state \<times> mitm_reply list" where
  "mitm_session menv up_first ob dstHost fallbackHost ses c creds =
     (let sn = normalizeHost (ts_ServerName ses);
          serverName = (if sn = [] then normalizeHost fallbackHost else sn);
          handler = \<lparr>h_dstHost = dstHost, h_serverName = serverName,
            h_transports = newMITMTransportCache (me_roots menv)\<rparr>
      in (case detectMITMProtocol (ts_plain ses) (ts_NegotiatedProtocol ses) of
            Inl e \<Rightarrow> (Some (RelayFailed (RelayRead e)), c, creds, [])
          | Inr mitmProtocolGenericTLS \<Rightarrow>
              (case proxyMITMTLSConnection menv up_first (ts_plain ses) dstHost serverName c of
                 (e, c1) \<Rightarrow> (e, c1, creds, []))
          | Inr p \<Rightarrow>
              (case serve_all ob (me_requests menv) (handler, creds) of
                 (replies, _, creds') \<Rightarrow>
                   (if p = mitmProtocolHTTP1 then map_option MitmFailed (me_serve_error menv) else None,
                    c, creds', replies))))"

definition mitmTLSProc ::
  "mitm_env \<Rightarrow> bool \<Rightarrow> outbound_identity \<Rightarrow> cert_store \<Rightarrow> string \<Rightarrow> string \<Rightarrow> conn \<Rightarrow> cred_state
     \<Rightarrow> proxy_error option \<times> conn \<times> cert_store \<times> cred_state \<times> mitm_reply list" where
  "mitmTLSProc menv up_first ob cs dstHost fallbackHost c creds =
     (let preRead = take (me_buffered menv) (unread (c_in c));
          name = normalizeHost fallbackHost;
          (fallback, cs1) = (if name = [] then (Inr None, cs)
            else (case GetCertificate (me_x509 menv) (me_leaf1 menv) name cs of
                    (Inl e, cs') \<Rightarrow> (Inl e, cs') | (Inr cert, cs') \<Rightarrow> (Inr (Some cert), cs')))
      in (case fallback of
            Inl _ \<Rightarrow> (Some (MitmFailed ''prepare mitm certificate''), c, cs1, creds, [])
          | Inr fallbackCert \<Rightarrow>
              let (cert, cs2) = mitm_certificate menv fallbackCert cs1;
                  c1 = c\<lparr>c_in := NewBufferedConn
                    (drop_stream (me_buffered menv + me_consumed menv) (c_in c)) preRead\<rparr>
              in (case me_handshake menv cert of
                    Inl e \<Rightarrow> (Some (MitmFailed e), c1, cs2, creds, [])
                  | Inr ses \<Rightarrow>
                      (case mitm_session menv up_first ob dstHost fallbackHost ses c1 creds of
                         (e, c2, creds', replies) \<Rightarrow> (e, c2, cs2, creds', replies)))))"

section \<open>Connections\<close>

definition proxyTLSPassthrough :: "tcp_env \<Rightarrow> string \<Rightarrow> conn \<Rightarrow> handled" where
  "proxyTLSPassthrough env dstHost c = raw_conn env dstHost c"

text \<open>The part of a turn for connections that do not begin with an HTTP method.\<close>

definition outbound_tls ::
  "tcp_env \<Rightarrow> mitm_env \<Rightarrow> config \<Rightarrow> outbound_identity \<Rightarrow> string \<Rightarrow> conn \<Rightarrow> ob_state
     \<Rightarrow> proxy_error option \<times> conn \<times> ob_state \<times> mitm_reply list" where
  "outbound_tls env menv conf ob dstHost c st =
     (case PeekClientHelloServerName (conn_reader (c_in c)) of
        (serverName, isTLS, err) \<Rightarrow>
          (case (os_certs st, err = None \<and> isTLS \<and>
                   shouldMITM conf (os_certs st) (ob_RuntimeConfig ob) serverName dstHost) of
             (Some cs, True) \<Rightarrow>
               (case enforce_conn (Some conf) outboundDirection (normalizeHost serverName) dstHost c of
                  (Some e, c1) \<Rightarrow> (Some e, c1, st, [])
                | (None, c1) \<Rightarrow>
                    (case mitmTLSProc menv (te_up_first env) ob cs dstHost serverName c1 (os_creds st) of
                       (e, c2, cs', creds', replies) \<Rightarrow>
                         let st' = st\<lparr>os_certs := Some cs', os_creds := creds'\<rparr> in
                         (case e of
                            None \<Rightarrow> (Some ConnectionDone, c2, st', replies)
                          | Some _ \<Rightarrow>
                              (Some ConnectionDone, snd (proxyTLSPassthrough env dstHost c2), st', replies))))
           | _ \<Rightarrow>
               (case enforce_raw (Some conf) outboundDirection dstHost c of
                  (Some e, c1) \<Rightarrow> (Some e, c1, st, [])
                | (None, c1) \<Rightarrow>
                    (case proxyTLSPassthrough env dstHost c1 of (e, c2) \<Rightarrow> (e, c2, st, [])))))"

definition outbound_turn ::
  "tcp_env \<Rightarrow> mitm_env \<Rightarrow> config \<Rightarrow> outbound_identity \<Rightarrow> string \<Rightarrow> conn \<Rightarrow> ob_state
     \<Rightarrow> proxy_error option \<times> string \<times> conn \<times> ob_state \<times> mitm_reply list" where
  "outbound_turn env menv conf ob dstHost c st =
     (case Peek (conn_reader (c_in c)) 5 of
        (_, Some e) \<Rightarrow> (Some (RelayFailed (RelayRead e)), dstHost, c, st, [])
      | (peek, None) \<Rightarrow>
          if isHTTPRequestPrefix (bytes_to_string peek) then
            let dst = (if dstHost = [] then ''192.168.0.105:28080'' else dstHost);
                (e, c1, st1) = HttpProc env conf ob dst c st
            in (e, dst, c1\<lparr>c_in := drop_stream (te_lost env) (c_in c1)\<rparr>, st1, [])
          else
            let dst = (if dstHost = [] then ''192.168.0.105:28081'' else dstHost);
                (e, c1, st1, replies) = outbound_tls env menv conf ob dst c st
            in (e, dst, c1, st1, replies))"

fun outbound_proc ::
  "config \<Rightarrow> outbound_identity \<Rightarrow> (tcp_env \<times> mitm_env) list \<Rightarrow> string \<Rightarrow> conn \<Rightarrow> ob_state
     \<Rightarrow> proxy_error option \<times> conn \<times> ob_state \<times> mitm_reply list" where
  "outbound_proc conf ob [] dst c st = (None, c, st, [])"
| "outbound_proc conf ob ((env, menv) # envs) dst c st =
     (case outbound_turn env menv conf ob dst c st of
        (Some e, _, c1, st1, replies) \<Rightarrow> (Some e, c1, st1, replies)
      | (None, dst1, c1, st1, _) \<Rightarrow> outbound_proc conf ob envs dst1 c1 st1)"

section \<open>Policy before upstream\<close>

lemma enforce_conn_cases:
  "enforce_conn conf dir domain target c =
     (if Allowed (config_decision conf dir domain target) then (None, c)
      else (Some ConnectionDone,
        c\<lparr>c_out := fst (writeDomainPolicyForbidden (c_out c) (Reason (config_decision conf dir domain target)))\<rparr>))"
  by (simp add: enforce_conn_def enforceDomainPolicy_cases)

text \<open>The domain under which a raw connection is judged.\<close>

definition raw_domain :: "stream \<Rightarrow> string" where
  "raw_domain s =
     (case PeekClientHelloServerName (conn_reader s) of
        (serverName, isTLS, err) \<Rightarrow> if err = None \<and> isTLS then serverName else [])"

lemma enforce_raw_cases:
  "enforce_raw conf dir target c =
     (if Allowed (config_decision conf dir (raw_domain (c_in c)) target) then (None, c)
      else (Some ConnectionDone,
        c\<lparr>c_out := fst (writeDomainPolicyForbidden (c_out c)
          (Reason (config_decision conf dir (raw_domain (c_in c)) target)))\<rparr>))"
  by (simp add: enforce_raw_def enforceRawDomainPolicy_def raw_domain_def enforceDomainPolicy_cases Let_def
      split: prod.split)

definition refused :: "config \<Rightarrow> string \<Rightarrow> string \<Rightarrow> string \<Rightarrow> conn \<Rightarrow> stream \<Rightarrow> conn" where
  "refused conf dir domain target c s =
     c\<lparr>c_in := s, c_out := fst (sink_write (c_out c)
       (forbidden_response (Reason (config_decision (Some conf) dir domain target))))\<rparr>"

text \<open>
  C25. A request for a domain that the policy refuses goes nowhere: in both directions
  the handler opens no upstream connection, asks for no credential, answers with the 403
  response for the policy's reason, and ends the connection.
\<close>

theorem denied_request_refused:
  assumes "ReadRequest (te_lib env) (c_in c) = (Inr req, s1)"
  shows
    "(\<not> Allowed (config_decision (Some conf) outboundDirection (TargetDomain req) dst) \<longrightarrow>
       HttpProc env conf ob dst c st =
         (Some ConnectionDone, refused conf outboundDirection (TargetDomain req) dst c s1, st)) \<and>
     (\<not> Allowed (config_decision (Some conf) inboundDirection (TargetDomain req) dst) \<longrightarrow>
       HttpProc2 env conf dst dial c =
         (Some ConnectionDone, refused conf inboundDirection (TargetDomain req) dst c s1))"
  using assms
  by (simp add: HttpProc_def HttpProc2_def enforce_conn_cases refused_def writeDomainPolicyForbidden_def)

text \<open>A configuration that refuses everything, and an environment without network.\<close>

definition deny_policy :: policy where
  "deny_policy = \<lparr>rules = [DirectionOutbound \<mapsto> \<lparr>mode = ModeDefaultDeny, allow = empty_matcher, block = empty_matcher\<rparr>]\<rparr>"

definition deny_config :: config where
  "deny_config = \<lparr>ServerName = [], DomainPolicy = Some (NewStaticManager 0 (Some deny_policy) ScopeOutbound),
     MITMEnabled = False\<rparr>"

definition demo_tcp_env :: tcp_env where
  "demo_tcp_env = \<lparr>te_lib = demo_lib, te_dial = (\<lambda>_. Inl ''refused''), te_lost = 0, te_resp_lost = 0,
     te_up_first = True, te_regexp = (\<lambda>_ _. None), te_order = (\<lambda>_. []), te_rand = 0, te_sha = id,
     te_cred = demo_cred_env True 0, te_ids = (\<lambda>_. demo_id_env True 0)\<rparr>"

definition demo_conn :: conn where
  "demo_conn = \<lparr>c_in = demo_stream, c_out = \<lparr>written = [], capacity = None\<rparr>, c_peers = []\<rparr>"

definition demo_ob_state :: ob_state where
  "demo_ob_state = \<lparr>os_routes = (NewMaps, empty_store), os_creds = no_state, os_certs = None\<rparr>"

lemma deny_config_denies:
  "config_decision (Some deny_config) outboundDirection domain target = denied ''domain_policy_allowlist''"
  by (simp add: config_decision_def deny_config_def Manager_Evaluate_def NewStaticManager_def setPolicy_def
      NewManager_def default_options_def Enabled_def directionEnabled_def Evaluate_def deny_policy_def
      outboundDirection_def scope_consts policy_consts str_eval Let_def)

theorem denied_request_refused_witness:
  "\<exists>req s1. ReadRequest demo_lib demo_stream = (Inr req, s1) \<and>
     HttpProc demo_tcp_env deny_config demo_ob ''198.51.100.25:80'' demo_conn demo_ob_state =
       (Some ConnectionDone,
        refused deny_config outboundDirection (TargetDomain req) ''198.51.100.25:80'' demo_conn s1, demo_ob_state)"
proof -
  obtain req s1 where r: "ReadRequest demo_lib demo_stream = (Inr req, s1)" using demo_request by blast
  then have "ReadRequest (te_lib demo_tcp_env) (c_in demo_conn) = (Inr req, s1)"
    by (simp add: demo_tcp_env_def demo_conn_def)
  from denied_request_refused [OF this, of deny_config "''198.51.100.25:80''"] r show ?thesis
    by (auto simp: deny_config_denies denied_def)
qed

lemma HttpProc_denied:
  assumes "\<And>domain. \<not> Allowed (config_decision (Some conf) outboundDirection domain dst)"
    and "HttpProc env conf ob dst c st = (e, c', st')"
  shows "e \<noteq> None \<and> c_peers c' = c_peers c \<and> st' = st"
  using assms by (auto simp: HttpProc_def enforce_conn_cases split: prod.splits sum.splits)

lemma outbound_tls_denied:
  assumes "\<And>domain. \<not> Allowed (config_decision (Some conf) outboundDirection domain dst)"
    and "outbound_tls env menv conf ob dst c st = (e, c', st', replies)"
  shows "e \<noteq> None \<and> c_peers c' = c_peers c \<and> st' = st \<and> replies = []"
  using assms
  by (auto simp: outbound_tls_def enforce_conn_cases enforce_raw_cases split: prod.splits option.splits bool.splits)

lemma denied_target_no_effect:
  assumes "\<And>domain. \<not> Allowed (config_decision (Some conf) outboundDirection domain dst)"
    and "dst \<noteq> []" and "outbound_proc conf ob envs dst c st = (e, c', st', replies)"
  shows "c_peers c' = c_peers c \<and> st' = st \<and> replies = []"
proof (cases envs)
  case Nil
  with assms(3) show ?thesis by simp
next
  case (Cons x rest)
  obtain env menv where x: "x = (env, menv)" by (cases x)
  obtain e1 d1 c1 st1 r1 where turn: "outbound_turn env menv conf ob dst c st = (e1, d1, c1, st1, r1)"
    by (metis prod_cases5)
  have "e1 \<noteq> None \<and> c_peers c1 = c_peers c \<and> st1 = st \<and> r1 = []"
    using turn HttpProc_denied [OF assms(1)] outbound_tls_denied [OF assms(1)] assms(2)
    by (auto simp: outbound_turn_def Let_def split: prod.splits option.splits if_splits; fastforce)
  with assms(3) show ?thesis by (auto simp: Cons x turn split: option.splits)
qed

text \<open>
  A refused target is never reached: when the policy refuses an original target
  whatever domain the client presents (a blocked network), then over the whole life of
  an outbound connection to it, for every client input and every environment, no
  upstream connection is opened, no intercepted request is forwarded and no credential
  is requested.
\<close>

theorem denied_target_unreached:
  assumes "\<And>domain. \<not> Allowed (config_decision (Some conf) outboundDirection domain dst)"
    and "dst \<noteq> []" and "outbound_proc conf ob envs dst c st = (e, c', st', replies)"
  shows "c_peers c' = c_peers c \<and> st' = st \<and> replies = []"
  by (rule denied_target_no_effect [OF assms])

definition demo_mitm_env :: mitm_env where
  "demo_mitm_env = \<lparr>me_roots = None, me_hello_name = [], me_leaf1 = demo_leaf_env 0, me_leaf2 = demo_leaf_env 0,
     me_x509 = demo_x509, me_handshake = (\<lambda>_. Inl ''closed''), me_requests = [], me_serve_error = None,
     me_dial = (\<lambda>_. Inl ''refused''), me_up_handshake = (\<lambda>_. None), me_buffered = 0, me_consumed = 0\<rparr>"

theorem denied_target_unreached_witness:
  "\<exists>e c' st' replies. outbound_proc deny_config demo_ob [(demo_tcp_env, demo_mitm_env)] ''198.51.100.25:80''
      demo_conn demo_ob_state = (e, c', st', replies) \<and> c_peers c' = [] \<and> replies = []"
proof -
  obtain e c' st' replies where r: "outbound_proc deny_config demo_ob [(demo_tcp_env, demo_mitm_env)]
      ''198.51.100.25:80'' demo_conn demo_ob_state = (e, c', st', replies)"
    by (metis prod_cases4)
  have "\<not> Allowed (config_decision (Some deny_config) outboundDirection domain ''198.51.100.25:80'')" for domain
    by (simp add: deny_config_denies denied_def)
  from denied_target_unreached [OF this _ r] r show ?thesis by (auto simp: demo_conn_def)
qed

section \<open>TLS connections\<close>

lemma string_to_bytes_inverse [simp]: "string_to_bytes (bytes_to_string bs) = bs"
proof -
  have "unat b < 2 ^ LENGTH(8)" for b :: byte by (rule unsigned_less)
  then have "unat b mod 256 = unat b" for b :: byte by simp
  then show ?thesis by (induction bs) (simp_all add: string_to_bytes_def bytes_to_string_def)
qed

lemma normalizeHost_normalizeDomain: "normalizeHost s = normalizeDomain s"
  by (simp add: normalizeHost_def normalizeDomain_def strip_port_def Let_def split: sum.split)

lemma config_decision_cong:
  "normalizeDomain d = normalizeDomain d' \<Longrightarrow> config_decision conf dir d t = config_decision conf dir d' t"
  using Evaluate_cong [of d d']
  by (simp add: config_decision_def Manager_Evaluate_def split: option.split)

lemma config_decision_plain:
  "plain_name n \<Longrightarrow> config_decision conf dir (normalizeHost n) t = config_decision conf dir n t"
  by (rule config_decision_cong) (simp add: normalizeHost_normalizeDomain normalizeDomain_plain normalizeDomain_ToLower)

lemma HasPrefix_take5: "HasPrefix (take 5 s) m \<longleftrightarrow> HasPrefix s m \<and> length m \<le> 5"
proof
  assume "HasPrefix (take 5 s) m"
  then obtain r where r: "take 5 s = m @ r" by (auto simp: HasPrefix_def prefix_def)
  then have "length m \<le> 5" by (metis length_append length_take le_add1 min.bounded_iff)
  moreover have "s = m @ r @ drop 5 s" using r by (metis append.assoc append_take_drop_id)
  ultimately show "HasPrefix s m \<and> length m \<le> 5" unfolding HasPrefix_def by (metis prefixI)
next
  assume "HasPrefix s m \<and> length m \<le> 5"
  then show "HasPrefix (take 5 s) m" by (auto simp: HasPrefix_def prefix_def)
qed

lemma isHTTPRequestPrefix_take5:
  "isHTTPRequestPrefix (take 5 s) \<longleftrightarrow>
     HasPrefix s ''GET'' \<or> HasPrefix s ''POST'' \<or> HasPrefix s ''HEAD'' \<or> HasPrefix s ''PUT'' \<or> HasPrefix s ''PATCH''"
  by (auto simp: isHTTPRequestPrefix_def HasPrefix_take5)

lemma peek5:
  assumes "5 \<le> length (unread s)"
  shows "Peek (conn_reader s) 5 = (string_to_bytes (take 5 (unread s)), None)"
  using assms by (simp add: Peek_def conn_reader_def ClientHelloPeekBufferSize_def string_to_bytes_def take_map)

lemma raw_not_http:
  assumes "unread s = c # rest" "c \<notin> set ''GPH''"
  shows "\<not> isHTTPRequestPrefix (take 5 (unread s))"
  using assms unfolding isHTTPRequestPrefix_take5 by (auto simp: HasPrefix_def)

lemma outbound_turn_raw:
  assumes "5 \<le> length (unread (c_in c))" "\<not> isHTTPRequestPrefix (take 5 (unread (c_in c)))" "dst \<noteq> []"
    and "outbound_tls env menv conf ob dst c st = (e, c1, st1, replies)"
  shows "outbound_turn env menv conf ob dst c st = (e, dst, c1, st1, replies)"
  using assms by (simp add: outbound_turn_def peek5)

lemma hello_name:
  assumes "wf_hello h" "length (encode_hello h) + 4 \<le> maxTLSRecordLen"
    and "unread s = bytes_to_string (encode_record version h @ rest)"
  shows "PeekClientHelloServerName (conn_reader s) =
    (bytes_to_string (advertised_name (hello_extensions h)), True, None)"
proof -
  let ?k = "length (encode_record version h @ rest)"
  have "incoming (conn_reader s) = take ?k (encode_record version h @ rest)"
    "ClientHelloPeekBufferSize \<le> buf_size (conn_reader s)" "5 \<le> ?k"
    using assms(3) by (simp_all add: conn_reader_def length_encode_record)
  with PeekClientHelloServerName_correct_aux [OF assms(1,2), of "conn_reader s" ?k version rest]
  show ?thesis by simp
qed

text \<open>
  C26. A TLS client that asks for a refused server name is turned away: when a connection
  begins with a well-formed hello whose server name the policy refuses for the original
  target, the outbound handler answers 403 and closes; it opens no upstream connection
  and performs no interception, whether the name is one to intercept or not.
\<close>

theorem refused_server_name:
  assumes "wf_hello h" and "length (encode_hello h) + 4 \<le> maxTLSRecordLen"
    and "unread (c_in c) = bytes_to_string (encode_record version h @ rest)"
    and "name = bytes_to_string (advertised_name (hello_extensions h))" and "plain_name name"
    and "\<not> Allowed (config_decision (Some conf) outboundDirection name dst)" and "dst \<noteq> []"
  shows "outbound_proc conf ob ((env, menv) # envs) dst c st =
    (Some ConnectionDone, refused conf outboundDirection name dst c (c_in c), st, [])"
proof -
  note hello = hello_name [OF assms(1,2,3), folded assms(4)]
  have first: "unread (c_in c) = char_of (22 :: nat) # bytes_to_string (tl (encode_record version h) @ rest)"
    using assms(3) by (simp add: encode_record_split bytes_to_string_def)
  have "char_of (22 :: nat) \<notin> set ''GPH''" by (simp add: char_of_def bit_0)
  note http = raw_not_http [OF first this]
  have len: "5 \<le> length (unread (c_in c))" by (simp add: assms(3) bytes_to_string_def length_encode_record)
  have "raw_domain (c_in c) = name" by (simp add: raw_domain_def hello)
  then have "outbound_tls env menv conf ob dst c st =
      (Some ConnectionDone, refused conf outboundDirection name dst c (c_in c), st, [])"
    using assms(6) config_decision_plain [OF assms(5)]
    by (simp add: outbound_tls_def hello enforce_conn_cases enforce_raw_cases refused_def
        writeDomainPolicyForbidden_def split: option.split bool.split)
  from outbound_turn_raw [OF len http assms(7) this] show ?thesis by simp
qed

theorem refused_server_name_witness:
  "outbound_proc deny_config demo_ob [(demo_tcp_env, demo_mitm_env)] ''198.51.100.25:443''
     \<lparr>c_in = \<lparr>unread = bytes_to_string (encode_record 1 sample_hello), at_end = EOF\<rparr>,
      c_out = \<lparr>written = [], capacity = None\<rparr>, c_peers = []\<rparr> demo_ob_state =
   (Some ConnectionDone,
    \<lparr>c_in = \<lparr>unread = bytes_to_string (encode_record 1 sample_hello), at_end = EOF\<rparr>,
     c_out = \<lparr>written = forbidden_response ''domain_policy_allowlist'', capacity = None\<rparr>, c_peers = []\<rparr>,
    demo_ob_state, [])"
proof -
  have name: "bytes_to_string (advertised_name (hello_extensions sample_hello)) = ''a.example''"
    by (simp add: sample_hello_def)
  have "length (encode_hello sample_hello) + 4 \<le> maxTLSRecordLen"
    by (simp add: maxTLSRecordLen_def sample_hello_def encode_hello_def encode_name_def)
  moreover have "plain_name ''a.example''" by (simp add: plain_name_def is_space_def)
  moreover have "\<not> Allowed (config_decision (Some deny_config) outboundDirection ''a.example'' ''198.51.100.25:443'')"
    by (simp add: deny_config_denies denied_def)
  ultimately show ?thesis
    using refused_server_name [OF sample_hello_wf, of "\<lparr>c_in = \<lparr>unread =
        bytes_to_string (encode_record 1 sample_hello), at_end = EOF\<rparr>,
        c_out = \<lparr>written = [], capacity = None\<rparr>, c_peers = []\<rparr>" 1 "[]" "''a.example''" deny_config]
    by (simp add: name refused_def deny_config_denies denied_def sink_write_def)
qed

text \<open>
  C27. Requests with the methods \<open>CONNECT\<close>, \<open>OPTIONS\<close> and \<open>DELETE\<close> are not recognised:
  the handler looks at five bytes only, and these names are longer. Such a connection is
  tunnelled byte for byte to its original target whenever the policy allows that target
  with no domain at all, so that a refused \<open>Host\<close> is not noticed.
\<close>

theorem long_methods_tunnelled:
  assumes "m \<in> {''CONNECT'', ''OPTIONS'', ''DELETE''}" and "unread (c_in c) = m @ rest"
    and "dst \<noteq> []" and "Allowed (config_decision (Some conf) outboundDirection [] dst)"
    and "te_dial env dst = Inr p" and "capacity (up_out p) = None"
  shows "\<exists>e c' p'. outbound_proc conf ob ((env, menv) # envs) dst c st = (Some e, c', st, []) \<and>
    c_peers c' = c_peers c @ [(dst, p')] \<and> written (up_out p') = written (up_out p) @ m @ rest"
proof -
  obtain x where first: "unread (c_in c) = x # tl (unread (c_in c))" "x \<in> {CHR ''C'', CHR ''O'', CHR ''D''}"
    using assms(1,2) by auto
  have http: "\<not> isHTTPRequestPrefix (take 5 (unread (c_in c)))"
    by (rule raw_not_http [OF first(1)]) (use first(2) in auto)
  have len: "5 \<le> length (unread (c_in c))" using assms(1,2) by auto
  have "hd (string_to_bytes (take 5 (unread (c_in c)))) \<noteq> 22"
    using first(2) by (subst first(1)) (auto simp: string_to_bytes_def)
  then have peek: "PeekClientHelloServerName (conn_reader (c_in c)) = ([], False, None)"
    using len by (intro PeekClientHelloServerName_not_tls) (simp_all add: peek5)
  then have "raw_domain (c_in c) = []" by (simp add: raw_domain_def)
  then have "\<exists>e c' p'. outbound_tls env menv conf ob dst c st = (Some e, c', st, []) \<and>
      c_peers c' = c_peers c @ [(dst, p')] \<and> written (up_out p') = written (up_out p) @ m @ rest"
    using assms(2,4-6)
    by (auto simp: outbound_tls_def peek enforce_raw_cases proxyTLSPassthrough_def raw_conn_def
        proxyRawConnection_def tunnel_conn_def proxyTunnel_def io_Copy_def sink_write_open Let_def
        split: option.split bool.split prod.split)
  then show ?thesis using outbound_turn_raw [OF len http assms(3)] by fastforce
qed

definition demo_peer :: peer where
  "demo_peer = \<lparr>up_in = \<lparr>unread = [], at_end = EOF\<rparr>, up_out = \<lparr>written = [], capacity = None\<rparr>\<rparr>"

definition block_document :: config_document where
  "block_document = \<lparr>Rules = [\<lparr>Direction = ''outbound'', Mode = [], AllowList = [],
     BlockList = [''evil.example'']\<rparr>]\<rparr>"

definition block_policy :: policy where
  "block_policy = \<lparr>rules = [DirectionOutbound \<mapsto> \<lparr>mode = ModeDefaultAllow, allow = empty_matcher,
     block = empty_matcher\<lparr>domains := {''evil.example''}\<rparr>\<rparr>]\<rparr>"

definition block_config :: config where
  "block_config = \<lparr>ServerName = [], DomainPolicy = Some (NewStaticManager 0 (Some block_policy) ScopeOutbound),
     MITMEnabled = False\<rparr>"

lemma block_config_decides:
  "\<not> Allowed (config_decision (Some block_config) outboundDirection ''evil.example'' ''198.51.100.25:80'')"
  "Allowed (config_decision (Some block_config) outboundDirection [] ''198.51.100.25:80'')"
  by (simp_all add: config_decision_def block_config_def Manager_Evaluate_def NewStaticManager_def setPolicy_def
      NewManager_def default_options_def Enabled_def directionEnabled_def Evaluate_def block_policy_def
      outboundDirection_def scope_consts policy_consts str_eval Let_def matches_def normalizeDomain_def
      strip_port_def empty_matcher_def allowed_def denied_def split: option.split)

theorem long_methods_tunnelled_witness:
  "\<not> Allowed (config_decision (Some block_config) outboundDirection ''evil.example'' ''198.51.100.25:80'') \<and>
   (\<exists>e c' p'. outbound_proc block_config demo_ob [(demo_tcp_env\<lparr>te_dial := (\<lambda>_. Inr demo_peer)\<rparr>, demo_mitm_env)]
      ''198.51.100.25:80''
      (demo_conn\<lparr>c_in := \<lparr>unread = ''DELETE'' @ '' / HTTP/1.1'' @ CRLF @ ''Host: evil.example'' @ CRLF @ CRLF, at_end = EOF\<rparr>\<rparr>)
      demo_ob_state = (Some e, c', demo_ob_state, []) \<and>
    c_peers c' = [(''198.51.100.25:80'', p')] \<and>
    written (up_out p') = ''DELETE'' @ '' / HTTP/1.1'' @ CRLF @ ''Host: evil.example'' @ CRLF @ CRLF)"
  using long_methods_tunnelled [of "''DELETE''"
      "demo_conn\<lparr>c_in := \<lparr>unread = ''DELETE'' @ '' / HTTP/1.1'' @ CRLF @ ''Host: evil.example'' @ CRLF @ CRLF, at_end = EOF\<rparr>\<rparr>"
      "'' / HTTP/1.1'' @ CRLF @ ''Host: evil.example'' @ CRLF @ CRLF" "''198.51.100.25:80''" block_config
      "demo_tcp_env\<lparr>te_dial := (\<lambda>_. Inr demo_peer)\<rparr>" demo_peer]
    block_config_decides
  by (fastforce simp: demo_conn_def demo_peer_def)

section \<open>Intercepted requests\<close>

definition cache_ok :: "transport_cache \<Rightarrow> bool" where
  "cache_ok tc \<longleftrightarrow> (\<forall>k t. transports tc k = Some t \<longrightarrow> tr_ServerName t = k \<and> tr_RootCAs t = rootCAs tc)"

lemma Transport_ok:
  assumes "cache_ok tc" "Transport k tc = (t, tc')"
  shows "cache_ok tc'" "tr_ServerName t = k" "tr_RootCAs t = rootCAs tc" "rootCAs tc' = rootCAs tc"
  using assms by (auto simp: Transport_def cache_ok_def newMITMHTTPTransport_def Let_def split: option.splits if_splits)

definition handler_ok :: "string \<Rightarrow> string \<Rightarrow> string option \<Rightarrow> mitmHandler \<Rightarrow> bool" where
  "handler_ok dst name cas h \<longleftrightarrow>
     h_dstHost h = dst \<and> h_serverName h = name \<and> cache_ok (h_transports h) \<and> rootCAs (h_transports h) = cas"

definition forwarded_ok :: "string \<Rightarrow> string \<Rightarrow> string option \<Rightarrow> mitm_reply \<Rightarrow> bool" where
  "forwarded_ok dst name cas reply =
     (case reply of
        Forwarded target fw \<Rightarrow>
          fw_Addr fw = dst \<and> fw_Scheme fw = ''https'' \<and>
          tr_ServerName (fw_Transport fw) = target \<and> tr_RootCAs (fw_Transport fw) = cas \<and>
          (normalizeHost (fw_Host fw) = [] \<longrightarrow> target = name) \<and>
          (normalizeHost (fw_Host fw) \<noteq> [] \<longrightarrow> target = normalizeHost (fw_Host fw)) \<and>
          (name \<noteq> [] \<longrightarrow> target = name)
      | _ \<Rightarrow> True)"

lemma ServeHTTP_forwards:
  assumes "ServeHTTP env ob r (h, creds) = (reply, h', creds')"
  shows "reply = Misdirected \<and> h' = h \<or> (\<exists>e. reply = BadGateway e) \<and> h' = h \<or>
    (\<exists>target hd t tc'.
       target = (if normalizeHost (mr_Host r) = [] then h_serverName h else normalizeHost (mr_Host r)) \<and>
       \<not> (h_serverName h \<noteq> [] \<and> target \<noteq> [] \<and> target \<noteq> h_serverName h) \<and>
       Transport target (h_transports h) = (t, tc') \<and> h' = h\<lparr>h_transports := tc'\<rparr> \<and>
       reply = Forwarded target \<lparr>fw_Scheme = ''https'', fw_Addr = h_dstHost h, fw_Host = mr_Host r,
         fw_Header = hd, fw_Transport = t\<rparr>)"
proof -
  let ?target = "if normalizeHost (mr_Host r) = [] then h_serverName h else normalizeHost (mr_Host r)"
  obtain ij cr where i: "applyCredentialInjection (se_sha env) ob (se_cred env) (se_ids env) ?target
      (header_Get (mr_Header r)) creds = (ij, cr)" by fastforce
  obtain t tc' where t: "Transport ?target (h_transports h) = (t, tc')" by fastforce
  show ?thesis
  proof (cases "h_serverName h \<noteq> [] \<and> ?target \<noteq> [] \<and> ?target \<noteq> h_serverName h")
    case True
    then show ?thesis using assms unfolding ServeHTTP_def prod.case Let_def by simp
  next
    case False
    then show ?thesis
      using assms t unfolding ServeHTTP_def prod.case Let_def RoundTrip_def i
      by (cases "in_Error ij") (simp_all only: if_False option.case prod.case, auto)
  qed
qed

lemma ServeHTTP_ok:
  assumes "handler_ok dst name cas h" "ServeHTTP env ob r (h, creds) = (reply, h', creds')"
  shows "forwarded_ok dst name cas reply" "handler_ok dst name cas h'"
  using ServeHTTP_forwards [OF assms(2)] assms(1) Transport_ok [of "h_transports h"]
  by (fastforce simp: handler_ok_def forwarded_ok_def split: if_splits)+

lemma serve_all_ok:
  assumes "handler_ok dst name cas h" "serve_all ob rs (h, creds) = (replies, h', creds')"
  shows "list_all (forwarded_ok dst name cas) replies"
  using assms
proof (induction rs arbitrary: h creds replies)
  case (Cons x rs)
  obtain env r where x: "x = (env, r)" by (cases x)
  obtain reply h1 creds1 where s: "ServeHTTP env ob r (h, creds) = (reply, h1, creds1)" by (metis prod_cases3)
  note ok = ServeHTTP_ok [OF Cons.prems(1) s]
  obtain reps h2 creds2 where s2: "serve_all ob rs (h1, creds1) = (reps, h2, creds2)" by (metis prod_cases3)
  have "(reps, h2, creds2) = (reps, h', creds')" using Cons.prems(2) by (simp add: x s s2)
  then have "list_all (forwarded_ok dst name cas) reps" using Cons.IH [OF ok(2)] s2 by simp
  with ok(1) Cons.prems(2) show ?case by (auto simp: x s s2)
qed simp

text \<open>
  C28. An intercepted connection serves one server: over all requests of the connection,
  every request that is forwarded goes to the original target over TLS, and the upstream
  certificate is verified, against the configured roots, for exactly the host the request
  names. When the session has a server name, every request that names another host is
  refused and none is forwarded under another name.
\<close>

theorem intercepted_requests_keep_host:
  assumes "mitm_session menv up ob dst fallbackHost ses c creds = (e, c', creds', replies)"
    and "name = (if normalizeHost (ts_ServerName ses) = [] then normalizeHost fallbackHost
                 else normalizeHost (ts_ServerName ses))"
    and "Forwarded target fw \<in> set replies"
  shows "fw_Addr fw = dst \<and> fw_Scheme fw = ''https'' \<and>
    tr_ServerName (fw_Transport fw) = target \<and> tr_RootCAs (fw_Transport fw) = me_roots menv \<and>
    (normalizeHost (fw_Host fw) \<noteq> [] \<longrightarrow> target = normalizeHost (fw_Host fw)) \<and>
    (name \<noteq> [] \<longrightarrow> target = name)"
proof -
  let ?h = "\<lparr>h_dstHost = dst, h_serverName = name, h_transports = newMITMTransportCache (me_roots menv)\<rparr>"
  have ok: "handler_ok dst name (me_roots menv) ?h"
    by (simp add: handler_ok_def newMITMTransportCache_def cache_ok_def)
  note session = assms(1) [unfolded mitm_session_def Let_def, folded assms(2)]
  obtain rs h2 creds2 where all: "serve_all ob (me_requests menv) (?h, creds) = (rs, h2, creds2)"
    by (metis prod_cases3)
  have "replies = rs"
    using session assms(3) unfolding all by (auto split: sum.splits mitmProtocol.splits prod.splits)
  with all have "list_all (forwarded_ok dst name (me_roots menv)) replies" using serve_all_ok [OF ok] by simp
  then have "forwarded_ok dst name (me_roots menv) (Forwarded target fw)"
    using assms(3) by (simp add: list_all_iff)
  then show ?thesis by (simp add: forwarded_ok_def)
qed

definition plain_ob :: outbound_identity where
  "plain_ob = \<lparr>ob_AgentID = ''agent'', ob_CredResolver = None, ob_IdentityResolver = None, ob_RuntimeConfig = None\<rparr>"

definition demo_session :: "string \<Rightarrow> tls_session" where
  "demo_session proto = \<lparr>ts_ServerName = ''a.example'', ts_NegotiatedProtocol = proto,
     ts_plain = \<lparr>unread = ''hello'', at_end = Timeout\<rparr>\<rparr>"

definition demo_serve_env :: serve_env where
  "demo_serve_env = \<lparr>se_sha = id, se_cred = demo_cred_env True 0, se_ids = (\<lambda>_. demo_id_env True 0)\<rparr>"

lemma normalize_a_example: "normalizeHost ''a.example'' = ''a.example''" "normalizeHost [] = []"
  by (simp_all add: normalizeHost_normalizeDomain normalizeDomain_def str_eval strip_port_def)

lemma normalize_b_example: "normalizeHost ''b.example'' = ''b.example''"
  by (simp add: normalizeHost_normalizeDomain normalizeDomain_def str_eval strip_port_def)

lemma demo_replies:
  "\<exists>fw. snd (snd (snd (mitm_session (demo_mitm_env\<lparr>me_requests :=
       [(demo_serve_env, \<lparr>mr_Host = ''b.example'', mr_Header = []\<rparr>),
        (demo_serve_env, \<lparr>mr_Host = ''a.example'', mr_Header = []\<rparr>)]\<rparr>) True plain_ob ''198.51.100.25:443'' []
       (demo_session ''http/1.1'') demo_conn no_state))) = [Misdirected, Forwarded ''a.example'' fw]"
  by (simp add: mitm_session_def demo_session_def detectMITMProtocol_def demo_mitm_env_def normalize_a_example
      normalize_b_example ServeHTTP_def Let_def applyCredentialInjection_def plain_ob_def RoundTrip_def Transport_def
      newMITMTransportCache_def)

theorem intercepted_requests_keep_host_witness:
  "\<exists>fw. tr_ServerName (fw_Transport fw) = ''a.example'' \<and>
    Forwarded ''a.example'' fw \<in> set (snd (snd (snd (mitm_session (demo_mitm_env\<lparr>me_requests :=
       [(demo_serve_env, \<lparr>mr_Host = ''b.example'', mr_Header = []\<rparr>),
        (demo_serve_env, \<lparr>mr_Host = ''a.example'', mr_Header = []\<rparr>)]\<rparr>) True plain_ob ''198.51.100.25:443'' []
       (demo_session ''http/1.1'') demo_conn no_state))))"
proof -
  let ?r = "mitm_session (demo_mitm_env\<lparr>me_requests :=
       [(demo_serve_env, \<lparr>mr_Host = ''b.example'', mr_Header = []\<rparr>),
        (demo_serve_env, \<lparr>mr_Host = ''a.example'', mr_Header = []\<rparr>)]\<rparr>) True plain_ob ''198.51.100.25:443'' []
       (demo_session ''http/1.1'') demo_conn no_state"
  obtain fw where fw: "snd (snd (snd ?r)) = [Misdirected, Forwarded ''a.example'' fw]" using demo_replies by blast
  then have "Forwarded ''a.example'' fw \<in> set (snd (snd (snd ?r)))" by simp
  with intercepted_requests_keep_host [OF _ refl, of _ True plain_ob "''198.51.100.25:443''" "[]"
      "demo_session ''http/1.1''" demo_conn no_state "fst ?r" "fst (snd ?r)" "fst (snd (snd ?r))"
      "snd (snd (snd ?r))" "''a.example''" fw]
  show ?thesis by (metis prod.collapse)
qed

text \<open>
  Interception of other protocols always falls back: when the plaintext is neither
  HTTP/1 nor HTTP/2, relaying never reports success, so that after the relay has ended
  the handler opens a second connection to the target and sends it the client's
  encrypted bytes.
\<close>

theorem generic_interception_dials_twice:
  assumes "detectMITMProtocol (ts_plain ses) (ts_NegotiatedProtocol ses) = Inr mitmProtocolGenericTLS"
    and "me_dial menv dst = Inr p1" and "te_dial env dst = Inr p2"
    and "mitm_session menv (te_up_first env) ob dst fallbackHost ses c creds = (e, c1, creds1, replies)"
    and "proxyTLSPassthrough env dst c1 = (e2, c2)"
  shows "e \<noteq> None \<and> (\<exists>q1 q2. c_peers c2 = c_peers c @ [(dst, q1), (dst, q2)])"
  using assms
  by (auto simp: mitm_session_def proxyMITMTLSConnection_def proxyTLSPassthrough_def raw_conn_def
      proxyRawConnection_def tunnel_conn_def Let_def split: option.splits prod.splits)

theorem generic_interception_dials_twice_witness:
  "\<exists>q1 q2. c_peers (snd (proxyTLSPassthrough (demo_tcp_env\<lparr>te_dial := (\<lambda>_. Inr demo_peer)\<rparr>) ''198.51.100.25:443''
     (fst (snd (mitm_session (demo_mitm_env\<lparr>me_dial := (\<lambda>_. Inr demo_peer)\<rparr>) True plain_ob ''198.51.100.25:443'' []
       (demo_session []) demo_conn no_state))))) = [(''198.51.100.25:443'', q1), (''198.51.100.25:443'', q2)]"
proof -
  let ?env = "demo_tcp_env\<lparr>te_dial := (\<lambda>_. Inr demo_peer)\<rparr>"
  let ?menv = "demo_mitm_env\<lparr>me_dial := (\<lambda>_. Inr demo_peer)\<rparr>"
  obtain e c1 creds1 replies where s: "mitm_session ?menv (te_up_first ?env) plain_ob ''198.51.100.25:443'' []
      (demo_session []) demo_conn no_state = (e, c1, creds1, replies)" by (metis prod_cases4)
  obtain e2 c2 where p: "proxyTLSPassthrough ?env ''198.51.100.25:443'' c1 = (e2, c2)" by fastforce
  have "detectMITMProtocol (ts_plain (demo_session [])) (ts_NegotiatedProtocol (demo_session [])) =
      Inr mitmProtocolGenericTLS"
    by (simp add: detectMITMProtocol_def demo_session_def Peek_def conn_reader_def http2ClientPreface_def
        ClientHelloPeekBufferSize_def maxTLSRecordLen_def CRLF_def)
  from generic_interception_dials_twice [OF this _ _ s p, of demo_peer demo_peer] s p
  show ?thesis by (auto simp: demo_conn_def demo_tcp_env_def)
qed

end
