(* ===== verification/Original_Dst.thy ===== *)
theory Original_Dst
  imports Domain_Policy Tcp_Proxy
begin

unbundle bit_operations_syntax

text \<open>
  Where a redirected connection was going: \<open>pkg/socket/get_original_dst.go\<close> for TCP and
  \<open>pkg/socket/original_dst_udp.go\<close> for UDP. The kernel reports the address as the bytes of a
  \<open>sockaddr_in\<close>; TCP turns them into the text that the handlers and the policy read.
  What the system calls return is an argument.
\<close>

section \<open>Text of an address\<close>

type_synonym v4addr = "byte \<times> byte \<times> byte \<times> byte"

fun dotted :: "v4addr \<Rightarrow> string" where
  "dotted (a, b, c, d) =
     nat_digits (unat a) @ ''.'' @ nat_digits (unat b) @ ''.'' @ nat_digits (unat c) @ ''.'' @ nat_digits (unat d)"

definition host_text :: "v4addr \<Rightarrow> 16 word \<Rightarrow> string" where
  "host_text ip port = dotted ip @ '':'' @ nat_digits (unat port)"

section \<open>TCP\<close>

datatype dst_error = NilConn | NilFd | NoFile | GetsockoptFailed | FileConnFailed | NotTCP

text \<open>
  The bytes of \<open>Multiaddr\<close>: family, port in network order, address. \<open>file\<close> says whether the
  descriptor could be duplicated, \<open>mreq\<close> is the result of \<open>getsockopt\<close> and \<open>conn\<close> that of
  \<open>net.FileConn\<close>, with whether it is a TCP connection.
\<close>

definition sockaddr_ip :: "byte list \<Rightarrow> v4addr" where
  "sockaddr_ip m = (m ! 4, m ! 5, m ! 6, m ! 7)"

definition sockaddr_port :: "byte list \<Rightarrow> 16 word" where
  "sockaddr_port m = push_bit 8 (ucast (m ! 2)) + ucast (m ! 3)"

definition GetOriginalDst ::
  "bool \<Rightarrow> bool \<Rightarrow> bool \<Rightarrow> byte list option \<Rightarrow> bool option \<Rightarrow> (dst_error, byte list \<times> string) result" where
  "GetOriginalDst nilConn nilAddr fileOk mreq conn =
     (if nilConn then Inl NilConn
      else if nilAddr then Inl NilFd
      else if \<not> fileOk then Inl NoFile
      else (case mreq of
              None \<Rightarrow> Inl GetsockoptFailed
            | Some m \<Rightarrow>
                (case conn of
                   None \<Rightarrow> Inl FileConnFailed
                 | Some False \<Rightarrow> Inl NotTCP
                 | Some True \<Rightarrow>
                     Inr ([1, m ! 4, m ! 5, m ! 6, m ! 7, m ! 2, m ! 3],
                          host_text (sockaddr_ip m) (sockaddr_port m)))))"

section \<open>UDP\<close>

record control_message =
  m_Level :: int
  m_Type :: int
  m_Data :: "byte list"

definition IPPROTO_IP :: int where "IPPROTO_IP = 0"
definition IP_ORIGDSTADDR :: int where "IP_ORIGDSTADDR = 20"

datatype oob_error = ParseControlMessage | TooShort nat | NotFound

fun oob_loop :: "control_message list \<Rightarrow> (oob_error, v4addr \<times> 16 word) result" where
  "oob_loop [] = Inl NotFound"
| "oob_loop (m # ms) =
     (if m_Level m \<noteq> IPPROTO_IP \<or> m_Type m \<noteq> IP_ORIGDSTADDR then oob_loop ms
      else if length (m_Data m) < 8 then Inl (TooShort (length (m_Data m)))
      else Inr (sockaddr_ip (m_Data m), sockaddr_port (m_Data m)))"

definition ParseOriginalDstFromOOB ::
  "(byte list \<Rightarrow> control_message list option) \<Rightarrow> byte list \<Rightarrow> (oob_error, v4addr \<times> 16 word) result" where
  "ParseOriginalDstFromOOB parse oob =
     (case parse oob of None \<Rightarrow> Inl ParseControlMessage | Some ms \<Rightarrow> oob_loop ms)"

section \<open>The text names the address\<close>

lemma byte_bound: "unat (x :: byte) < 256"
  using unsigned_less [of x, where ?'a = nat] by simp

lemma sockaddr_port_value: "unat (sockaddr_port m) = unat (m ! 2) * 256 + unat (m ! 3)"
proof -
  have "sockaddr_port m = of_nat (unat (m ! 2) * 256 + unat (m ! 3))"
    by (simp add: sockaddr_port_def push_bit_eq_mult)
  then have "unat (sockaddr_port m) = (unat (m ! 2) * 256 + unat (m ! 3)) mod 2 ^ 16"
    by (simp only: unat_of_nat) simp
  then show ?thesis using byte_bound [of "m ! 2"] byte_bound [of "m ! 3"] by simp
qed

lemma nat_digits_chars: "x \<in> set (nat_digits n) \<Longrightarrow> is_digit x"
  using nat_digits_props [of n] by (simp add: list_all_iff)

lemma nat_digits_hd: "0 < n \<Longrightarrow> hd (nat_digits n) \<noteq> CHR ''0''"
proof (induction n rule: nat_digits.induct)
  case (1 n)
  show ?case
  proof (cases "n < 10")
    case True
    have "char_of (k + 48) \<noteq> (CHR ''0'')" if "0 < k" "k < 10" for k :: nat
    proof
      assume "char_of (k + 48) = CHR ''0''"
      then have "of_char (char_of (k + 48) :: char) = (of_char CHR ''0'' :: nat)" by simp
      with that show False by simp
    qed
    with True 1(2) show ?thesis by (subst nat_digits.simps) simp
  next
    case False
    then show ?thesis using 1 by (subst nat_digits.simps) simp
  qed
qed

lemma nat_digits_small: "n < 10 \<Longrightarrow> length (nat_digits n) = 1"
  by (subst nat_digits.simps) simp

lemma parse_octet_digits: "parse_octet (nat_digits (unat (b :: byte))) = Some b"
proof -
  have "unat b \<le> 255" using byte_bound [of b] by simp
  moreover have "length (nat_digits (unat b)) = 1 \<or> hd (nat_digits (unat b)) \<noteq> CHR ''0''"
    using nat_digits_hd [of "unat b"] nat_digits_small [of 0] by (cases "unat b = 0") auto
  ultimately show ?thesis using nat_digits_props [of "unat b"] by (simp add: parse_octet_def)
qed

lemma digits_no_dot: "CHR ''.'' \<notin> set (nat_digits n)"
  using nat_digits_chars by (fastforce simp: is_digit_def)

lemma parse_v4_dotted: "parse_v4 (dotted (a, b, c, d)) = Some [a, b, c, d]"
  by (simp add: parse_v4_def split_on_append split_on_atom digits_no_dot parse_octet_digits)

lemma ParseIP_dotted: "ParseIP (dotted (a, b, c, d)) = Some (v4_in_v6_prefix @ [a, b, c, d])"
  using parse_v4_ParseAddr [OF parse_v4_dotted] by (simp add: ParseIP_def del: dotted.simps)

lemma dotted_chars: "x \<in> set (dotted ip) \<Longrightarrow> is_digit x \<or> x = CHR ''.''"
  by (cases ip) (auto dest: nat_digits_chars)

lemma text_chars:
  assumes "\<not> is_digit x" "x \<noteq> CHR ''.''"
  shows "x \<notin> set (dotted ip)" "x \<notin> set (nat_digits n)"
  using assms dotted_chars nat_digits_chars by blast+

lemma digit_punct: "\<not> is_digit CHR '':''" "\<not> is_digit CHR ''[''" "\<not> is_digit CHR '']''" "\<not> is_digit CHR ''|''"
  by (simp_all add: is_digit_def)

lemma SplitHostPort_host_text: "SplitHostPort (host_text ip port) = Inr (dotted ip, nat_digits (unat port))"
proof -
  have no: "CHR '':'' \<notin> set (dotted ip)" "CHR ''['' \<notin> set (dotted ip)" "CHR '']'' \<notin> set (dotted ip)"
    "CHR '':'' \<notin> set (nat_digits (unat port))" "CHR ''['' \<notin> set (nat_digits (unat port))" "CHR '']'' \<notin> set (nat_digits (unat port))"
    by (simp_all add: text_chars digit_punct)
  then have "host_text ip port = JoinHostPort (dotted ip) (nat_digits (unat port))"
    by (simp add: host_text_def JoinHostPort_def)
  with no show ?thesis by (simp add: SplitHostPort_JoinHostPort)
qed

lemma digit_not_space: "is_digit x \<Longrightarrow> \<not> is_space x"
  by (auto simp: is_digit_def is_space_def)

lemma host_text_trimmed: "TrimSpace (host_text ip port) = host_text ip port"
proof (rule TrimSpace_no_space)
  have "\<not> is_space CHR ''.''" "\<not> is_space CHR '':''" by (simp_all add: is_space_def char_of_def)
  then show "\<forall>x\<in>set (host_text ip port). \<not> is_space x"
    by (auto simp: host_text_def dest!: dotted_chars nat_digits_chars digit_not_space)
qed

lemma dotted_ends: "dotted ip \<noteq> []" "hd (dotted ip) \<noteq> CHR ''[''" "last (dotted ip) \<noteq> CHR '']''"
proof -
  show ne: "dotted ip \<noteq> []" by (cases ip) simp
  have "CHR ''['' \<notin> set (dotted ip)" "CHR '']'' \<notin> set (dotted ip)"
    by (simp_all add: text_chars digit_punct)
  then show "hd (dotted ip) \<noteq> CHR ''[''" "last (dotted ip) \<noteq> CHR '']''"
    using hd_in_set [OF ne] last_in_set [OF ne] by auto
qed

lemma extractIP_host_text: "extractIP (host_text (a, b, c, d) port) = Some (v4_in_v6_prefix @ [a, b, c, d])"
proof -
  let ?ip = "(a, b, c, d)"
  have "host_text ?ip port \<noteq> []" by (simp add: host_text_def)
  moreover have "strip_port (host_text ?ip port) = dotted ?ip"
    by (simp add: strip_port_def SplitHostPort_host_text del: dotted.simps)
  moreover have "TrimSuffix (TrimPrefix (dotted ?ip) ''['') '']'' = dotted ?ip"
    using dotted_ends [of ?ip] by (simp add: TrimPrefix_other TrimSuffix_other del: dotted.simps)
  ultimately show ?thesis
    by (simp add: extractIP_def host_text_trimmed ParseIP_dotted Let_def del: dotted.simps)
qed

text \<open>
  C39. The original destination survives as text: when the lookup succeeds, the host text that
  the handlers get splits into an address and a port, the domain policy reads from it exactly
  the four address bytes the kernel reported, the port number is the one in network order, and
  an inbound connection is dialled on that port of the local host.
\<close>

theorem original_dst_roundtrip:
  assumes "GetOriginalDst nilConn nilAddr fileOk (Some m) conn = Inr (raw, host)"
  shows "extractIP host = Some (v4_in_v6_prefix @ [m ! 4, m ! 5, m ! 6, m ! 7]) \<and>
    (\<exists>h port. SplitHostPort host = Inr (h, port) \<and> Atoi port = Some (int (unat (m ! 2) * 256 + unat (m ! 3))) \<and>
       inboundDialTarget host = ''127.0.0.1:'' @ port) \<and>
    raw = [1, m ! 4, m ! 5, m ! 6, m ! 7, m ! 2, m ! 3]"
proof -
  have host: "host = host_text (sockaddr_ip m) (sockaddr_port m)" and raw: "raw = [1, m ! 4, m ! 5, m ! 6, m ! 7, m ! 2, m ! 3]"
    using assms by (auto simp: GetOriginalDst_def split: if_splits option.splits bool.splits)
  let ?port = "nat_digits (unat (sockaddr_port m))"
  have "Atoi ?port = Some (int (unat (m ! 2) * 256 + unat (m ! 3)))"
    using byte_bound [of "m ! 2"] byte_bound [of "m ! 3"] by (subst Atoi_nat_digits) (simp_all add: sockaddr_port_value)
  moreover have "inboundDialTarget host = ''127.0.0.1:'' @ ?port"
    by (simp add: host inboundDialTarget_def SplitHostPort_host_text JoinHostPort_def)
  ultimately show ?thesis
    using SplitHostPort_host_text [of "sockaddr_ip m" "sockaddr_port m"] extractIP_host_text
    by (auto simp: host raw sockaddr_ip_def simp del: dotted.simps)
qed

theorem original_dst_roundtrip_witness:
  "\<exists>raw host. GetOriginalDst False False True (Some [2, 0, 31, 144, 206, 190, 36, 45]) (Some True) = Inr (raw, host) \<and>
     extractIP host = Some (v4_in_v6_prefix @ [206, 190, 36, 45])"
proof -
  let ?m = "[2, 0, 31, 144, 206, 190, 36, 45] :: byte list"
  obtain raw host where "GetOriginalDst False False True (Some ?m) (Some True) = Inr (raw, host)"
    by (simp add: GetOriginalDst_def)
  with original_dst_roundtrip [of False False True ?m "Some True" raw host] show ?thesis by auto
qed

end
