(* ===== verification/Udp_Proxy.thy ===== *)
theory Udp_Proxy
  imports Original_Dst
begin

text \<open>
  The UDP proxy, \<open>cmd/proxy/udp.go\<close>: one goroutine receives the redirected packets, each session
  has a goroutine for the answers, and they share two tables under a lock. The tables are the
  state, every critical section is one operation, and the goroutines are a step relation that
  interleaves them in every order.
\<close>

section \<open>Addresses and keys\<close>

record uaddr =
  ua_IP :: v4addr
  ua_Port :: "16 word"

definition UDPAddr_String :: "uaddr \<Rightarrow> string" where
  "UDPAddr_String a = host_text (ua_IP a) (ua_Port a)"

definition cloneUDPAddr :: "uaddr option \<Rightarrow> uaddr option" where
  "cloneUDPAddr addr = (case addr of None \<Rightarrow> None | Some a \<Rightarrow> Some \<lparr>ua_IP = ua_IP a, ua_Port = ua_Port a\<rparr>)"

definition session_key :: "uaddr \<times> uaddr \<Rightarrow> string" where
  "session_key a = UDPAddr_String (fst a) @ ''|'' @ UDPAddr_String (snd a)"

lemma host_text_inject: "host_text ip port = host_text ip' port' \<longleftrightarrow> ip = ip' \<and> port = port'"
proof
  assume eq: "host_text ip port = host_text ip' port'"
  then have "dotted ip = dotted ip'" "nat_digits (unat port) = nat_digits (unat port')"
    using SplitHostPort_host_text [of ip port] SplitHostPort_host_text [of ip' port'] by auto
  moreover from this(1) have "parse_v4 (dotted ip) = parse_v4 (dotted ip')" by simp
  then have "ip = ip'" by (cases ip; cases ip') (simp add: parse_v4_dotted del: dotted.simps)
  ultimately show "ip = ip' \<and> port = port'"
    using nat_digits_props [of "unat port"] nat_digits_props [of "unat port'"] by (metis word_unat_eq_iff)
qed simp

lemma UDPAddr_String_inject: "UDPAddr_String a = UDPAddr_String b \<Longrightarrow> a = b"
  by (simp add: UDPAddr_String_def host_text_inject)

lemma UDPAddr_String_bar: "CHR ''|'' \<notin> set (UDPAddr_String a)"
  by (simp add: UDPAddr_String_def host_text_def text_chars digit_punct)

lemma session_key_inject: "session_key a = session_key b \<Longrightarrow> a = b"
proof -
  assume "session_key a = session_key b"
  then have "split_on CHR ''|'' (session_key a) = split_on CHR ''|'' (session_key b)" by simp
  then have "UDPAddr_String (fst a) = UDPAddr_String (fst b)" "UDPAddr_String (snd a) = UDPAddr_String (snd b)"
    by (simp_all add: session_key_def split_on_append split_on_atom UDPAddr_String_bar)
  then show "a = b" by (intro prod_eqI UDPAddr_String_inject)
qed

section \<open>Tables with a key that names the entry\<close>

text \<open>
  Both tables are used the same way: an entry is looked up and stored under a text made from
  the addresses it is about. When the text determines the addresses, whatever is found under
  the key of some addresses is about them.
\<close>

locale keyed_table =
  fixes key :: "'a \<Rightarrow> string" and about :: "'v \<Rightarrow> 'a"
  assumes key_inject: "key a = key b \<Longrightarrow> a = b"
begin

lemma found_about:
  assumes "\<forall>k v. m k = Some v \<longrightarrow> k = key (about v)" "m (key a) = Some v"
  shows "about v = a"
  using assms key_inject by blast

lemma stored_about:
  assumes "\<forall>k v. m k = Some v \<longrightarrow> k = key (about v)" "about w = a"
  shows "\<forall>k v. (m(key a \<mapsto> w)) k = Some v \<longrightarrow> k = key (about v)"
  using assms by auto

lemma removed_about:
  assumes "\<forall>k v. m k = Some v \<longrightarrow> k = key (about v)"
  shows "\<forall>k v. (m(k' := None)) k = Some v \<longrightarrow> k = key (about v)"
  using assms by auto

end

section \<open>State\<close>

text \<open>A socket is a number; the kernel knows where it is connected or bound.\<close>

record udpSession =
  s_key :: string
  s_client :: uaddr
  s_original :: uaddr
  s_upstream :: nat

record reply_conn =
  rc_local :: uaddr
  rc_sock :: nat

record UDPServer =
  sessions :: "string \<Rightarrow> udpSession option"
  replyConn :: "string \<Rightarrow> reply_conn option"
  next_sock :: nat
  closed :: "nat set"

definition NewUDPServer :: UDPServer where
  "NewUDPServer = \<lparr>sessions = Map.empty, replyConn = Map.empty, next_sock = 0, closed = {}\<rparr>"

section \<open>Critical sections\<close>

text \<open>\<open>dialOk\<close> and \<open>listenOk\<close> say whether the system call succeeds.\<close>

definition getOrCreateSession :: "uaddr \<Rightarrow> uaddr \<Rightarrow> bool \<Rightarrow> UDPServer \<Rightarrow> udpSession option \<times> UDPServer" where
  "getOrCreateSession clientAddr originalDst dialOk u =
     (let key = session_key (clientAddr, originalDst) in
      case sessions u key of
        Some session \<Rightarrow> (Some session, u)
      | None \<Rightarrow>
          if \<not> dialOk then (None, u)
          else
            let session = \<lparr>s_key = key, s_client = clientAddr, s_original = originalDst, s_upstream = next_sock u\<rparr>
            in (Some session, u\<lparr>sessions := (sessions u)(key \<mapsto> session), next_sock := next_sock u + 1\<rparr>))"

definition getReplyConn :: "uaddr \<Rightarrow> bool \<Rightarrow> UDPServer \<Rightarrow> reply_conn option \<times> UDPServer" where
  "getReplyConn originalDst listenOk u =
     (let key = UDPAddr_String originalDst in
      case replyConn u key of
        Some conn \<Rightarrow> (Some conn, u)
      | None \<Rightarrow>
          if \<not> listenOk then (None, u)
          else
            let conn = \<lparr>rc_local = originalDst, rc_sock = next_sock u\<rparr>
            in (Some conn, u\<lparr>replyConn := (replyConn u)(key \<mapsto> conn), next_sock := next_sock u + 1\<rparr>))"

definition closeSession :: "string \<Rightarrow> UDPServer \<Rightarrow> UDPServer" where
  "closeSession key u =
     (case sessions u key of
        None \<Rightarrow> u
      | Some session \<Rightarrow>
          u\<lparr>sessions := (sessions u)(key := None), closed := insert (s_upstream session) (closed u)\<rparr>)"

definition udp_Shutdown :: "UDPServer \<Rightarrow> UDPServer" where
  "udp_Shutdown u =
     u\<lparr>closed := closed u \<union> s_upstream ` ran (sessions u) \<union> rc_sock ` ran (replyConn u)\<rparr>"

interpretation session_table: keyed_table session_key "\<lambda>s. (s_client s, s_original s)"
  by unfold_locales (rule session_key_inject)

interpretation reply_table: keyed_table UDPAddr_String rc_local
  by unfold_locales (rule UDPAddr_String_inject)

section \<open>Goroutines\<close>

text \<open>
  \<open>serve\<close> receives a packet, takes the session, and writes to it without the lock. The goroutine
  of a session reads an answer, takes the reply socket and writes. What crosses a socket is
  recorded, with the socket it crossed. A packet whose session cannot be set up is dropped, which
  changes nothing.
\<close>

datatype serve_state = Receiving | Forwarding uaddr uaddr "byte list" udpSession | ServeDone

datatype worker_state = Waiting | Answered "byte list" | Sending "byte list" reply_conn

datatype event =
    Dialed nat uaddr uaddr
  | Upstream nat uaddr uaddr "byte list"
  | Answer nat "byte list"
  | Reply nat uaddr uaddr "byte list"

record udp_net =
  server :: UDPServer
  serving :: serve_state
  workers :: "nat \<Rightarrow> (udpSession \<times> worker_state) option"
  trace :: "event list"

definition udp_start :: udp_net where
  "udp_start = \<lparr>server = NewUDPServer, serving = Receiving, workers = Map.empty, trace = []\<rparr>"

inductive udp_step :: "udp_net \<Rightarrow> udp_net \<Rightarrow> bool" where
  Receive_Known:
    "serving n = Receiving \<Longrightarrow> sessions (server n) (session_key (c, dst)) \<noteq> None \<Longrightarrow>
     getOrCreateSession c dst dialOk (server n) = (Some s, u) \<Longrightarrow>
     udp_step n (n\<lparr>server := u, serving := Forwarding c dst p s\<rparr>)"
| Receive_New:
    "serving n = Receiving \<Longrightarrow> sessions (server n) (session_key (c, dst)) = None \<Longrightarrow>
     getOrCreateSession c dst dialOk (server n) = (Some s, u) \<Longrightarrow>
     udp_step n (n\<lparr>server := u, serving := Forwarding c dst p s,
       workers := (workers n)(s_upstream s \<mapsto> (s, Waiting)), trace := trace n @ [Dialed (s_upstream s) c dst]\<rparr>)"
| Forward:
    "serving n = Forwarding c dst p s \<Longrightarrow> s_upstream s \<notin> closed (server n) \<Longrightarrow>
     udp_step n (n\<lparr>serving := Receiving, trace := trace n @ [Upstream (s_upstream s) c dst p]\<rparr>)"
| Forward_Failed:
    "serving n = Forwarding c dst p s \<Longrightarrow>
     udp_step n (n\<lparr>serving := Receiving, server := closeSession (s_key s) (server n)\<rparr>)"
| Serve_End: "serving n = Receiving \<Longrightarrow> udp_step n (n\<lparr>serving := ServeDone\<rparr>)"
| Read_Answer:
    "workers n i = Some (s, Waiting) \<Longrightarrow> i \<notin> closed (server n) \<Longrightarrow>
     udp_step n (n\<lparr>workers := (workers n)(i \<mapsto> (s, Answered p)), trace := trace n @ [Answer i p]\<rparr>)"
| Take_Reply_Conn:
    "workers n i = Some (s, Answered p) \<Longrightarrow> getReplyConn (s_original s) listenOk (server n) = (Some conn, u) \<Longrightarrow>
     udp_step n (n\<lparr>server := u, workers := (workers n)(i \<mapsto> (s, Sending p conn))\<rparr>)"
| Send_Reply:
    "workers n i = Some (s, Sending p conn) \<Longrightarrow> rc_sock conn \<notin> closed (server n) \<Longrightarrow>
     udp_step n (n\<lparr>workers := (workers n)(i \<mapsto> (s, Waiting)), trace := trace n @ [Reply i (s_client s) (rc_local conn) p]\<rparr>)"
| Worker_Failed:
    "workers n i = Some (s, w) \<Longrightarrow>
     udp_step n (n\<lparr>server := closeSession (s_key s) (server n), workers := (workers n)(i := None)\<rparr>)"
| Stop: "udp_step n (n\<lparr>server := udp_Shutdown (server n)\<rparr>)"

inductive udp_reachable :: "udp_net \<Rightarrow> bool" where
  Start: "udp_reachable udp_start"
| Step: "udp_reachable n \<Longrightarrow> udp_step n n' \<Longrightarrow> udp_reachable n'"

inductive_cases udp_stepE: "udp_step n n'"

section \<open>Every packet goes where it should\<close>

text \<open>A session that the trace accounts for.\<close>

definition session_ok :: "event list \<Rightarrow> udpSession \<Rightarrow> bool" where
  "session_ok tr s \<longleftrightarrow>
     Dialed (s_upstream s) (s_client s) (s_original s) \<in> set tr \<and> s_key s = session_key (s_client s, s_original s)"

definition tables_ok :: "event list \<Rightarrow> UDPServer \<Rightarrow> bool" where
  "tables_ok tr u \<longleftrightarrow>
     (\<forall>k s. sessions u k = Some s \<longrightarrow> k = session_key (s_client s, s_original s)) \<and>
     (\<forall>k s. sessions u k = Some s \<longrightarrow> session_ok tr s) \<and>
     (\<forall>k r. replyConn u k = Some r \<longrightarrow> k = UDPAddr_String (rc_local r))"

definition serving_ok :: "event list \<Rightarrow> serve_state \<Rightarrow> bool" where
  "serving_ok tr st = (case st of
     Forwarding c dst p s \<Rightarrow> session_ok tr s \<and> s_client s = c \<and> s_original s = dst | _ \<Rightarrow> True)"

definition worker_ok :: "event list \<Rightarrow> nat \<Rightarrow> udpSession \<times> worker_state \<Rightarrow> bool" where
  "worker_ok tr i = (\<lambda>(s, w).
     session_ok tr s \<and> s_upstream s = i \<and>
     (case w of Waiting \<Rightarrow> True | Answered p \<Rightarrow> Answer i p \<in> set tr
      | Sending p conn \<Rightarrow> Answer i p \<in> set tr \<and> rc_local conn = s_original s))"

definition event_ok :: "event list \<Rightarrow> event \<Rightarrow> bool" where
  "event_ok tr e = (case e of
     Upstream i c dst p \<Rightarrow> Dialed i c dst \<in> set tr
   | Reply i c from p \<Rightarrow> Dialed i c from \<in> set tr \<and> Answer i p \<in> set tr
   | _ \<Rightarrow> True)"

definition dials_ok :: "event list \<Rightarrow> nat \<Rightarrow> bool" where
  "dials_ok tr nxt \<longleftrightarrow>
     (\<forall>i c dst. Dialed i c dst \<in> set tr \<longrightarrow> i < nxt) \<and>
     (\<forall>i c dst c' dst'. Dialed i c dst \<in> set tr \<longrightarrow> Dialed i c' dst' \<in> set tr \<longrightarrow> c = c' \<and> dst = dst')"

definition udp_inv :: "udp_net \<Rightarrow> bool" where
  "udp_inv n \<longleftrightarrow>
     tables_ok (trace n) (server n) \<and> serving_ok (trace n) (serving n) \<and>
     (\<forall>i w. workers n i = Some w \<longrightarrow> worker_ok (trace n) i w) \<and>
     (\<forall>e\<in>set (trace n). event_ok (trace n) e) \<and> dials_ok (trace n) (next_sock (server n))"

lemma ok_mono:
  "session_ok tr s \<Longrightarrow> session_ok (tr @ es) s"
  "serving_ok tr st \<Longrightarrow> serving_ok (tr @ es) st"
  "worker_ok tr i w \<Longrightarrow> worker_ok (tr @ es) i w"
  "event_ok tr e \<Longrightarrow> event_ok (tr @ es) e"
  by (auto simp: session_ok_def serving_ok_def worker_ok_def event_ok_def split: serve_state.splits worker_state.splits event.splits)

lemma tables_ok_mono: "tables_ok tr u \<Longrightarrow> tables_ok (tr @ es) u"
  by (auto simp: tables_ok_def ok_mono)

lemma dials_ok_append: "dials_ok tr n \<Longrightarrow> (\<And>i c dst. Dialed i c dst \<notin> set es) \<Longrightarrow> dials_ok (tr @ es) n"
  by (auto simp: dials_ok_def)

lemma closeSession_keeps:
  "tables_ok tr u \<Longrightarrow> tables_ok tr (closeSession key u)" "next_sock (closeSession key u) = next_sock u"
  by (auto simp: tables_ok_def closeSession_def split: option.splits if_splits)

lemma Shutdown_keeps: "tables_ok tr u \<Longrightarrow> tables_ok tr (udp_Shutdown u)" "next_sock (udp_Shutdown u) = next_sock u"
  by (simp_all add: tables_ok_def udp_Shutdown_def)

lemma getReplyConn_keeps:
  assumes "getReplyConn dst ok u = (Some conn, u')" "tables_ok tr u"
  shows "tables_ok tr u'" "rc_local conn = dst" "next_sock u \<le> next_sock u'"
proof -
  have about: "\<forall>k r. replyConn u k = Some r \<longrightarrow> k = UDPAddr_String (rc_local r)" using assms(2) by (simp add: tables_ok_def)
  show "rc_local conn = dst"
    using assms(1) reply_table.found_about [OF about, of dst]
    by (auto simp: getReplyConn_def Let_def split: option.splits if_splits)
  show "tables_ok tr u'" "next_sock u \<le> next_sock u'"
    using assms by (auto simp: getReplyConn_def tables_ok_def Let_def split: option.splits if_splits)
qed

lemma getOrCreateSession_known:
  assumes "getOrCreateSession c dst ok u = (Some s, u')" "sessions u (session_key (c, dst)) \<noteq> None" "tables_ok tr u"
  shows "u' = u" "session_ok tr s" "s_client s = c" "s_original s = dst"
proof -
  have found: "sessions u (session_key (c, dst)) = Some s" "u' = u"
    using assms(1,2) by (auto simp: getOrCreateSession_def Let_def)
  have about: "\<forall>k s. sessions u k = Some s \<longrightarrow> k = session_key (s_client s, s_original s)" using assms(3) by (simp add: tables_ok_def)
  show "u' = u" by (rule found)
  show "session_ok tr s" using assms(3) found(1) by (auto simp: tables_ok_def)
  show "s_client s = c" "s_original s = dst"
    using session_table.found_about [OF about found(1)] by simp_all
qed

lemma getOrCreateSession_new:
  assumes "getOrCreateSession c dst ok u = (Some s, u')" "sessions u (session_key (c, dst)) = None"
  shows "s = \<lparr>s_key = session_key (c, dst), s_client = c, s_original = dst, s_upstream = next_sock u\<rparr>"
    "u' = u\<lparr>sessions := (sessions u)(session_key (c, dst) \<mapsto> s), next_sock := next_sock u + 1\<rparr>"
  using assms by (auto simp: getOrCreateSession_def Let_def split: if_splits)

lemma udp_inv_start: "udp_inv udp_start"
  by (simp add: udp_inv_def udp_start_def NewUDPServer_def tables_ok_def serving_ok_def dials_ok_def)

lemma udp_inv_new:
  assumes "udp_inv n" "sessions (server n) (session_key (c, dst)) = None"
    "getOrCreateSession c dst ok (server n) = (Some s, u)"
  shows "udp_inv (n\<lparr>server := u, serving := Forwarding c dst p s,
    workers := (workers n)(s_upstream s \<mapsto> (s, Waiting)), trace := trace n @ [Dialed (s_upstream s) c dst]\<rparr>)"
proof -
  let ?i = "next_sock (server n)" and ?tr = "trace n @ [Dialed (next_sock (server n)) c dst]"
  note new = getOrCreateSession_new [OF assms(3,2)]
  have s: "s_upstream s = ?i" "s_client s = c" "s_original s = dst" using new(1) by simp_all
  have ok: "session_ok ?tr s" using new(1) by (simp add: session_ok_def)
  have "tables_ok ?tr u"
    using assms(1) ok s unfolding new(2) udp_inv_def tables_ok_def by (auto simp: ok_mono)
  moreover have "dials_ok ?tr (next_sock u)"
    using assms(1) unfolding new(2) udp_inv_def dials_ok_def by fastforce
  moreover have "event_ok ?tr e" if "e \<in> set ?tr" for e
  proof (cases "e \<in> set (trace n)")
    case True
    then show ?thesis using assms(1) by (simp add: udp_inv_def ok_mono)
  next
    case False
    then show ?thesis using that by (simp add: event_ok_def)
  qed
  moreover have "worker_ok ?tr ?i (s, Waiting)" "serving_ok ?tr (Forwarding c dst p s)"
    using ok s by (simp_all add: worker_ok_def serving_ok_def)
  ultimately show ?thesis
    using assms(1) s by (auto simp: udp_inv_def ok_mono)
qed

lemma udp_inv_event:
  assumes "udp_inv n" "event_ok (trace n @ [e]) e" "\<And>i c dst. e \<noteq> Dialed i c dst"
  shows "udp_inv (n\<lparr>trace := trace n @ [e]\<rparr>)"
  using assms dials_ok_append [of "trace n" "next_sock (server n)" "[e]"]
  by (auto simp: udp_inv_def tables_ok_mono ok_mono)

lemma udp_inv_worker:
  assumes "udp_inv n" "worker_ok (trace n) i w"
  shows "udp_inv (n\<lparr>workers := (workers n)(i \<mapsto> w)\<rparr>)"
  using assms by (auto simp: udp_inv_def)

lemma udp_inv_server:
  assumes "udp_inv n" "tables_ok (trace n) u" "next_sock (server n) \<le> next_sock u"
  shows "udp_inv (n\<lparr>server := u\<rparr>)"
  using assms by (fastforce simp: udp_inv_def dials_ok_def)

lemma udp_inv_serving:
  "udp_inv n \<Longrightarrow> serving_ok (trace n) st \<Longrightarrow> udp_inv (n\<lparr>serving := st\<rparr>)"
  "udp_inv n \<Longrightarrow> udp_inv (n\<lparr>workers := (workers n)(i := None)\<rparr>)"
  by (auto simp: udp_inv_def)

lemma udp_inv_close: "udp_inv n \<Longrightarrow> udp_inv (n\<lparr>server := closeSession k (server n)\<rparr>)"
  by (rule udp_inv_server) (auto simp: udp_inv_def closeSession_keeps)

lemma worker_of: "udp_inv n \<Longrightarrow> workers n i = Some w \<Longrightarrow> worker_ok (trace n) i w"
  by (cases w) (simp add: udp_inv_def)

lemma udp_inv_step:
  assumes "udp_step n n'" "udp_inv n"
  shows "udp_inv n'"
  using assms
proof (cases rule: udp_step.cases)
  case (Receive_Known c dst dialOk s u p)
  have "tables_ok (trace n) (server n)" using assms(2) by (simp add: udp_inv_def)
  from getOrCreateSession_known [OF Receive_Known(4,3) this] Receive_Known(1) assms(2) show ?thesis
    by (simp add: udp_inv_serving serving_ok_def)
next
  case Receive_New
  then show ?thesis using udp_inv_new assms(2) by blast
next
  case (Forward c dst p s)
  then have ok: "session_ok (trace n) s" "s_client s = c" "s_original s = dst"
    using assms(2) by (simp_all add: udp_inv_def serving_ok_def)
  have "udp_inv (n\<lparr>trace := trace n @ [Upstream (s_upstream s) c dst p]\<rparr>)"
    using assms(2) ok by (intro udp_inv_event) (auto simp: event_ok_def session_ok_def)
  from udp_inv_serving(1) [OF this, of Receiving] show ?thesis by (cases n) (simp add: Forward(1) serving_ok_def)
next
  case (Forward_Failed c dst p s)
  with udp_inv_serving(1) [OF udp_inv_close [OF assms(2)], of "s_key s" Receiving] show ?thesis
    by (cases n) (simp add: serving_ok_def)
next
  case Serve_End
  then show ?thesis using assms(2) by (simp add: udp_inv_serving serving_ok_def)
next
  case (Read_Answer i s p)
  have "udp_inv (n\<lparr>trace := trace n @ [Answer i p]\<rparr>)"
    using assms(2) by (intro udp_inv_event) (auto simp: event_ok_def)
  then have "udp_inv (n\<lparr>trace := trace n @ [Answer i p], workers := (workers n)(i \<mapsto> (s, Answered p))\<rparr>)"
    using udp_inv_worker [of "n\<lparr>trace := trace n @ [Answer i p]\<rparr>" i "(s, Answered p)"]
      worker_of [OF assms(2) Read_Answer(2)] by (auto simp: worker_ok_def session_ok_def)
  then show ?thesis by (cases n) (simp add: Read_Answer(1))
next
  case (Take_Reply_Conn i s p listenOk conn u)
  have "tables_ok (trace n) (server n)" using assms(2) by (simp add: udp_inv_def)
  note keeps = getReplyConn_keeps [OF Take_Reply_Conn(3) this]
  have "udp_inv (n\<lparr>server := u, workers := (workers n)(i \<mapsto> (s, Sending p conn))\<rparr>)"
    using udp_inv_worker [OF udp_inv_server [OF assms(2) keeps(1,3)], of i "(s, Sending p conn)"] keeps(2)
      worker_of [OF assms(2) Take_Reply_Conn(2)] by (simp add: worker_ok_def)
  then show ?thesis by (simp add: Take_Reply_Conn(1))
next
  case (Send_Reply i s p conn)
  note w = worker_of [OF assms(2) Send_Reply(2)]
  have "udp_inv (n\<lparr>trace := trace n @ [Reply i (s_client s) (rc_local conn) p]\<rparr>)" (is "udp_inv ?n")
    using assms(2) w by (intro udp_inv_event) (auto simp: event_ok_def worker_ok_def session_ok_def)
  from udp_inv_worker [OF this, of i "(s, Waiting)"] w show ?thesis
    by (cases n) (simp add: Send_Reply(1) worker_ok_def ok_mono)
next
  case (Worker_Failed i s w)
  with udp_inv_serving(2) [OF udp_inv_close [OF assms(2)], of "s_key s" i] show ?thesis by simp
next
  case Stop
  then show ?thesis using assms(2) Shutdown_keeps by (simp add: udp_inv_server udp_inv_def)
qed

lemma reachable_inv: "udp_reachable n \<Longrightarrow> udp_inv n"
  by (induction rule: udp_reachable.induct) (auto intro: udp_inv_start udp_inv_step)

text \<open>
  C38. The UDP proxy never mixes up flows, whatever the interleaving of its goroutines, the
  failures and a shutdown in between: a packet of a client goes out on a socket that was
  dialled for this client to the packet's original destination, an answer goes to the client
  of the socket it was read from, under the source address the client had addressed, and a
  socket is dialled for one client and destination only.
\<close>

theorem udp_flows_separate:
  assumes "udp_reachable n"
  shows "(Upstream i c dst p \<in> set (trace n) \<longrightarrow> Dialed i c dst \<in> set (trace n)) \<and>
    (Reply i c from p \<in> set (trace n) \<longrightarrow> Dialed i c from \<in> set (trace n) \<and> Answer i p \<in> set (trace n)) \<and>
    (Dialed i c dst \<in> set (trace n) \<and> Dialed i c' dst' \<in> set (trace n) \<longrightarrow> c = c' \<and> dst = dst')"
  using reachable_inv [OF assms] by (fastforce simp: udp_inv_def event_ok_def dials_ok_def)

text \<open>A first packet, received and forwarded; and the same with a failing write.\<close>

definition first_session :: "uaddr \<Rightarrow> uaddr \<Rightarrow> udpSession" where
  "first_session c dst = \<lparr>s_key = session_key (c, dst), s_client = c, s_original = dst, s_upstream = 0\<rparr>"

definition first_received :: "uaddr \<Rightarrow> uaddr \<Rightarrow> byte list \<Rightarrow> udp_net" where
  "first_received c dst p =
     \<lparr>server = NewUDPServer\<lparr>sessions := [session_key (c, dst) \<mapsto> first_session c dst], next_sock := 1\<rparr>,
      serving = Forwarding c dst p (first_session c dst), workers = [0 \<mapsto> (first_session c dst, Waiting)],
      trace = [Dialed 0 c dst]\<rparr>"

lemma first_received_reachable: "udp_reachable (first_received c dst p)"
proof -
  have "getOrCreateSession c dst True (server udp_start) =
      (Some (first_session c dst), NewUDPServer\<lparr>sessions := [session_key (c, dst) \<mapsto> first_session c dst], next_sock := 1\<rparr>)"
    by (simp add: udp_start_def NewUDPServer_def getOrCreateSession_def first_session_def Let_def)
  from udp_step.Receive_New [OF _ _ this, of p]
  have "udp_step udp_start (first_received c dst p)"
    by (simp add: udp_start_def NewUDPServer_def first_received_def first_session_def)
  with udp_reachable.Start show ?thesis by (rule udp_reachable.Step)
qed

definition sample_client :: uaddr where "sample_client = \<lparr>ua_IP = (10, 0, 0, 7), ua_Port = 40000\<rparr>"
definition sample_server :: uaddr where "sample_server = \<lparr>ua_IP = (192, 0, 2, 53), ua_Port = 53\<rparr>"

theorem udp_flows_separate_witness:
  "\<exists>n. udp_reachable n \<and> Upstream 0 sample_client sample_server [1, 2] \<in> set (trace n) \<and>
     Dialed 0 sample_client sample_server \<in> set (trace n)"
proof -
  let ?n = "first_received sample_client sample_server [1, 2]"
  let ?n' = "?n\<lparr>serving := Receiving, trace := trace ?n @ [Upstream 0 sample_client sample_server [1, 2]]\<rparr>"
  have "udp_step ?n ?n'"
    using udp_step.Forward [of ?n sample_client sample_server "[1, 2]" "first_session sample_client sample_server"]
    by (simp add: first_received_def first_session_def NewUDPServer_def)
  then have r: "udp_reachable ?n'" by (rule udp_reachable.Step [OF first_received_reachable])
  moreover have up: "Upstream 0 sample_client sample_server [1, 2] \<in> set (trace ?n')" by simp
  ultimately show ?thesis
    using udp_flows_separate [OF r, of 0 sample_client sample_server "[1, 2]"] by blast
qed

text \<open>
  \<open>closeSession\<close> is given a key, not a session: the goroutine of a session that has already been
  replaced closes the new session when its own socket fails.
\<close>

lemma stale_worker_closes_new_session:
  "\<exists>n n' s'. udp_reachable n \<and> udp_step n n' \<and>
     workers n 0 = Some (first_session c dst, Waiting) \<and> workers n' 0 = None \<and>
     sessions (server n) (session_key (c, dst)) = Some s' \<and> s_upstream s' = 1 \<and> 1 \<notin> closed (server n) \<and>
     sessions (server n') (session_key (c, dst)) = None \<and> 1 \<in> closed (server n')"
proof -
  let ?k = "session_key (c, dst)" and ?s = "first_session c dst"
  let ?s' = "(first_session c dst)\<lparr>s_upstream := 1\<rparr>"
  let ?n1 = "(first_received c dst p)\<lparr>serving := Receiving, server := closeSession ?k (server (first_received c dst p))\<rparr>"
  let ?u = "(server ?n1)\<lparr>sessions := (sessions (server ?n1))(?k \<mapsto> ?s'), next_sock := 2\<rparr>"
  let ?n2 = "?n1\<lparr>server := ?u, serving := Forwarding c dst p ?s', workers := (workers ?n1)(1 \<mapsto> (?s', Waiting)),
    trace := trace ?n1 @ [Dialed 1 c dst]\<rparr>"
  let ?n3 = "?n2\<lparr>server := closeSession ?k (server ?n2), workers := (workers ?n2)(0 := None)\<rparr>"
  have "udp_step (first_received c dst p) ?n1"
    using udp_step.Forward_Failed [of "first_received c dst p" c dst p ?s]
    by (simp add: first_received_def first_session_def)
  moreover have "udp_step ?n1 ?n2"
    using udp_step.Receive_New [of ?n1 c dst True ?s' ?u p]
    by (simp add: first_received_def first_session_def NewUDPServer_def getOrCreateSession_def closeSession_def Let_def)
  ultimately have "udp_reachable ?n2"
    using first_received_reachable udp_reachable.Step by blast
  moreover have "s_upstream ?s' = 1" by simp
  moreover have "udp_step ?n2 ?n3"
    using udp_step.Worker_Failed [of ?n2 0 ?s Waiting] by (simp add: first_received_def first_session_def)
  moreover have "workers ?n2 0 = Some (?s, Waiting)" "workers ?n3 0 = None" "sessions (server ?n2) ?k = Some ?s'"
    "1 \<notin> closed (server ?n2)" "sessions (server ?n3) ?k = None" "1 \<in> closed (server ?n3)"
    by (simp_all add: first_received_def first_session_def NewUDPServer_def closeSession_def)
  ultimately show ?thesis by (intro exI conjI)
qed

text \<open>Reply sockets are kept for ever: no step removes one from the table.\<close>

lemma reply_conns_kept:
  assumes "udp_step n n'" "replyConn (server n) k = Some r"
  shows "replyConn (server n') k = Some r"
  using assms
  by (cases rule: udp_step.cases)
    (auto simp: getOrCreateSession_def getReplyConn_def closeSession_def udp_Shutdown_def Let_def
      split: option.splits if_splits)

end
