(* ===== verification/Iptables_Config.thy ===== *)
theory Iptables_Config
  imports Go_Strings
begin

text \<open>
  The configuration of the packet filter rules: \<open>iptables/pkg/config\<close>, the constants of
  \<open>iptables/pkg/constants\<close> that the rules use, and the log commands of
  \<open>iptables/pkg/log/command.go\<close>. Names are constants with one lemma that tells them apart.
\<close>

section \<open>Names\<close>

definition MANGLE :: string where "MANGLE = ''mangle''"
definition NAT :: string where "NAT = ''nat''"
definition FILTER :: string where "FILTER = ''filter''"
definition RAW :: string where "RAW = ''raw''"

definition INPUT :: string where "INPUT = ''INPUT''"
definition OUTPUT :: string where "OUTPUT = ''OUTPUT''"
definition FORWARD :: string where "FORWARD = ''FORWARD''"
definition PREROUTING :: string where "PREROUTING = ''PREROUTING''"
definition POSTROUTING :: string where "POSTROUTING = ''POSTROUTING''"

definition BuiltInChainsMap :: "string list" where
  "BuiltInChainsMap = [INPUT, OUTPUT, FORWARD, PREROUTING, POSTROUTING]"

definition ISTIOOUTPUT :: string where "ISTIOOUTPUT = ''ISTIO_OUTPUT''"
definition ISTIOINBOUND :: string where "ISTIOINBOUND = ''ISTIO_INBOUND''"
definition ISTIODIVERT :: string where "ISTIODIVERT = ''ISTIO_DIVERT''"
definition ISTIOTPROXY :: string where "ISTIOTPROXY = ''ISTIO_TPROXY''"
definition ISTIOREDIRECT :: string where "ISTIOREDIRECT = ''ISTIO_REDIRECT''"
definition ISTIOINREDIRECT :: string where "ISTIOINREDIRECT = ''ISTIO_IN_REDIRECT''"

definition RETURN :: string where "RETURN = ''RETURN''"
definition ACCEPT :: string where "ACCEPT = ''ACCEPT''"
definition REDIRECT :: string where "REDIRECT = ''REDIRECT''"
definition TPROXY :: string where "TPROXY = ''TPROXY''"
definition MARK :: string where "MARK = ''MARK''"
definition CT :: string where "CT = ''CT''"
definition DROP :: string where "DROP = ''DROP''"
definition NFLOG :: string where "NFLOG = ''NFLOG''"
definition CONNMARK :: string where "CONNMARK = ''CONNMARK''"

definition IPVersionSpecific :: string where
  "IPVersionSpecific = ''PLACEHOLDER_IP_VERSION_SPECIFIC''"

definition IstioAgentDNSListenerPort :: string where "IstioAgentDNSListenerPort = ''15053''"

lemmas chain_names = INPUT_def OUTPUT_def FORWARD_def PREROUTING_def POSTROUTING_def ISTIOOUTPUT_def
  ISTIOINBOUND_def ISTIODIVERT_def ISTIOTPROXY_def ISTIOREDIRECT_def ISTIOINREDIRECT_def
lemmas target_names = RETURN_def ACCEPT_def REDIRECT_def TPROXY_def MARK_def CT_def DROP_def NFLOG_def CONNMARK_def
lemmas table_names = MANGLE_def NAT_def FILTER_def RAW_def

lemma names_distinct:
  "distinct [INPUT, OUTPUT, FORWARD, PREROUTING, POSTROUTING, ISTIOOUTPUT, ISTIOINBOUND, ISTIODIVERT,
     ISTIOTPROXY, ISTIOREDIRECT, ISTIOINREDIRECT, RETURN, ACCEPT, REDIRECT, TPROXY, MARK, CT, DROP, NFLOG, CONNMARK]"
  "distinct [MANGLE, NAT, FILTER, RAW]"
  by (simp_all add: chain_names target_names table_names)

lemma names_distinct_rev:
  "distinct [CONNMARK, NFLOG, DROP, CT, MARK, TPROXY, REDIRECT, ACCEPT, RETURN, ISTIOINREDIRECT, ISTIOREDIRECT,
     ISTIOTPROXY, ISTIODIVERT, ISTIOINBOUND, ISTIOOUTPUT, POSTROUTING, PREROUTING, FORWARD, OUTPUT, INPUT]"
  "distinct [RAW, FILTER, NAT, MANGLE]"
  using names_distinct by (simp_all add: chain_names target_names table_names)

lemmas names_neq [simp] = names_distinct [simplified] names_distinct_rev [simplified]

record command =
  Identifier :: string
  Comment :: string

definition UndefinedCommand :: command where
  "UndefinedCommand = \<lparr>Identifier = ''UndefinedCommand'', Comment = []\<rparr>"
definition JumpInbound :: command where
  "JumpInbound = \<lparr>Identifier = ''JumpInbound'', Comment = ''direct all traffic through ISTIO_INBOUND chain''\<rparr>"
definition JumpOutbound :: command where
  "JumpOutbound = \<lparr>Identifier = ''JumpOutbound'', Comment = ''direct all traffic through ISTIO_OUTBOUND chain''\<rparr>"
definition ExcludeInboundPort :: command where
  "ExcludeInboundPort = \<lparr>Identifier = ''ExcludeInboundPort'', Comment = ''exclude inbound port from capture''\<rparr>"
definition IncludeInboundPort :: command where
  "IncludeInboundPort = \<lparr>Identifier = ''IncludeInboundPort'', Comment = ''include inbound port for capture''\<rparr>"
definition InboundCapture :: command where
  "InboundCapture = \<lparr>Identifier = ''InboundCapture'', Comment = ''redirect inbound request to proxy''\<rparr>"
definition KubevirtCommand :: command where
  "KubevirtCommand = \<lparr>Identifier = ''KubevirtCommand'', Comment = ''Kubevirt outbound redirect''\<rparr>"
definition ExcludeInterfaceCommand :: command where
  "ExcludeInterfaceCommand = \<lparr>Identifier = ''ExcludeInterfaceCommand'', Comment = ''Excluded interface''\<rparr>"

section \<open>Configuration\<close>

record ipt_config =
  ProxyPort :: string
  InboundCapturePort :: string
  InboundTunnelPort :: string
  ProxyUID :: string
  ProxyGID :: string
  InboundInterceptionMode :: string
  InboundTProxyMark :: string
  InboundPortsInclude :: string
  InboundPortsExclude :: string
  OwnerGroupsInclude :: string
  OwnerGroupsExclude :: string
  OutboundPortsInclude :: string
  OutboundPortsExclude :: string
  OutboundIPRangesInclude :: string
  OutboundIPRangesExclude :: string
  KubeVirtInterfaces :: string
  ExcludeInterfaces :: string
  RestoreFormat :: bool
  RedirectDNS :: bool
  DropInvalid :: bool
  CaptureAllDNS :: bool
  EnableInboundIPv6 :: bool
  DNSServersV4 :: "string list"
  DNSServersV6 :: "string list"
  OutputPath :: string
  TraceLogging :: bool

definition zero_config :: ipt_config where
  "zero_config = \<lparr>ProxyPort = [], InboundCapturePort = [], InboundTunnelPort = [], ProxyUID = [],
     ProxyGID = [], InboundInterceptionMode = [], InboundTProxyMark = [], InboundPortsInclude = [],
     InboundPortsExclude = [], OwnerGroupsInclude = [], OwnerGroupsExclude = [], OutboundPortsInclude = [],
     OutboundPortsExclude = [], OutboundIPRangesInclude = [], OutboundIPRangesExclude = [],
     KubeVirtInterfaces = [], ExcludeInterfaces = [], RestoreFormat = False, RedirectDNS = False,
     DropInvalid = False, CaptureAllDNS = False, EnableInboundIPv6 = False, DNSServersV4 = [],
     DNSServersV6 = [], OutputPath = [], TraceLogging = False\<rparr>"

definition filterEmpty :: "string list \<Rightarrow> string list" where
  "filterEmpty strs = filter (\<lambda>s. s \<noteq> []) strs"

definition Split :: "string \<Rightarrow> string list" where
  "Split s = (if s = [] then [] else filterEmpty (split_on CHR '','' s))"

record intercept_filter =
  Values :: "string list"
  Except :: bool

definition InterceptAllExcept :: "string list \<Rightarrow> intercept_filter" where
  "InterceptAllExcept vs = \<lparr>Values = vs, Except = True\<rparr>"

definition InterceptOnly :: "string list \<Rightarrow> intercept_filter" where
  "InterceptOnly vs = \<lparr>Values = vs, Except = False\<rparr>"

definition ParseInterceptFilter :: "string \<Rightarrow> string \<Rightarrow> intercept_filter" where
  "ParseInterceptFilter inc exc =
     (if inc = ''*'' then InterceptAllExcept (Split exc) else InterceptOnly (Split inc))"

definition maxOwnerGroupsInclude :: nat where "maxOwnerGroupsInclude = 64"

text \<open>The error carries the number of groups and the groups.\<close>

definition ValidateOwnerGroups :: "string \<Rightarrow> string \<Rightarrow> (nat \<times> string list) option" where
  "ValidateOwnerGroups inc exc =
     (let f = ParseInterceptFilter inc exc in
      if \<not> Except f \<and> maxOwnerGroupsInclude < length (Values f) then Some (length (Values f), Values f) else None)"

definition ipt_Validate :: "ipt_config \<Rightarrow> (nat \<times> string list) option" where
  "ipt_Validate c = ValidateOwnerGroups (OwnerGroupsInclude c) (OwnerGroupsExclude c)"

lemma Split_nonempty: "x \<in> set (Split s) \<Longrightarrow> x \<noteq> []"
  by (auto simp: Split_def filterEmpty_def split: if_splits)

end
