(* ===== verification/String_Set.thy ===== *)
theory String_Set
  imports Prelude "HOL-Library.List_Lexorder" "HOL-Library.Char_ord"
begin

text \<open>
  The string sets of \<open>util/sets/string.go\<close>. A set is a Go map with empty values, here a
  HOL set. \<open>range\<close> visits a map in no fixed order: the order of a call is the argument
  \<open>order\<close>, of which only \<open>enumerates\<close> is known. \<open>sort.Strings\<close> orders by bytes, which is
  the lexicographic order of the characters.
\<close>

section \<open>Operations\<close>

type_synonym sset = "string set"

definition enumerates :: "(sset \<Rightarrow> string list) \<Rightarrow> sset \<Rightarrow> bool" where
  "enumerates order s \<longleftrightarrow> distinct (order s) \<and> set (order s) = s"

definition NewWithLength :: "int \<Rightarrow> sset" where
  "NewWithLength l = {}"

definition Insert :: "sset \<Rightarrow> string \<Rightarrow> sset" where
  "Insert s item = insert item s"

definition InsertAll :: "sset \<Rightarrow> string list \<Rightarrow> sset" where
  "InsertAll s items = foldl Insert s items"

definition New :: "string list \<Rightarrow> sset" where
  "New items = InsertAll (NewWithLength (int (length items))) items"

definition Delete :: "sset \<Rightarrow> string list \<Rightarrow> sset" where
  "Delete s items = foldl (\<lambda>acc item. acc - {item}) s items"

definition Merge :: "(sset \<Rightarrow> string list) \<Rightarrow> sset \<Rightarrow> sset \<Rightarrow> sset" where
  "Merge order s s2 = foldl Insert s (order s2)"

definition Set_Copy :: "(sset \<Rightarrow> string list) \<Rightarrow> sset \<Rightarrow> sset" where
  "Set_Copy order s = foldl Insert (New []) (order s)"

definition Set_Contains :: "sset \<Rightarrow> string \<Rightarrow> bool" where
  "Set_Contains s item \<longleftrightarrow> item \<in> s"

definition Union :: "(sset \<Rightarrow> string list) \<Rightarrow> sset \<Rightarrow> sset \<Rightarrow> sset" where
  "Union order s s2 = foldl Insert (Set_Copy order s) (order s2)"

definition Difference :: "(sset \<Rightarrow> string list) \<Rightarrow> sset \<Rightarrow> sset \<Rightarrow> sset" where
  "Difference order s s2 =
     foldl (\<lambda>result key. if \<not> Set_Contains s2 key then Insert result key else result) (New []) (order s)"

definition Intersection :: "(sset \<Rightarrow> string list) \<Rightarrow> sset \<Rightarrow> sset \<Rightarrow> sset" where
  "Intersection order s s2 =
     foldl (\<lambda>result key. if Set_Contains s2 key then Insert result key else result) (New []) (order s)"

definition Set_Len :: "(sset \<Rightarrow> string list) \<Rightarrow> sset \<Rightarrow> nat" where
  "Set_Len order s = length (order s)"

definition IsEmpty :: "(sset \<Rightarrow> string list) \<Rightarrow> sset \<Rightarrow> bool" where
  "IsEmpty order s \<longleftrightarrow> Set_Len order s = 0"

definition SupersetOf :: "(sset \<Rightarrow> string list) \<Rightarrow> sset \<Rightarrow> sset \<Rightarrow> bool" where
  "SupersetOf order s s2 \<longleftrightarrow> IsEmpty order (Difference order s2 s)"

definition UnsortedList :: "(sset \<Rightarrow> string list) \<Rightarrow> sset \<Rightarrow> string list" where
  "UnsortedList order s = order s"

definition SortedList :: "(sset \<Rightarrow> string list) \<Rightarrow> sset \<Rightarrow> string list" where
  "SortedList order s = sort (UnsortedList order s)"

definition Equals :: "(sset \<Rightarrow> string list) \<Rightarrow> sset \<Rightarrow> sset \<Rightarrow> bool" where
  "Equals order s other \<longleftrightarrow>
     Set_Len order s = Set_Len order other \<and> list_all (Set_Contains other) (order s)"

definition Diff :: "(sset \<Rightarrow> string list) \<Rightarrow> sset \<Rightarrow> sset \<Rightarrow> string list \<times> string list" where
  "Diff order s other =
     (filter (\<lambda>k. k \<notin> other) (order s), filter (\<lambda>k. k \<notin> s) (order other))"

section \<open>They are the operations of mathematics\<close>

lemma foldl_Insert: "foldl Insert s items = s \<union> set items"
  by (induction items arbitrary: s) (auto simp: Insert_def)

lemma foldl_Insert_if: "foldl (\<lambda>r k. if P k then Insert r k else r) s items = s \<union> {k \<in> set items. P k}"
  by (induction items arbitrary: s) (auto simp: Insert_def)

lemma New_set [simp]: "New items = set items"
  by (simp add: New_def InsertAll_def NewWithLength_def foldl_Insert)

lemma Delete_set: "Delete s items = s - set items"
  unfolding Delete_def by (induction items arbitrary: s) auto

text \<open>The contract that the clients of a set rely on, whatever the order of iteration.\<close>

locale set_operations =
  fixes order :: "sset \<Rightarrow> string list"
  assumes order: "finite s \<Longrightarrow> enumerates order s"
begin

lemma order_set: "finite s \<Longrightarrow> set (order s) = s" "finite s \<Longrightarrow> distinct (order s)"
  using order by (simp_all add: enumerates_def)

lemma Len_card: "finite s \<Longrightarrow> Set_Len order s = card s"
  using order_set [of s] distinct_card [of "order s"] by (simp add: Set_Len_def)

lemma binary:
  assumes "finite s" "finite t"
  shows "Merge order s t = s \<union> t" "Set_Copy order s = s" "Union order s t = s \<union> t"
    "Difference order s t = s - t" "Intersection order s t = s \<inter> t"
  using assms
  by (auto simp: Merge_def Set_Copy_def Union_def Difference_def Intersection_def foldl_Insert
      foldl_Insert_if order_set Set_Contains_def)

lemma IsEmpty_iff: "finite s \<Longrightarrow> IsEmpty order s \<longleftrightarrow> s = {}"
  by (simp add: IsEmpty_def Len_card)

lemma SupersetOf_iff: "finite s \<Longrightarrow> finite t \<Longrightarrow> SupersetOf order s t \<longleftrightarrow> t \<subseteq> s"
  by (auto simp: SupersetOf_def binary IsEmpty_iff)

lemma Equals_iff: "finite s \<Longrightarrow> finite t \<Longrightarrow> Equals order s t \<longleftrightarrow> s = t"
  using card_subset_eq [of t s]
  by (auto simp: Equals_def Len_card list_all_iff order_set Set_Contains_def)

lemma SortedList_unique:
  "finite s \<Longrightarrow> SortedList order s = sorted_list_of_set s"
  using order_set [of s] sorted_list_of_set_sort_remdups [of "order s"]
  by (simp add: SortedList_def UnsortedList_def distinct_remdups_id)

lemma Diff_iff:
  "finite s \<Longrightarrow> finite t \<Longrightarrow> set (fst (Diff order s t)) = s - t \<and> set (snd (Diff order s t)) = t - s"
  by (auto simp: Diff_def order_set)

end

text \<open>One order of iteration: the sorted one.\<close>

interpretation sorted_sets: set_operations sorted_list_of_set
  by unfold_locales (simp add: enumerates_def)

end
