(* ===== verification/Iptables_Builder.thy ===== *)
theory Iptables_Builder
  imports Iptables_Config String_Set
begin

text \<open>
  The rule builder, \<open>iptables/pkg/builder/iptables_builder_impl.go\<close>: it collects rules for
  IPv4 and IPv6 and prints them as commands or as the input of \<open>iptables-restore\<close>.

  In \<open>insertInternal\<close> and \<open>appendInternal\<close> the match of the logging rule is a slice of the
  parameters that is then extended. No rule has eight words after \<open>-j\<close>, so that the
  extension never fits the old array and the parameters are not overwritten.
\<close>

section \<open>Rules\<close>

record rule =
  r_chain :: string
  r_table :: string
  r_params :: "string list"

record builder =
  rulesv4 :: "rule list"
  rulesv6 :: "rule list"
  b_cfg :: ipt_config

definition NewIptablesBuilder :: "ipt_config option \<Rightarrow> builder" where
  "NewIptablesBuilder c =
     \<lparr>rulesv4 = [], rulesv6 = [], b_cfg = (case c of None \<Rightarrow> zero_config | Some x \<Rightarrow> x)\<rparr>"

fun indexOf :: "string \<Rightarrow> string list \<Rightarrow> nat option" where
  "indexOf element [] = None"
| "indexOf element (v # data) =
     (if element = v then Some 0 else map_option Suc (indexOf element data))"

definition go_quote :: "string \<Rightarrow> string" where
  "go_quote s = CHR 0x22 # s @ [CHR 0x22]"

definition nflog_target :: "command \<Rightarrow> string list" where
  "nflog_target c =
     [''-j'', NFLOG, ''--nflog-prefix'', go_quote (Identifier c), ''--nflog-group'', ''1337'', ''--nflog-size'', ''20'']"

text \<open>The parameters of the logging rule, when there is one.\<close>

definition log_params :: "ipt_config \<Rightarrow> command \<Rightarrow> string list \<Rightarrow> string list option" where
  "log_params conf c params =
     (case indexOf ''-j'' params of
        Some idx \<Rightarrow>
          if TraceLogging conf \<and> c \<noteq> UndefinedCommand then Some (take idx params @ nflog_target c) else None
      | None \<Rightarrow> None)"

definition insertInternal ::
  "ipt_config \<Rightarrow> command \<Rightarrow> string \<Rightarrow> string \<Rightarrow> nat \<Rightarrow> string list \<Rightarrow> rule list \<Rightarrow> rule list" where
  "insertInternal conf c chain tab pos params ipt =
     (let mk = (\<lambda>ps. \<lparr>r_chain = chain, r_table = tab, r_params = [''-I'', chain, nat_digits pos] @ ps\<rparr>)
      in ipt @ [mk params] @ (case log_params conf c params of Some m \<Rightarrow> [mk m] | None \<Rightarrow> []))"

definition appendInternal ::
  "ipt_config \<Rightarrow> command \<Rightarrow> string \<Rightarrow> string \<Rightarrow> string list \<Rightarrow> rule list \<Rightarrow> rule list" where
  "appendInternal conf c chain tab params ipt =
     (let mk = (\<lambda>ps. \<lparr>r_chain = chain, r_table = tab, r_params = [''-A'', chain] @ ps\<rparr>)
      in ipt @ (case log_params conf c params of Some m \<Rightarrow> [mk m] | None \<Rightarrow> []) @ [mk params])"

definition InsertRuleV4 :: "command \<Rightarrow> string \<Rightarrow> string \<Rightarrow> nat \<Rightarrow> string list \<Rightarrow> builder \<Rightarrow> builder" where
  "InsertRuleV4 c chain tab pos params rb =
     rb\<lparr>rulesv4 := insertInternal (b_cfg rb) c chain tab pos params (rulesv4 rb)\<rparr>"

definition InsertRuleV6 :: "command \<Rightarrow> string \<Rightarrow> string \<Rightarrow> nat \<Rightarrow> string list \<Rightarrow> builder \<Rightarrow> builder" where
  "InsertRuleV6 c chain tab pos params rb =
     (if \<not> EnableInboundIPv6 (b_cfg rb) then rb
      else rb\<lparr>rulesv6 := insertInternal (b_cfg rb) c chain tab pos params (rulesv6 rb)\<rparr>)"

definition InsertRule :: "command \<Rightarrow> string \<Rightarrow> string \<Rightarrow> nat \<Rightarrow> string list \<Rightarrow> builder \<Rightarrow> builder" where
  "InsertRule c chain tab pos params rb =
     InsertRuleV6 c chain tab pos params (InsertRuleV4 c chain tab pos params rb)"

definition AppendRuleV4 :: "command \<Rightarrow> string \<Rightarrow> string \<Rightarrow> string list \<Rightarrow> builder \<Rightarrow> builder" where
  "AppendRuleV4 c chain tab params rb =
     rb\<lparr>rulesv4 := appendInternal (b_cfg rb) c chain tab params (rulesv4 rb)\<rparr>"

definition AppendRuleV6 :: "command \<Rightarrow> string \<Rightarrow> string \<Rightarrow> string list \<Rightarrow> builder \<Rightarrow> builder" where
  "AppendRuleV6 c chain tab params rb =
     (if \<not> EnableInboundIPv6 (b_cfg rb) then rb
      else rb\<lparr>rulesv6 := appendInternal (b_cfg rb) c chain tab params (rulesv6 rb)\<rparr>)"

definition AppendRule :: "command \<Rightarrow> string \<Rightarrow> string \<Rightarrow> string list \<Rightarrow> builder \<Rightarrow> builder" where
  "AppendRule c chain tab params rb = AppendRuleV6 c chain tab params (AppendRuleV4 c chain tab params rb)"

definition replaceVersionSpecific :: "string \<Rightarrow> string list \<Rightarrow> string list" where
  "replaceVersionSpecific contents inputs = map (\<lambda>i. if i = IPVersionSpecific then contents else i) inputs"

definition AppendVersionedRule ::
  "string \<Rightarrow> string \<Rightarrow> command \<Rightarrow> string \<Rightarrow> string \<Rightarrow> string list \<Rightarrow> builder \<Rightarrow> builder" where
  "AppendVersionedRule ipv4 ipv6 c chain tab params rb =
     AppendRuleV6 c chain tab (replaceVersionSpecific ipv6 params)
       (AppendRuleV4 c chain tab (replaceVersionSpecific ipv4 params) rb)"

section \<open>Printing\<close>

definition chain_table :: "rule \<Rightarrow> string" where
  "chain_table r = r_chain r @ '':'' @ r_table r"

text \<open>
  The first loop of both printers: the chains to create, in the order of first use, each
  with its table.
\<close>

fun new_chains :: "rule list \<Rightarrow> sset \<Rightarrow> (string \<times> string) list" where
  "new_chains [] lookup = []"
| "new_chains (r # rs) lookup =
     (if \<not> Set_Contains lookup (chain_table r) \<and> r_chain r \<notin> set BuiltInChainsMap
      then (r_table r, r_chain r) # new_chains rs (Insert lookup (chain_table r))
      else new_chains rs lookup)"

definition buildRules :: "string \<Rightarrow> rule list \<Rightarrow> string list list" where
  "buildRules cmd rules =
     map (\<lambda>(tab, chain). [cmd, ''-t'', tab, ''-N'', chain]) (new_chains rules (New [])) @
     map (\<lambda>r. [cmd, ''-t'', r_table r] @ r_params r) rules"

definition BuildV4 :: "builder \<Rightarrow> string list list" where
  "BuildV4 rb = buildRules ''iptables'' (rulesv4 rb)"

definition BuildV6 :: "builder \<Rightarrow> string list list" where
  "BuildV6 rb = buildRules ''ip6tables'' (rulesv6 rb)"

text \<open>The table map of \<open>buildRestore\<close>: the lines of each table.\<close>

definition tableRulesMap :: "rule list \<Rightarrow> string \<Rightarrow> string list" where
  "tableRulesMap rules tab =
     map (\<lambda>(_, chain). ''-N '' @ chain) (filter (\<lambda>(t, _). t = tab) (new_chains rules (New []))) @
     map (\<lambda>r. join_with '' '' (r_params r)) (filter (\<lambda>r. r_table r = tab) rules)"

definition restore_tables :: "rule list \<Rightarrow> string list" where
  "restore_tables rules = remdups ([FILTER, NAT, MANGLE] @ map r_table rules)"

definition newline :: string where "newline = [char_of (10 :: nat)]"

definition constructIptablesRestoreContents :: "(string \<times> string list) list \<Rightarrow> string" where
  "constructIptablesRestoreContents tables =
     concat (map (\<lambda>(tab, rules).
       if 0 < length rules
       then ''* '' @ tab @ newline @ concat (map (\<lambda>r. r @ newline) rules) @ ''COMMIT'' @ newline
       else []) tables)"

text \<open>\<open>order\<close> is the order in which the table map is visited.\<close>

definition buildRestore :: "(string list \<Rightarrow> string list) \<Rightarrow> rule list \<Rightarrow> string" where
  "buildRestore order rules =
     constructIptablesRestoreContents
       (map (\<lambda>tab. (tab, tableRulesMap rules tab)) (order (restore_tables rules)))"

definition BuildV4Restore :: "(string list \<Rightarrow> string list) \<Rightarrow> builder \<Rightarrow> string" where
  "BuildV4Restore order rb = buildRestore order (rulesv4 rb)"

definition BuildV6Restore :: "(string list \<Rightarrow> string list) \<Rightarrow> builder \<Rightarrow> string" where
  "BuildV6Restore order rb = buildRestore order (rulesv6 rb)"

section \<open>Both formats say the same\<close>

lemma filter_commands:
  "filter (\<lambda>cmd. cmd ! 2 = tab) (buildRules c rules) =
     map (\<lambda>(t, chain). [c, ''-t'', t, ''-N'', chain]) (filter (\<lambda>(t, _). t = tab) (new_chains rules (New []))) @
     map (\<lambda>r. [c, ''-t'', r_table r] @ r_params r) (filter (\<lambda>r. r_table r = tab) rules)"
  by (simp add: buildRules_def filter_map o_def case_prod_unfold)

lemma tableRulesMap_commands:
  "tableRulesMap rules tab =
     map (\<lambda>cmd. join_with '' '' (drop 3 cmd)) (filter (\<lambda>cmd. cmd ! 2 = tab) (buildRules c rules))"
proof -
  have "join_with '' '' [''-N'', chain] = ''-N '' @ chain" for chain by simp
  then show ?thesis
    unfolding filter_commands tableRulesMap_def by (simp add: o_def case_prod_unfold)
qed

lemma new_chains_tables: "tab \<notin> r_table ` set rules \<Longrightarrow> filter (\<lambda>(t, _). t = tab) (new_chains rules l) = []"
  by (induction rules l rule: new_chains.induct) auto

lemma set_restore_tables: "set (restore_tables rules) = {FILTER, NAT, MANGLE} \<union> r_table ` set rules"
  unfolding restore_tables_def set_remdups by auto

lemma tableRulesMap_outside: "tab \<notin> set (restore_tables rules) \<Longrightarrow> tableRulesMap rules tab = []"
  using new_chains_tables [of tab rules]
  by (auto simp: set_restore_tables tableRulesMap_def filter_empty_conv)

text \<open>What \<open>iptables-restore\<close> reads for a table: the lines between its header and \<open>COMMIT\<close>.\<close>

definition table_block :: "string \<Rightarrow> string list \<Rightarrow> string" where
  "table_block tab lines =
     (if lines = [] then []
      else ''* '' @ tab @ newline @ concat (map (\<lambda>l. l @ newline) lines) @ ''COMMIT'' @ newline)"

lemma table_block_Nil: "table_block tab [] = []" by (simp add: table_block_def)

definition restore_lines :: "string list list \<Rightarrow> string \<Rightarrow> string list" where
  "restore_lines commands tab =
     map (\<lambda>cmd. join_with '' '' (drop 3 cmd)) (filter (\<lambda>cmd. cmd ! 2 = tab) commands)"

lemma command_tables: "cmd \<in> set (buildRules c rules) \<Longrightarrow> cmd ! 2 \<in> set (restore_tables rules)"
proof -
  have "t \<in> r_table ` set rules" if "(t, chain) \<in> set (new_chains rules l)" for t chain l
    using that by (induction rules l rule: new_chains.induct) (auto split: if_splits)
  then show "cmd \<in> set (buildRules c rules) \<Longrightarrow> cmd ! 2 \<in> set (restore_tables rules)"
    unfolding set_restore_tables by (fastforce simp: buildRules_def)
qed

text \<open>
  C37. The two output formats are equivalent: whatever the order in which the table map is
  visited, the restore file consists of one block per table, its lines are the commands of the
  other format for that table in the same order, without program and table, and no command
  is lost because every command belongs to a table that is printed.
\<close>

theorem restore_file_is_the_commands:
  assumes "set (order (restore_tables (rulesv4 rb))) = set (restore_tables (rulesv4 rb))"
  shows "BuildV4Restore order rb =
      concat (map (\<lambda>tab. table_block tab (restore_lines (BuildV4 rb) tab)) (order (restore_tables (rulesv4 rb)))) \<and>
    (\<forall>cmd \<in> set (BuildV4 rb). cmd ! 2 \<in> set (order (restore_tables (rulesv4 rb))))"
proof -
  let ?rules = "rulesv4 rb"
  have block: "(if 0 < length ls then ''* '' @ tab @ newline @ concat (map (\<lambda>r. r @ newline) ls) @ ''COMMIT'' @ newline
      else []) = table_block tab ls" for tab ls by (simp add: table_block_def)
  have "buildRestore order ?rules =
      concat (map (\<lambda>tab. table_block tab (tableRulesMap ?rules tab)) (order (restore_tables ?rules)))"
    unfolding buildRestore_def constructIptablesRestoreContents_def case_prod_unfold block by (simp add: o_def)
  moreover have "tableRulesMap ?rules = restore_lines (BuildV4 rb)"
    by (simp add: fun_eq_iff restore_lines_def BuildV4_def tableRulesMap_commands [of _ _ "''iptables''"])
  ultimately show ?thesis
    using command_tables [of _ "''iptables''" ?rules] assms by (simp add: BuildV4Restore_def BuildV4_def)
qed

theorem restore_file_is_the_commands_witness:
  "let rb = AppendRule UndefinedCommand ISTIOREDIRECT NAT [''-p'', ''tcp'', ''-j'', REDIRECT, ''--to-ports'', ''15001'']
       (NewIptablesBuilder None)
   in BuildV4Restore rev rb = table_block NAT [''-N ISTIO_REDIRECT'', ''-A ISTIO_REDIRECT -p tcp -j REDIRECT --to-ports 15001'']"
proof -
  let ?rb = "AppendRule UndefinedCommand ISTIOREDIRECT NAT [''-p'', ''tcp'', ''-j'', REDIRECT, ''--to-ports'', ''15001'']
       (NewIptablesBuilder None)"
  have "restore_lines (BuildV4 ?rb) NAT = [''-N ISTIO_REDIRECT'', ''-A ISTIO_REDIRECT -p tcp -j REDIRECT --to-ports 15001'']"
    "restore_lines (BuildV4 ?rb) FILTER = []" "restore_lines (BuildV4 ?rb) MANGLE = []"
    "restore_tables (rulesv4 ?rb) = [FILTER, MANGLE, NAT]"
    by (simp_all add: restore_lines_def restore_tables_def BuildV4_def buildRules_def AppendRule_def AppendRuleV4_def AppendRuleV6_def
        appendInternal_def NewIptablesBuilder_def log_params_def BuiltInChainsMap_def New_def Set_Contains_def zero_config_def
        ISTIOREDIRECT_def REDIRECT_def chain_names table_names)
  then show ?thesis
    using restore_file_is_the_commands [of rev ?rb, OF set_rev] by (simp add: table_block_Nil Let_def)
qed

end
