(* ===== verification/Iptables_Capture.thy ===== *)
theory Iptables_Capture
  imports Iptables_Builder Go_Net
begin

text \<open>
  Which rules redirect traffic to the proxy: \<open>iptables/pkg/capture/run.go\<close> with the helpers
  of \<open>util.go\<close> and \<open>format.go\<close>. The methods of the configurator only call the builder, so
  that each is modelled by the list of its calls, in order; \<open>perform\<close> makes them.
  The IPNet texts that the code prints into rules are an argument (\<open>cidr_String\<close>).
\<close>

section \<open>Calls of the builder\<close>

datatype bop =
    DoAppend command string string "string list"
  | DoAppendV4 command string string "string list"
  | DoAppendV6 command string string "string list"
  | DoAppendVersioned string string command string string "string list"
  | DoInsert command string string nat "string list"
  | DoInsertV4 command string string nat "string list"
  | DoInsertV6 command string string nat "string list"

fun perform1 :: "bop \<Rightarrow> builder \<Rightarrow> builder" where
  "perform1 (DoAppend c ch t ps) = AppendRule c ch t ps"
| "perform1 (DoAppendV4 c ch t ps) = AppendRuleV4 c ch t ps"
| "perform1 (DoAppendV6 c ch t ps) = AppendRuleV6 c ch t ps"
| "perform1 (DoAppendVersioned v4 v6 c ch t ps) = AppendVersionedRule v4 v6 c ch t ps"
| "perform1 (DoInsert c ch t n ps) = InsertRule c ch t n ps"
| "perform1 (DoInsertV4 c ch t n ps) = InsertRuleV4 c ch t n ps"
| "perform1 (DoInsertV6 c ch t n ps) = InsertRuleV6 c ch t n ps"

definition perform :: "bop list \<Rightarrow> builder \<Rightarrow> builder" where
  "perform ops rb = fold perform1 ops rb"

section \<open>Helpers\<close>

definition Flatten :: "string list list \<Rightarrow> string list" where
  "Flatten ls = concat ls"

definition CombineMatchers :: "string list \<Rightarrow> (string \<Rightarrow> string list) \<Rightarrow> string list" where
  "CombineMatchers vs matcher = Flatten (map matcher vs)"

definition FormatIptablesCommands :: "string list list \<Rightarrow> string list" where
  "FormatIptablesCommands commands = map (join_with '' '') commands"

record network_range =
  IsWildcard :: bool
  IPNets :: "ipnet list"
  HasLoopBackIP :: bool

definition no_range :: network_range where
  "no_range = \<lparr>IsWildcard = False, IPNets = [], HasLoopBackIP = False\<rparr>"

text \<open>
  \<open>separateV4V6\<close>: texts that are no network are reported on the standard error and skipped;
  the error result is a failure of that output, which the model leaves out.
\<close>

definition add_range :: "ip \<times> ipnet \<Rightarrow> network_range \<Rightarrow> network_range" where
  "add_range = (\<lambda>(a, n) r. r\<lparr>IPNets := IPNets r @ [n], HasLoopBackIP := HasLoopBackIP r \<or> IsLoopback a\<rparr>)"

fun separate_loop :: "string list \<Rightarrow> network_range \<times> network_range \<Rightarrow> network_range \<times> network_range" where
  "separate_loop [] rs = rs"
| "separate_loop (x # xs) (r4, r6) =
     (case ParseCIDR x of
        None \<Rightarrow> separate_loop xs (r4, r6)
      | Some (a, n) \<Rightarrow>
          if To4 a \<noteq> None then separate_loop xs (add_range (a, n) r4, r6)
          else separate_loop xs (r4, add_range (a, n) r6))"

definition separateV4V6 :: "string \<Rightarrow> network_range \<times> network_range" where
  "separateV4V6 cidrList =
     (if cidrList = ''*'' then (no_range\<lparr>IsWildcard := True\<rparr>, no_range\<lparr>IsWildcard := True\<rparr>)
      else separate_loop (Split cidrList) (no_range, no_range))"

definition SplitV4V6 :: "string list \<Rightarrow> string list \<times> string list" where
  "SplitV4V6 addrs =
     (let is4 = (\<lambda>i. case ParseIP i of Some a \<Rightarrow> To4 a \<noteq> None | None \<Rightarrow> False)
      in (filter is4 addrs, filter (\<lambda>i. \<not> is4 i) addrs))"

section \<open>The parts of the rule set\<close>

definition handleInboundPortsInclude :: "ipt_config \<Rightarrow> bop list" where
  "handleInboundPortsInclude c =
     (if InboundPortsInclude c = [] then []
      else
        let tproxy = (InboundInterceptionMode c = TPROXY);
            tab = (if tproxy then MANGLE else NAT)
        in (if tproxy then
              [DoAppend UndefinedCommand ISTIODIVERT MANGLE [''-j'', MARK, ''--set-mark'', InboundTProxyMark c],
               DoAppend UndefinedCommand ISTIODIVERT MANGLE [''-j'', ACCEPT],
               DoAppendVersioned ''127.0.0.1/32'' ''::1/128'' UndefinedCommand ISTIOTPROXY MANGLE
                 [''!'', ''-d'', IPVersionSpecific, ''-p'', ''tcp'', ''-j'', TPROXY, ''--tproxy-mark'',
                  InboundTProxyMark c @ ''/0xffffffff'', ''--on-port'', InboundCapturePort c]]
            else []) @
           [DoAppend JumpInbound PREROUTING tab [''-p'', ''tcp'', ''-j'', ISTIOINBOUND]] @
           (if InboundPortsInclude c = ''*'' then
              (if InboundPortsExclude c \<noteq> [] then
                 map (\<lambda>port. DoAppend ExcludeInboundPort ISTIOINBOUND tab
                   [''-p'', ''tcp'', ''--dport'', port, ''-j'', RETURN]) (Split (InboundPortsExclude c))
               else []) @
              (if tproxy then
                 [DoAppend UndefinedCommand ISTIOINBOUND MANGLE
                    [''-p'', ''tcp'', ''-m'', ''conntrack'', ''--ctstate'', ''RELATED,ESTABLISHED'', ''-j'', ISTIODIVERT],
                  DoAppend UndefinedCommand ISTIOINBOUND MANGLE [''-p'', ''tcp'', ''-j'', ISTIOTPROXY]]
               else [DoAppend UndefinedCommand ISTIOINBOUND NAT [''-p'', ''tcp'', ''-j'', ISTIOINREDIRECT]])
            else
              concat (map (\<lambda>port.
                if tproxy then
                  [DoAppend IncludeInboundPort ISTIOINBOUND MANGLE
                     [''-p'', ''tcp'', ''--dport'', port, ''-m'', ''conntrack'', ''--ctstate'', ''RELATED,ESTABLISHED'',
                      ''-j'', ISTIODIVERT],
                   DoAppend IncludeInboundPort ISTIOINBOUND MANGLE
                     [''-p'', ''tcp'', ''--dport'', port, ''-j'', ISTIOTPROXY]]
                else [DoAppend IncludeInboundPort ISTIOINBOUND NAT
                     [''-p'', ''tcp'', ''--dport'', port, ''-j'', ISTIOINREDIRECT]])
                (Split (InboundPortsInclude c)))))"

text \<open>The two function arguments of the source are the append and the insert of one IP version.\<close>

definition handleOutboundIncludeRules ::
  "(ipnet \<Rightarrow> string) \<Rightarrow> ipt_config \<Rightarrow> network_range
     \<Rightarrow> (command \<Rightarrow> string \<Rightarrow> string \<Rightarrow> string list \<Rightarrow> bop)
     \<Rightarrow> (command \<Rightarrow> string \<Rightarrow> string \<Rightarrow> nat \<Rightarrow> string list \<Rightarrow> bop) \<Rightarrow> bop list" where
  "handleOutboundIncludeRules cidr_String c rng appendRule insertR =
     (if IsWildcard rng then
        [appendRule UndefinedCommand ISTIOOUTPUT NAT [''-j'', ISTIOREDIRECT]] @
        map (\<lambda>i. insertR KubevirtCommand PREROUTING NAT 1 [''-i'', i, ''-j'', ISTIOREDIRECT]) (Split (KubeVirtInterfaces c))
      else if IPNets rng \<noteq> [] then
        concat (map (\<lambda>n.
          map (\<lambda>i. insertR KubevirtCommand PREROUTING NAT 1
            [''-i'', i, ''-d'', cidr_String n, ''-j'', ISTIOREDIRECT]) (Split (KubeVirtInterfaces c)) @
          [appendRule UndefinedCommand ISTIOOUTPUT NAT [''-d'', cidr_String n, ''-j'', ISTIOREDIRECT]]) (IPNets rng)) @
        [appendRule UndefinedCommand ISTIOOUTPUT NAT [''-j'', RETURN]]
      else [])"

definition shortCircuitKubeInternalInterface :: "ipt_config \<Rightarrow> bop list" where
  "shortCircuitKubeInternalInterface c =
     map (\<lambda>i. DoInsert KubevirtCommand PREROUTING NAT 1 [''-i'', i, ''-j'', RETURN]) (Split (KubeVirtInterfaces c))"

definition exclude_interface :: "string \<Rightarrow> string \<Rightarrow> bop list" where
  "exclude_interface tab i =
     [DoAppend ExcludeInterfaceCommand PREROUTING tab [''-i'', i, ''-j'', RETURN],
      DoAppend ExcludeInterfaceCommand OUTPUT tab [''-o'', i, ''-j'', RETURN]]"

definition shortCircuitExcludeInterfaces :: "ipt_config \<Rightarrow> bop list" where
  "shortCircuitExcludeInterfaces c =
     concat (map (exclude_interface NAT) (Split (ExcludeInterfaces c))) @
     (if InboundInterceptionMode c = TPROXY
      then concat (map (exclude_interface MANGLE) (Split (ExcludeInterfaces c))) else [])"

definition handleOutboundPortsInclude :: "ipt_config \<Rightarrow> bop list" where
  "handleOutboundPortsInclude c =
     (if OutboundPortsInclude c \<noteq> [] then
        map (\<lambda>port. DoAppend UndefinedCommand ISTIOOUTPUT NAT
          [''-p'', ''tcp'', ''--dport'', port, ''-j'', ISTIOREDIRECT]) (Split (OutboundPortsInclude c))
      else [])"

definition not_group :: "string \<Rightarrow> string list" where
  "not_group g = [''-m'', ''owner'', ''!'', ''--gid-owner'', g]"

definition handleCaptureByOwnerGroup :: "intercept_filter \<Rightarrow> bop list" where
  "handleCaptureByOwnerGroup f =
     (if Except f then
        map (\<lambda>g. DoAppend UndefinedCommand ISTIOOUTPUT NAT
          [''-m'', ''owner'', ''--gid-owner'', g, ''-j'', RETURN]) (Values f)
      else [DoAppend UndefinedCommand ISTIOOUTPUT NAT
          (CombineMatchers (Values f) not_group @ [''-j'', RETURN])])"

text \<open>The rules for one user id and for one group id of the proxy.\<close>

definition proxy_uid_rules :: "bool \<Rightarrow> bool \<Rightarrow> string \<Rightarrow> bop list" where
  "proxy_uid_rules dns loopback uid =
     [DoAppendVersioned ''127.0.0.1/32'' ''::1/128'' UndefinedCommand ISTIOOUTPUT NAT
        ([''-o'', ''lo'', ''!'', ''-d'', IPVersionSpecific] @
         (if dns then [''-p'', ''tcp'', ''!'', ''--dport'', ''53''] else []) @
         [''-m'', ''owner'', ''--uid-owner'', uid, ''-j'', ISTIOINREDIRECT])] @
     (if \<not> loopback then
        [DoAppend UndefinedCommand ISTIOOUTPUT NAT
          ([''-o'', ''lo''] @ (if dns then [''-p'', ''tcp'', ''!'', ''--dport'', ''53''] else []) @
           [''-m'', ''owner'', ''!'', ''--uid-owner'', uid, ''-j'', RETURN])]
      else []) @
     [DoAppend UndefinedCommand ISTIOOUTPUT NAT [''-m'', ''owner'', ''--uid-owner'', uid, ''-j'', RETURN]]"

definition proxy_gid_rules :: "bool \<Rightarrow> bool \<Rightarrow> string \<Rightarrow> bop list" where
  "proxy_gid_rules dns loopback gid =
     [DoAppendVersioned ''127.0.0.1/32'' ''::1/128'' UndefinedCommand ISTIOOUTPUT NAT
        [''-o'', ''lo'', ''!'', ''-d'', IPVersionSpecific, ''-m'', ''owner'', ''--gid-owner'', gid,
         ''-j'', ISTIOINREDIRECT]] @
     (if \<not> loopback then
        [DoAppend UndefinedCommand ISTIOOUTPUT NAT
          ([''-o'', ''lo''] @ (if dns then [''-p'', ''tcp'', ''!'', ''--dport'', ''53''] else []) @
           [''-m'', ''owner'', ''!'', ''--gid-owner'', gid, ''-j'', RETURN])]
      else []) @
     [DoAppend UndefinedCommand ISTIOOUTPUT NAT [''-m'', ''owner'', ''--gid-owner'', gid, ''-j'', RETURN]]"

definition dns_tcp_rules :: "ipt_config \<Rightarrow> bop list" where
  "dns_tcp_rules c =
     (if CaptureAllDNS c then
        [DoAppend UndefinedCommand ISTIOOUTPUT NAT
          [''-p'', ''tcp'', ''--dport'', ''53'', ''-j'', REDIRECT, ''--to-ports'', IstioAgentDNSListenerPort]]
      else
        map (\<lambda>s. DoAppendV4 UndefinedCommand ISTIOOUTPUT NAT
          [''-p'', ''tcp'', ''--dport'', ''53'', ''-d'', s @ ''/32'', ''-j'', REDIRECT, ''--to-ports'',
           IstioAgentDNSListenerPort]) (DNSServersV4 c) @
        map (\<lambda>s. DoAppendV6 UndefinedCommand ISTIOOUTPUT NAT
          [''-p'', ''tcp'', ''--dport'', ''53'', ''-d'', s @ ''/128'', ''-j'', REDIRECT, ''--to-ports'',
           IstioAgentDNSListenerPort]) (DNSServersV6 c))"

section \<open>DNS over UDP\<close>

text \<open>
  \<open>UDPRuleApplier\<close>: the same code appends the rules to the builder or deletes them with a
  command. An effect is a call of the builder or a command that is run.
\<close>

datatype Ops = AppendOps | DeleteOps

datatype udp_effect = Build bop | RunQuietly "string list"

record udp_applier =
  f_ops :: Ops
  f_table :: string
  f_chain :: string
  f_cmd :: string

definition delete_command :: "udp_applier \<Rightarrow> string list \<Rightarrow> udp_effect" where
  "delete_command f args = RunQuietly ([f_cmd f, ''-t'', f_table f, ''-D'', f_chain f] @ args)"

definition RunV4 :: "udp_applier \<Rightarrow> string list \<Rightarrow> udp_effect list" where
  "RunV4 f args =
     (case f_ops f of
        AppendOps \<Rightarrow> [Build (DoAppendV4 UndefinedCommand (f_chain f) (f_table f) args)]
      | DeleteOps \<Rightarrow> [delete_command f args])"

definition RunV6 :: "udp_applier \<Rightarrow> string list \<Rightarrow> udp_effect list" where
  "RunV6 f args =
     (case f_ops f of
        AppendOps \<Rightarrow> [Build (DoAppendV6 UndefinedCommand (f_chain f) (f_table f) args)]
      | DeleteOps \<Rightarrow> [delete_command f args])"

definition udp_Run :: "udp_applier \<Rightarrow> string list \<Rightarrow> udp_effect list" where
  "udp_Run f args = RunV4 f args @ RunV6 f args"

definition WithChain :: "string \<Rightarrow> udp_applier \<Rightarrow> udp_applier" where
  "WithChain chain f = f\<lparr>f_chain := chain\<rparr>"

definition WithTable :: "string \<Rightarrow> udp_applier \<Rightarrow> udp_applier" where
  "WithTable tab f = f\<lparr>f_table := tab\<rparr>"

definition dport53 :: "string list" where "dport53 = [''-p'', ''udp'', ''--dport'', ''53'']"
definition zone :: "string \<Rightarrow> string list" where "zone z = [''-j'', CT, ''--zone'', z]"

definition owner_zones :: "udp_applier \<Rightarrow> string \<Rightarrow> string \<Rightarrow> udp_effect list" where
  "owner_zones f opt ident =
     udp_Run f (dport53 @ [''-m'', ''owner'', opt, ident] @ zone ''1'') @
     udp_Run f ([''-p'', ''udp'', ''--sport'', ''15053'', ''-m'', ''owner'', opt, ident] @ zone ''2'')"

definition addConntrackZoneDNSUDP ::
  "udp_applier \<Rightarrow> string \<Rightarrow> string \<Rightarrow> string list \<Rightarrow> string list \<Rightarrow> bool \<Rightarrow> udp_effect list" where
  "addConntrackZoneDNSUDP f uids gids dns4 dns6 captureAll =
     concat (map (owner_zones f ''--uid-owner'') (Split uids)) @
     concat (map (owner_zones f ''--gid-owner'') (Split gids)) @
     (if captureAll then
        udp_Run f (dport53 @ zone ''2'') @
        udp_Run (WithChain PREROUTING f) ([''-p'', ''udp'', ''--sport'', ''53''] @ zone ''1'')
      else
        concat (map (\<lambda>s. RunV4 f (dport53 @ [''-d'', s @ ''/32''] @ zone ''2'') @
          RunV4 (WithChain PREROUTING f) ([''-p'', ''udp'', ''--sport'', ''53'', ''-d'', s @ ''/32''] @ zone ''1'')) dns4) @
        concat (map (\<lambda>s. RunV6 f (dport53 @ [''-d'', s @ ''/128''] @ zone ''2'') @
          RunV6 (WithChain PREROUTING f) ([''-p'', ''udp'', ''--sport'', ''53'', ''-d'', s @ ''/128''] @ zone ''1'')) dns6))"

definition to_dns :: "string list" where
  "to_dns = [''-j'', REDIRECT, ''--to-port'', IstioAgentDNSListenerPort]"

definition HandleDNSUDP ::
  "Ops \<Rightarrow> string \<Rightarrow> string \<Rightarrow> string \<Rightarrow> string list \<Rightarrow> string list \<Rightarrow> bool \<Rightarrow> intercept_filter \<Rightarrow> udp_effect list" where
  "HandleDNSUDP ops cmd uids gids dns4 dns6 captureAll groups =
     (let f = \<lparr>f_ops = ops, f_table = NAT, f_chain = OUTPUT, f_cmd = cmd\<rparr> in
      concat (map (\<lambda>uid. udp_Run f (dport53 @ [''-m'', ''owner'', ''--uid-owner'', uid, ''-j'', RETURN])) (Split uids)) @
      concat (map (\<lambda>gid. udp_Run f (dport53 @ [''-m'', ''owner'', ''--gid-owner'', gid, ''-j'', RETURN])) (Split gids)) @
      (if Except groups then
         concat (map (\<lambda>g. udp_Run f (dport53 @ [''-m'', ''owner'', ''--gid-owner'', g, ''-j'', RETURN])) (Values groups))
       else udp_Run f (Flatten [dport53, CombineMatchers (Values groups) not_group, [''-j'', RETURN]])) @
      (if captureAll then udp_Run f (dport53 @ to_dns)
       else
         concat (map (\<lambda>s. RunV4 f (dport53 @ [''-d'', s @ ''/32''] @ to_dns)) dns4) @
         concat (map (\<lambda>s. RunV6 f (dport53 @ [''-d'', s @ ''/128''] @ to_dns)) dns6)) @
      addConntrackZoneDNSUDP (WithTable RAW f) uids gids dns4 dns6 captureAll)"

fun built :: "udp_effect \<Rightarrow> bop list" where
  "built (Build b) = [b]"
| "built (RunQuietly _) = []"

section \<open>The whole rule set\<close>

definition tproxy_rules :: "ipt_config \<Rightarrow> bop list" where
  "tproxy_rules c =
     (let mark = InboundTProxyMark c;
          owned = (\<lambda>opt ident. DoAppendVersioned ''127.0.0.1/32'' ''::1/128'' UndefinedCommand OUTPUT MANGLE
            [''!'', ''-d'', IPVersionSpecific, ''-p'', ''tcp'', ''-o'', ''lo'', ''-m'', ''owner'', opt, ident,
             ''-j'', MARK, ''--set-mark'', ''1338''])
      in [DoAppend UndefinedCommand PREROUTING MANGLE
            [''-p'', ''tcp'', ''-m'', ''mark'', ''--mark'', mark, ''-j'', CONNMARK, ''--save-mark''],
          DoAppend UndefinedCommand OUTPUT MANGLE
            [''-p'', ''tcp'', ''-o'', ''lo'', ''-m'', ''mark'', ''--mark'', mark, ''-j'', RETURN]] @
         map (owned ''--uid-owner'') (Split (ProxyUID c)) @
         map (owned ''--gid-owner'') (Split (ProxyGID c)) @
         [DoAppend UndefinedCommand OUTPUT MANGLE
            [''-p'', ''tcp'', ''-m'', ''connmark'', ''--mark'', mark, ''-j'', CONNMARK, ''--restore-mark''],
          DoInsert UndefinedCommand ISTIOINBOUND MANGLE 1
            [''-p'', ''tcp'', ''-m'', ''mark'', ''--mark'', mark, ''-j'', RETURN],
          DoInsertV4 UndefinedCommand ISTIOINBOUND MANGLE 2
            [''-p'', ''tcp'', ''-s'', ''127.0.0.6/32'', ''-i'', ''lo'', ''-j'', RETURN],
          DoInsertV6 UndefinedCommand ISTIOINBOUND MANGLE 2
            [''-p'', ''tcp'', ''-s'', ''::6/128'', ''-i'', ''lo'', ''-j'', RETURN],
          DoInsert UndefinedCommand ISTIOINBOUND MANGLE 3
            [''-p'', ''tcp'', ''-i'', ''lo'', ''-m'', ''mark'', ''!'', ''--mark'', ''1338'', ''-j'', RETURN]])"

text \<open>The calls of \<open>Run\<close> before the commands are executed, for the four address ranges.\<close>

definition output_ops ::
  "(ipnet \<Rightarrow> string) \<Rightarrow> ipt_config \<Rightarrow> network_range \<times> network_range \<Rightarrow> network_range \<times> network_range \<Rightarrow> bop list" where
  "output_ops cidr_String c = (\<lambda>(exc4, exc6) (inc4, inc6).
     (if OutboundPortsExclude c \<noteq> [] then
        map (\<lambda>port. DoAppend UndefinedCommand ISTIOOUTPUT NAT
          [''-p'', ''tcp'', ''--dport'', port, ''-j'', RETURN]) (Split (OutboundPortsExclude c))
      else []) @
     [DoAppendVersioned ''127.0.0.6/32'' ''::6/128'' UndefinedCommand ISTIOOUTPUT NAT
        [''-o'', ''lo'', ''-s'', IPVersionSpecific, ''-j'', RETURN]] @
     concat (map (proxy_uid_rules (RedirectDNS c) (HasLoopBackIP inc4 \<or> HasLoopBackIP inc6)) (Split (ProxyUID c))) @
     concat (map (proxy_gid_rules (RedirectDNS c) (HasLoopBackIP inc4 \<or> HasLoopBackIP inc6)) (Split (ProxyGID c))) @
     handleCaptureByOwnerGroup (ParseInterceptFilter (OwnerGroupsInclude c) (OwnerGroupsExclude c)) @
     (if RedirectDNS c then dns_tcp_rules c else []) @
     [DoAppendVersioned ''127.0.0.1/32'' ''::1/128'' UndefinedCommand ISTIOOUTPUT NAT
        [''-d'', IPVersionSpecific, ''-j'', RETURN]] @
     map (\<lambda>n. DoAppendV4 UndefinedCommand ISTIOOUTPUT NAT [''-d'', cidr_String n, ''-j'', RETURN]) (IPNets exc4) @
     map (\<lambda>n. DoAppendV6 UndefinedCommand ISTIOOUTPUT NAT [''-d'', cidr_String n, ''-j'', RETURN]) (IPNets exc6) @
     handleOutboundPortsInclude c @
     handleOutboundIncludeRules cidr_String c inc4 DoAppendV4 DoInsertV4 @
     handleOutboundIncludeRules cidr_String c inc6 DoAppendV6 DoInsertV6)"

definition run_ops ::
  "(ipnet \<Rightarrow> string) \<Rightarrow> ipt_config \<Rightarrow> network_range \<times> network_range \<Rightarrow> network_range \<times> network_range \<Rightarrow> bop list" where
  "run_ops cidr_String c exc inc =
     shortCircuitExcludeInterfaces c @
     shortCircuitKubeInternalInterface c @
     (if DropInvalid c then
        [DoAppend UndefinedCommand PREROUTING MANGLE
          [''-m'', ''conntrack'', ''--ctstate'', ''INVALID'', ''-j'', DROP]]
      else []) @
     [DoAppend UndefinedCommand ISTIOINBOUND NAT [''-p'', ''tcp'', ''--dport'', InboundTunnelPort c, ''-j'', RETURN],
      DoAppend UndefinedCommand ISTIOREDIRECT NAT [''-p'', ''tcp'', ''-j'', REDIRECT, ''--to-ports'', ProxyPort c],
      DoAppend InboundCapture ISTIOINREDIRECT NAT
        [''-p'', ''tcp'', ''-j'', REDIRECT, ''--to-ports'', InboundCapturePort c]] @
     handleInboundPortsInclude c @
     [DoAppend JumpOutbound OUTPUT NAT [''-p'', ''tcp'', ''-j'', ISTIOOUTPUT]] @
     output_ops cidr_String c exc inc @
     (if RedirectDNS c then
        concat (map built (HandleDNSUDP AppendOps [] (ProxyUID c) (ProxyGID c) (DNSServersV4 c) (DNSServersV6 c)
          (CaptureAllDNS c) (ParseInterceptFilter (OwnerGroupsInclude c) (OwnerGroupsExclude c))))
      else []) @
     (if InboundInterceptionMode c = TPROXY then tproxy_rules c else [])"

text \<open>\<open>Run\<close>: \<open>None\<close> is the panic on a wildcard exclusion; otherwise the builder it executes.\<close>

definition ipt_Run :: "(ipnet \<Rightarrow> string) \<Rightarrow> ipt_config \<Rightarrow> builder option" where
  "ipt_Run cidr_String c =
     (let exc = separateV4V6 (OutboundIPRangesExclude c); inc = separateV4V6 (OutboundIPRangesInclude c) in
      if IsWildcard (fst exc) then None
      else Some (perform (run_ops cidr_String c exc inc) (NewIptablesBuilder (Some c))))"

section \<open>Execution\<close>

text \<open>
  What is executed: a command, or \<open>iptables-restore\<close> (\<open>ip6tables-restore\<close>) on a file of which
  only the contents matter. The state is the file at \<open>OutputPath\<close>, \<open>None\<close> while it does not
  exist; it is opened without truncation, so that what is behind the new contents stays.
  Failures to open or write a file end the program.
\<close>

datatype executed = RunOrFail "string list" | Restored string string

definition write_over :: "string \<Rightarrow> string \<Rightarrow> string" where
  "write_over old contents = contents @ drop (length contents) old"

definition executeIptablesRestoreCommand ::
  "(string list \<Rightarrow> string list) \<Rightarrow> ipt_config \<Rightarrow> builder \<Rightarrow> bool \<Rightarrow> string option \<Rightarrow> executed \<times> string option" where
  "executeIptablesRestoreCommand order c rb isIpv4 out =
     (let contents = (if isIpv4 then BuildV4Restore order rb else BuildV6Restore order rb);
          cmd = (if isIpv4 then ''iptables-restore'' else ''ip6tables-restore'') in
      if OutputPath c \<noteq> [] then
        let written = write_over (case out of None \<Rightarrow> [] | Some old \<Rightarrow> old) contents
        in (Restored cmd written, Some written)
      else (Restored cmd contents, out))"

definition executeIptablesCommands :: "string list list \<Rightarrow> executed list" where
  "executeIptablesCommands commands = map RunOrFail commands"

definition executeCommands ::
  "(string list \<Rightarrow> string list) \<Rightarrow> ipt_config \<Rightarrow> builder \<Rightarrow> string option \<Rightarrow> executed list \<times> string option" where
  "executeCommands order c rb out =
     (if RestoreFormat c then
        let (r4, out4) = executeIptablesRestoreCommand order c rb True out;
            (r6, out6) = executeIptablesRestoreCommand order c rb False out4
        in ([r4, r6], out6)
      else (executeIptablesCommands (BuildV4 rb) @ executeIptablesCommands (BuildV6 rb), out))"

end
