(* ===== verification/Packet_Filter.thy ===== *)
theory Packet_Filter
  imports Iptables_Capture
begin

text \<open>
  What the rules mean, and what the generated rule set does to packets. The kernel keeps a
  list of rules per chain; a packet walks a chain rule by rule, a jump to a user chain comes
  back after \<open>RETURN\<close> or the end of that chain, and a target like \<open>REDIRECT\<close> decides. Which
  packets a single option matches (\<open>prim\<close>) is not fixed: an option is a word and its value.
\<close>

section \<open>Chains\<close>

type_synonym chains = "string \<times> string \<Rightarrow> string list list"

definition insert_at :: "nat \<Rightarrow> 'a \<Rightarrow> 'a list \<Rightarrow> 'a list" where
  "insert_at n x xs = take n xs @ [x] @ drop n xs"

definition add_rule :: "rule \<Rightarrow> chains \<Rightarrow> chains" where
  "add_rule r k =
     (case r_params r of
        a # ch # rest \<Rightarrow>
          if a = ''-A'' then k((r_table r, ch) := k (r_table r, ch) @ [rest])
          else if a = ''-I'' then
            (case rest of
               pos # body \<Rightarrow>
                 (case Atoi pos of
                    Some n \<Rightarrow> k((r_table r, ch) := insert_at (nat n - 1) body (k (r_table r, ch)))
                  | None \<Rightarrow> k)
             | [] \<Rightarrow> k)
          else k
      | _ \<Rightarrow> k)"

definition kernel :: "rule list \<Rightarrow> chains" where
  "kernel rs = fold add_rule rs (\<lambda>_. [])"

section \<open>Packets\<close>

text \<open>
  The words of a rule: conditions, each with the value it must have, up to \<open>-j\<close>; then the
  target with its options. \<open>-m\<close> only loads a module.
\<close>

fun clauses :: "string list \<Rightarrow> (bool \<times> string \<times> string) list \<times> string list" where
  "clauses [] = ([], [])"
| "clauses [a] = ([], [])"
| "clauses (a # b # rest) =
     (if a = ''-j'' then ([], b # rest)
      else if a = ''-m'' then clauses rest
      else if a = ''!'' then
        (case rest of [] \<Rightarrow> ([], []) | v # rest' \<Rightarrow> (case clauses rest' of (cs, t) \<Rightarrow> ((False, b, v) # cs, t)))
      else (case clauses rest of (cs, t) \<Rightarrow> ((True, a, b) # cs, t)))"

definition holds :: "(string \<Rightarrow> string \<Rightarrow> 'p \<Rightarrow> bool) \<Rightarrow> 'p \<Rightarrow> string list \<Rightarrow> bool" where
  "holds prim p body \<longleftrightarrow> list_all (\<lambda>(want, key, v). prim key v p = want) (fst (clauses body))"

datatype verdict = Passed | Decided string "string list" | TooDeep

definition passing :: "string list" where "passing = [NFLOG, MARK, CONNMARK, CT]"
definition deciding :: "string list" where "deciding = [ACCEPT, DROP, REDIRECT, TPROXY]"

fun walk :: "(string \<Rightarrow> string \<Rightarrow> 'p \<Rightarrow> bool) \<Rightarrow> chains \<Rightarrow> string \<Rightarrow> 'p \<Rightarrow> nat \<Rightarrow> string list list \<Rightarrow> verdict" where
  "walk prim k tab p d [] = Passed"
| "walk prim k tab p d (b # bs) =
     (if \<not> holds prim p b then walk prim k tab p d bs
      else (case snd (clauses b) of
              [] \<Rightarrow> walk prim k tab p d bs
            | t # opts \<Rightarrow>
                if t = RETURN then Passed
                else if t \<in> set passing then walk prim k tab p d bs
                else if t \<in> set deciding then Decided t opts
                else (case d of
                        0 \<Rightarrow> TooDeep
                      | Suc d' \<Rightarrow>
                          (case walk prim k tab p d' (k (tab, t)) of
                             Passed \<Rightarrow> walk prim k tab p d bs
                           | v \<Rightarrow> v))))"

text \<open>
  Rules without effect: no match, a target that goes on, a return, a jump to a chain that the
  packet passes.
\<close>

definition skipped :: "(string \<Rightarrow> string \<Rightarrow> 'p \<Rightarrow> bool) \<Rightarrow> 'p \<Rightarrow> string list \<Rightarrow> bool" where
  "skipped prim p b \<longleftrightarrow>
     \<not> holds prim p b \<or> snd (clauses b) = [] \<or> (\<exists>t opts. snd (clauses b) = t # opts \<and> t \<in> set passing)"

definition returns :: "string list \<Rightarrow> bool" where
  "returns b \<longleftrightarrow> (\<exists>opts. snd (clauses b) = RETURN # opts)"

definition harmless ::
  "(string \<Rightarrow> string \<Rightarrow> 'p \<Rightarrow> bool) \<Rightarrow> chains \<Rightarrow> string \<Rightarrow> 'p \<Rightarrow> nat \<Rightarrow> string list \<Rightarrow> bool" where
  "harmless prim k tab p d b \<longleftrightarrow>
     skipped prim p b \<or> returns b \<or>
     (\<exists>t opts d'. snd (clauses b) = t # opts \<and> t \<notin> set deciding \<and> d = Suc d' \<and> walk prim k tab p d' (k (tab, t)) = Passed)"

lemma harmlessI:
  "\<not> holds prim p b \<Longrightarrow> harmless prim k tab p d b"
  "skipped prim p b \<Longrightarrow> harmless prim k tab p d b"
  "returns b \<Longrightarrow> harmless prim k tab p d b"
  by (simp_all add: harmless_def skipped_def)

lemma passing_not_return: "RETURN \<notin> set passing" by (simp add: passing_def)

lemma walk_skip:
  "list_all (skipped prim p) bs \<Longrightarrow> walk prim k tab p d (bs @ rest) = walk prim k tab p d rest"
  by (induction bs) (auto simp: skipped_def passing_not_return)

lemma walk_harmless:
  assumes "list_all (harmless prim k tab p d) bs"
  shows "walk prim k tab p d (bs @ rest) = Passed \<or> walk prim k tab p d (bs @ rest) = walk prim k tab p d rest"
  using assms by (induction bs) (auto simp: harmless_def skipped_def returns_def passing_not_return split: if_splits)

lemma walk_all_harmless: "list_all (harmless prim k tab p d) bs \<Longrightarrow> walk prim k tab p d bs = Passed"
  using walk_harmless [of prim k tab p d bs "[]"] by auto

text \<open>A list of rules that a packet leaves with a \<open>RETURN\<close>.\<close>

fun leaves :: "(string \<Rightarrow> string \<Rightarrow> 'p \<Rightarrow> bool) \<Rightarrow> chains \<Rightarrow> string \<Rightarrow> 'p \<Rightarrow> nat \<Rightarrow> string list list \<Rightarrow> bool" where
  "leaves prim k tab p d [] \<longleftrightarrow> False"
| "leaves prim k tab p d (b # bs) \<longleftrightarrow>
     holds prim p b \<and> returns b \<or> harmless prim k tab p d b \<and> leaves prim k tab p d bs"

lemma leaves_append:
  "leaves prim k tab p d xs \<Longrightarrow> leaves prim k tab p d (xs @ ys)"
  "list_all (harmless prim k tab p d) xs \<Longrightarrow> leaves prim k tab p d ys \<Longrightarrow> leaves prim k tab p d (xs @ ys)"
  by (induction xs) auto

lemma leaves_concat:
  assumes "x \<in> set xs" "leaves prim k tab p d (f x)" "\<And>x. list_all (harmless prim k tab p d) (f x)"
  shows "leaves prim k tab p d (concat (map f xs))"
  using assms by (induction xs) (auto intro: leaves_append)

lemma leaves_member:
  assumes "b \<in> set bs" "holds prim p b" "returns b" "list_all (harmless prim k tab p d) bs"
  shows "leaves prim k tab p d bs"
  using assms by (induction bs) auto

lemma walk_leaves: "leaves prim k tab p d bs \<Longrightarrow> walk prim k tab p d bs = Passed"
proof (induction bs)
  case (Cons b bs)
  then show ?case using walk_harmless [of prim k tab p d "[b]" bs]
    by (auto simp: returns_def)
qed simp

section \<open>The chains of a rule set\<close>

text \<open>The rules that one call of the builder adds for one IP version.\<close>

definition logged :: "ipt_config \<Rightarrow> command \<Rightarrow> string list \<Rightarrow> string list list" where
  "logged conf c ps = (case log_params conf c ps of Some m \<Rightarrow> [m] | None \<Rightarrow> [])"

fun op_bodies :: "bool \<Rightarrow> ipt_config \<Rightarrow> string \<times> string \<Rightarrow> bop \<Rightarrow> string list list" where
  "op_bodies v4 conf key (DoAppend c ch t ps) =
     (if (t, ch) = key \<and> (v4 \<or> EnableInboundIPv6 conf) then logged conf c ps @ [ps] else [])"
| "op_bodies v4 conf key (DoAppendV4 c ch t ps) = (if (t, ch) = key \<and> v4 then logged conf c ps @ [ps] else [])"
| "op_bodies v4 conf key (DoAppendV6 c ch t ps) =
     (if (t, ch) = key \<and> \<not> v4 \<and> EnableInboundIPv6 conf then logged conf c ps @ [ps] else [])"
| "op_bodies v4 conf key (DoAppendVersioned a4 a6 c ch t ps) =
     (if (t, ch) = key \<and> (v4 \<or> EnableInboundIPv6 conf)
      then let qs = replaceVersionSpecific (if v4 then a4 else a6) ps in logged conf c qs @ [qs] else [])"
| "op_bodies v4 conf key _ = []"

fun op_inserts :: "string \<times> string \<Rightarrow> bop \<Rightarrow> bool" where
  "op_inserts key (DoInsert c ch t n ps) \<longleftrightarrow> (t, ch) = key"
| "op_inserts key (DoInsertV4 c ch t n ps) \<longleftrightarrow> (t, ch) = key"
| "op_inserts key (DoInsertV6 c ch t n ps) \<longleftrightarrow> (t, ch) = key"
| "op_inserts key _ \<longleftrightarrow> False"

definition rules_of :: "bool \<Rightarrow> builder \<Rightarrow> rule list" where
  "rules_of v4 rb = (if v4 then rulesv4 rb else rulesv6 rb)"

definition op_rules :: "bool \<Rightarrow> ipt_config \<Rightarrow> bop \<Rightarrow> rule list" where
  "op_rules v4 conf b = rules_of v4 (perform1 b \<lparr>rulesv4 = [], rulesv6 = [], b_cfg = conf\<rparr>)"

lemmas builder_ops = AppendRule_def AppendRuleV4_def AppendRuleV6_def AppendVersionedRule_def
  InsertRule_def InsertRuleV4_def InsertRuleV6_def appendInternal_def insertInternal_def Let_def

lemma b_cfg_perform1 [simp]: "b_cfg (perform1 b rb) = b_cfg rb"
  by (cases b) (simp_all add: builder_ops)

lemma rules_of_perform1: "rules_of v4 (perform1 b rb) = rules_of v4 rb @ op_rules v4 (b_cfg rb) b"
  by (cases b) (simp_all add: op_rules_def rules_of_def builder_ops)

lemma rules_of_perform:
  "rules_of v4 (perform ops rb) = rules_of v4 rb @ concat (map (op_rules v4 (b_cfg rb)) ops)"
  unfolding perform_def by (induction ops arbitrary: rb) (simp_all add: rules_of_perform1)

lemma kernel_append: "fold add_rule (rs @ rs') k = fold add_rule rs' (fold add_rule rs k)"
  by simp

lemma op_rules_chain:
  assumes "\<not> op_inserts key b"
  shows "fold add_rule (op_rules v4 conf b) k key = k key @ op_bodies v4 conf key b"
  using assms
  by (cases b; cases key)
    (auto simp: op_rules_def rules_of_def builder_ops logged_def add_rule_def split: option.split list.split)

lemma fold_chain:
  assumes "list_all (\<lambda>b. \<not> op_inserts key b) ops"
  shows "fold add_rule (concat (map (op_rules v4 conf) ops)) k key = k key @ concat (map (op_bodies v4 conf key) ops)"
  using assms by (induction ops arbitrary: k) (simp_all add: op_rules_chain)

lemma kernel_chain:
  assumes "list_all (\<lambda>b. \<not> op_inserts key b) ops"
  shows "kernel (concat (map (op_rules v4 conf) ops)) key = concat (map (op_bodies v4 conf key) ops)"
  using fold_chain [OF assms] by (simp add: kernel_def)

section \<open>The rule set of a configuration\<close>

definition chain_part :: "bool \<Rightarrow> ipt_config \<Rightarrow> string \<times> string \<Rightarrow> bop list \<Rightarrow> string list list" where
  "chain_part v4 conf key ops = concat (map (op_bodies v4 conf key) ops)"

lemma part_simps [simp]:
  "chain_part v4 conf key [] = []"
  "chain_part v4 conf key (b # ops) = op_bodies v4 conf key b @ chain_part v4 conf key ops"
  "chain_part v4 conf key (ops @ ops') = chain_part v4 conf key ops @ chain_part v4 conf key ops'"
  by (simp_all add: chain_part_def)

lemma part_empty: "list_all (\<lambda>b. op_bodies v4 conf key b = []) ops \<Longrightarrow> chain_part v4 conf key ops = []"
  by (induction ops) simp_all

lemma logged_undefined [simp]: "logged conf UndefinedCommand ps = []"
  by (simp add: logged_def log_params_def split: option.split)

lemma replace_simps [simp]:
  "replaceVersionSpecific a [] = []"
  "replaceVersionSpecific a (x # xs) = (if x = IPVersionSpecific then a else x) # replaceVersionSpecific a xs"
  by (simp_all add: replaceVersionSpecific_def)

lemma placeholder_neq [simp]:
  "''-o'' \<noteq> IPVersionSpecific" "''lo'' \<noteq> IPVersionSpecific" "''!'' \<noteq> IPVersionSpecific" "''-d'' \<noteq> IPVersionSpecific"
  "''-s'' \<noteq> IPVersionSpecific" "''-p'' \<noteq> IPVersionSpecific" "''tcp'' \<noteq> IPVersionSpecific" "''--dport'' \<noteq> IPVersionSpecific"
  "''53'' \<noteq> IPVersionSpecific" "''-m'' \<noteq> IPVersionSpecific" "''owner'' \<noteq> IPVersionSpecific"
  "''--uid-owner'' \<noteq> IPVersionSpecific" "''--gid-owner'' \<noteq> IPVersionSpecific" "''-j'' \<noteq> IPVersionSpecific"
  "RETURN \<noteq> IPVersionSpecific" "ISTIOINREDIRECT \<noteq> IPVersionSpecific"
  by (simp_all add: IPVersionSpecific_def target_names chain_names)

text \<open>The calls that \<open>Run\<close> makes outside \<open>output_ops\<close>, as far as they concern a chain.\<close>

lemma nat_chain_parts:
  assumes "ch \<in> {ISTIOOUTPUT, ISTIOREDIRECT, OUTPUT}"
  shows "chain_part v4 conf (NAT, ch) (shortCircuitKubeInternalInterface c) = []"
    "chain_part v4 conf (NAT, ch) (handleInboundPortsInclude c) = []"
    "chain_part v4 conf (NAT, ch) (tproxy_rules c) = []"
  using assms
  by (auto simp: shortCircuitKubeInternalInterface_def handleInboundPortsInclude_def tproxy_rules_def Let_def
      list_all_iff split: if_splits intro!: part_empty)

lemma exclude_parts:
  "ch \<in> {ISTIOOUTPUT, ISTIOREDIRECT} \<Longrightarrow> chain_part v4 conf (NAT, ch) (shortCircuitExcludeInterfaces c) = []"
  by (rule part_empty) (auto simp: shortCircuitExcludeInterfaces_def exclude_interface_def list_all_iff)

lemma built_chain:
  assumes "ch \<noteq> OUTPUT"
  shows "chain_part v4 conf (NAT, ch) (concat (map built (HandleDNSUDP AppendOps [] u g d4 d6 a f))) = []"
  using assms
  by (intro part_empty)
    (auto simp: HandleDNSUDP_def addConntrackZoneDNSUDP_def owner_zones_def udp_Run_def RunV4_def RunV6_def
      WithTable_def WithChain_def list_all_iff Let_def split: if_splits)

lemma no_inserts_parts:
  assumes "key \<noteq> (NAT, PREROUTING)" "key \<noteq> (MANGLE, ISTIOINBOUND)"
  shows "list_all (\<lambda>b. \<not> op_inserts key b) (shortCircuitExcludeInterfaces c)"
    "list_all (\<lambda>b. \<not> op_inserts key b) (shortCircuitKubeInternalInterface c)"
    "list_all (\<lambda>b. \<not> op_inserts key b) (handleInboundPortsInclude c)"
    "list_all (\<lambda>b. \<not> op_inserts key b) (tproxy_rules c)"
    "list_all (\<lambda>b. \<not> op_inserts key b) (handleOutboundIncludeRules cs c r DoAppendV4 DoInsertV4)"
    "list_all (\<lambda>b. \<not> op_inserts key b) (handleOutboundIncludeRules cs c r DoAppendV6 DoInsertV6)"
    "list_all (\<lambda>b. \<not> op_inserts key b) (handleOutboundPortsInclude c)"
    "list_all (\<lambda>b. \<not> op_inserts key b) (handleCaptureByOwnerGroup f)"
    "list_all (\<lambda>b. \<not> op_inserts key b) (dns_tcp_rules c)"
  using assms
  by (auto simp: shortCircuitExcludeInterfaces_def exclude_interface_def shortCircuitKubeInternalInterface_def
      handleInboundPortsInclude_def tproxy_rules_def handleOutboundIncludeRules_def handleOutboundPortsInclude_def
      handleCaptureByOwnerGroup_def dns_tcp_rules_def Let_def list_all_iff split: if_splits)

lemma no_inserts_owner:
  "list_all (\<lambda>b. \<not> op_inserts key b) (proxy_uid_rules dns lo u)"
  "list_all (\<lambda>b. \<not> op_inserts key b) (proxy_gid_rules dns lo u)"
  by (simp_all add: proxy_uid_rules_def proxy_gid_rules_def)

lemma no_inserts_dns:
  "list_all (\<lambda>b. \<not> op_inserts key b) (concat (map built (HandleDNSUDP AppendOps cmd u g d4 d6 a f)))"
  by (auto simp: HandleDNSUDP_def addConntrackZoneDNSUDP_def owner_zones_def udp_Run_def RunV4_def RunV6_def
      WithTable_def WithChain_def list_all_iff Let_def split: if_splits)

lemma list_all_concat_map: "(\<And>x. list_all P (f x)) \<Longrightarrow> list_all P (concat (map f xs))"
  by (induction xs) simp_all

lemma list_all_mapI: "(\<And>x. P (f x)) \<Longrightarrow> list_all P (map f xs)"
  by (induction xs) simp_all

lemma no_inserts:
  assumes "key \<noteq> (NAT, PREROUTING)" "key \<noteq> (MANGLE, ISTIOINBOUND)"
  shows "list_all (\<lambda>b. \<not> op_inserts key b) (run_ops cs c (e4, e6) (i4, i6))"
  unfolding run_ops_def output_ops_def prod.case list_all_append
  by (simp add: no_inserts_parts [OF assms] no_inserts_dns no_inserts_owner list_all_concat_map list_all_mapI del: list.pred_map)

text \<open>The chains of the kernel that the rule set of a configuration gives.\<close>

definition ranges :: "ipt_config \<Rightarrow> (network_range \<times> network_range) \<times> (network_range \<times> network_range)" where
  "ranges c = (separateV4V6 (OutboundIPRangesExclude c), separateV4V6 (OutboundIPRangesInclude c))"

lemma run_chain:
  assumes "ipt_Run cs c = Some rb" "ch \<noteq> PREROUTING"
  shows "kernel (rules_of v4 rb) (NAT, ch) = chain_part v4 c (NAT, ch) (run_ops cs c (fst (ranges c)) (snd (ranges c)))"
proof -
  have rb: "rb = perform (run_ops cs c (fst (ranges c)) (snd (ranges c))) (NewIptablesBuilder (Some c))"
    using assms(1) by (simp add: ipt_Run_def ranges_def Let_def split: if_splits)
  have "list_all (\<lambda>b. \<not> op_inserts (NAT, ch) b) (run_ops cs c (fst (ranges c)) (snd (ranges c)))"
    using no_inserts [of "(NAT, ch)" cs c "fst (fst (ranges c))" "snd (fst (ranges c))"
        "fst (snd (ranges c))" "snd (snd (ranges c))"] assms(2) by simp
  from kernel_chain [OF this] show ?thesis
    by (simp add: rb rules_of_perform NewIptablesBuilder_def chain_part_def) (simp add: rules_of_def)
qed

definition dns_udp :: "ipt_config \<Rightarrow> bop list" where
  "dns_udp c = (if RedirectDNS c then
        concat (map built (HandleDNSUDP AppendOps [] (ProxyUID c) (ProxyGID c) (DNSServersV4 c) (DNSServersV6 c)
          (CaptureAllDNS c) (ParseInterceptFilter (OwnerGroupsInclude c) (OwnerGroupsExclude c))))
      else [])"

lemma part_if [simp]:
  "chain_part v4 conf key (if b then xs else []) = (if b then chain_part v4 conf key xs else [])"
  by simp

lemma istio_output_chain:
  assumes "ipt_Run cs c = Some rb"
  shows "kernel (rules_of v4 rb) (NAT, ISTIOOUTPUT) =
    chain_part v4 c (NAT, ISTIOOUTPUT) (output_ops cs c (fst (ranges c)) (snd (ranges c)))"
  using run_chain [OF assms, of ISTIOOUTPUT]
  by (simp add: run_ops_def nat_chain_parts exclude_parts built_chain)

lemma list_all_part:
  "list_all P (chain_part v4 conf key ops) \<longleftrightarrow> list_all (\<lambda>b. list_all P (op_bodies v4 conf key b)) ops"
  by (induction ops) simp_all

lemma part_concat: "chain_part v4 conf key (concat (map f xs)) = concat (map (\<lambda>x. chain_part v4 conf key (f x)) xs)"
  by (induction xs) simp_all

lemma part_map: "(\<And>x. op_bodies v4 conf key (f x) = []) \<Longrightarrow> chain_part v4 conf key (map f xs) = []"
  by (induction xs) simp_all

lemma part_concat_map: "(\<And>x. chain_part v4 conf key (f x) = []) \<Longrightarrow> chain_part v4 conf key (concat (map f xs)) = []"
  by (induction xs) simp_all

lemma output_ops_parts:
  assumes "key \<noteq> (NAT, ISTIOOUTPUT)"
  shows "chain_part v4 conf key (proxy_uid_rules dns lo u) = []"
  "chain_part v4 conf key (proxy_gid_rules dns lo u) = []"
  "chain_part v4 conf key (handleCaptureByOwnerGroup f) = []"
  "chain_part v4 conf key (dns_tcp_rules c) = []"
  "chain_part v4 conf key (handleOutboundPortsInclude c) = []"
  "chain_part v4 conf key (handleOutboundIncludeRules cs c r DoAppendV4 DoInsertV4) = []"
  "chain_part v4 conf key (handleOutboundIncludeRules cs c r DoAppendV6 DoInsertV6) = []"
  using assms by (simp_all add: proxy_uid_rules_def proxy_gid_rules_def handleCaptureByOwnerGroup_def dns_tcp_rules_def
      handleOutboundPortsInclude_def handleOutboundIncludeRules_def part_map part_concat_map)

lemma output_ops_output: "key \<noteq> (NAT, ISTIOOUTPUT) \<Longrightarrow> chain_part v4 conf key (output_ops cs c e i) = []"
  by (cases e; cases i) (simp add: output_ops_def output_ops_parts part_map part_concat_map)

lemma output_chain:
  assumes "ipt_Run cs c = Some rb"
  shows "kernel (rules_of v4 rb) (NAT, OUTPUT) =
    chain_part v4 c (NAT, OUTPUT) (shortCircuitExcludeInterfaces c) @
    op_bodies v4 c (NAT, OUTPUT) (DoAppend JumpOutbound OUTPUT NAT [''-p'', ''tcp'', ''-j'', ISTIOOUTPUT]) @
    chain_part v4 c (NAT, OUTPUT) (dns_udp c)"
  using run_chain [OF assms, of OUTPUT] output_ops_output [of "(NAT, OUTPUT)" v4 c cs c] by (simp add: run_ops_def nat_chain_parts dns_udp_def)

section \<open>Traffic of the proxy\<close>

text \<open>The user and group ids of the proxy, as conditions.\<close>

definition proxy_owners :: "ipt_config \<Rightarrow> (string \<times> string) list" where
  "proxy_owners c = map (Pair ''--uid-owner'') (Split (ProxyUID c)) @ map (Pair ''--gid-owner'') (Split (ProxyGID c))"

lemma owner_rules_harmless:
  assumes "\<not> prim ''-o'' ''lo'' p"
  shows "list_all (harmless prim k NAT p d) (chain_part v4 c key (proxy_uid_rules dns lo u))"
    "list_all (harmless prim k NAT p d) (chain_part v4 c key (proxy_gid_rules dns lo u))"
  using assms by (simp_all add: proxy_uid_rules_def proxy_gid_rules_def harmlessI holds_def returns_def)

lemma owner_rules_leave:
  assumes "\<not> prim ''-o'' ''lo'' p" "v4 \<or> EnableInboundIPv6 c"
  shows "prim ''--uid-owner'' u p \<Longrightarrow> leaves prim k NAT p d (chain_part v4 c (NAT, ISTIOOUTPUT) (proxy_uid_rules dns lo u))"
    "prim ''--gid-owner'' u p \<Longrightarrow> leaves prim k NAT p d (chain_part v4 c (NAT, ISTIOOUTPUT) (proxy_gid_rules dns lo u))"
  using assms by (simp_all add: proxy_uid_rules_def proxy_gid_rules_def harmlessI holds_def returns_def)

lemma part_disabled: "\<not> (v4 \<or> EnableInboundIPv6 conf) \<Longrightarrow> chain_part v4 conf key ops = []"
proof (induction ops)
  case (Cons b ops)
  then show ?case by (cases b) auto
qed simp

lemma istio_output_leaves:
  assumes "\<not> prim ''-o'' ''lo'' p" "v4 \<or> EnableInboundIPv6 c" "(opt, ident) \<in> set (proxy_owners c)" "prim opt ident p"
  shows "leaves prim k NAT p d (chain_part v4 c (NAT, ISTIOOUTPUT) (output_ops cs c e i))"
proof -
  let ?lo = "HasLoopBackIP (fst i) \<or> HasLoopBackIP (snd i)"
  let ?part = "chain_part v4 c (NAT, ISTIOOUTPUT)"
  let ?uids = "?part (concat (map (proxy_uid_rules (RedirectDNS c) ?lo) (Split (ProxyUID c))))"
  let ?gids = "?part (concat (map (proxy_gid_rules (RedirectDNS c) ?lo) (Split (ProxyGID c))))"
  have "list_all (harmless prim k NAT p d) ?uids"
    by (simp add: part_concat list_all_concat_map owner_rules_harmless [of prim p, OF assms(1)] del: list.pred_map)
  moreover have "leaves prim k NAT p d ?uids \<or> leaves prim k NAT p d ?gids"
    using assms(3,4) unfolding part_concat proxy_owners_def
    by (auto intro!: leaves_concat owner_rules_leave [of prim p, OF assms(1,2)] owner_rules_harmless [of prim p, OF assms(1)])
  moreover have "\<exists>rest. ?part (output_ops cs c e i) =
      ?part (if OutboundPortsExclude c \<noteq> [] then
        map (\<lambda>port. DoAppend UndefinedCommand ISTIOOUTPUT NAT
          [''-p'', ''tcp'', ''--dport'', port, ''-j'', RETURN]) (Split (OutboundPortsExclude c))
        else []) @
      ?part [DoAppendVersioned ''127.0.0.6/32'' ''::6/128'' UndefinedCommand ISTIOOUTPUT NAT
        [''-o'', ''lo'', ''-s'', IPVersionSpecific, ''-j'', RETURN]] @ ?uids @ ?gids @ rest"
    (is "\<exists>rest. _ = ?pre @ ?lo6 @ _")
    by (cases e; cases i) (simp add: output_ops_def)
  moreover have "list_all (harmless prim k NAT p d) (?pre @ ?lo6)"
    by (simp add: list_all_part list_all_mapI harmlessI(3) returns_def del: list.pred_map)
  ultimately show ?thesis by (auto simp: leaves_append)
qed

text \<open>DNS over UDP: every rule of the nat table asks for UDP to port 53.\<close>

lemma udp_bodies:
  assumes "f_ops f = AppendOps" "f_table f = NAT" "f_chain f = OUTPUT"
  shows "chain_part v4 conf (NAT, OUTPUT) (concat (map built (udp_Run f args))) = (if v4 \<or> EnableInboundIPv6 conf then [args] else [])"
  using assms by (simp add: udp_Run_def RunV4_def RunV6_def)

lemma holds_dport53: "holds prim p (dport53 @ b) \<Longrightarrow> prim ''-p'' ''udp'' p \<and> prim ''--dport'' ''53'' p"
  by (auto simp: holds_def dport53_def split: prod.splits)

lemma dns_udp_dport53:
  "b \<in> set (chain_part v4 conf (NAT, OUTPUT) (concat (map built (HandleDNSUDP AppendOps [] u g d4 d6 a f)))) \<Longrightarrow>
   \<exists>b'. b = dport53 @ b'"
  by (auto simp: HandleDNSUDP_def addConntrackZoneDNSUDP_def owner_zones_def udp_Run_def RunV4_def RunV6_def
      WithTable_def WithChain_def Let_def Flatten_def chain_part_def split: if_splits)

lemma udp_bodies_map:
  assumes "f_ops f = AppendOps" "f_table f = NAT" "f_chain f = OUTPUT"
  shows "chain_part v4 conf (NAT, OUTPUT) (concat (map built (concat (map (\<lambda>x. udp_Run f (h x)) xs)))) =
    (if v4 \<or> EnableInboundIPv6 conf then map h xs else [])"
  using assms by (induction xs) (simp_all add: udp_bodies)

definition dns_return :: "string \<Rightarrow> string \<Rightarrow> string list" where
  "dns_return opt ident = dport53 @ [''-m'', ''owner'', opt, ident, ''-j'', RETURN]"

lemma dns_return_holds:
  assumes "prim ''-p'' ''udp'' p" "prim ''--dport'' ''53'' p" "prim opt ident p" "opt = ''--uid-owner'' \<or> opt = ''--gid-owner''"
  shows "holds prim p (dns_return opt ident)"
  using assms by (auto simp: dns_return_def dport53_def holds_def)

lemma dns_return_returns: "opt = ''--uid-owner'' \<or> opt = ''--gid-owner'' \<Longrightarrow> returns (dns_return opt ident)"
  by (auto simp: dns_return_def dport53_def returns_def)

lemma dns_udp_owners:
  assumes "v4 \<or> EnableInboundIPv6 c"
  shows "\<exists>rest. chain_part v4 c (NAT, OUTPUT) (concat (map built (HandleDNSUDP AppendOps [] (ProxyUID c) (ProxyGID c) d4 d6 a f))) =
    map (\<lambda>(opt, ident). dns_return opt ident) (proxy_owners c) @ rest"
  using assms by (simp add: HandleDNSUDP_def Let_def udp_bodies_map proxy_owners_def dns_return_def comp_def)

lemma dns_udp_no_match:
  assumes "\<not> (prim ''-p'' ''udp'' p \<and> prim ''--dport'' ''53'' p)"
  shows "list_all (harmless prim k NAT p d) (chain_part v4 c (NAT, OUTPUT) (dns_udp c))"
  using assms by (auto simp: list_all_iff dns_udp_def split: if_splits
      intro!: harmlessI(1) dest!: dns_udp_dport53 holds_dport53)

lemma dns_udp_passes:
  assumes "(opt, ident) \<in> set (proxy_owners c)" "prim opt ident p"
  shows "walk prim k NAT p d (chain_part v4 c (NAT, OUTPUT) (dns_udp c)) = Passed"
proof (cases "RedirectDNS c \<and> (v4 \<or> EnableInboundIPv6 c) \<and> prim ''-p'' ''udp'' p \<and> prim ''--dport'' ''53'' p")
  case True
  have opt: "o' = ''--uid-owner'' \<or> o' = ''--gid-owner''" if "(o', u) \<in> set (proxy_owners c)" for o' u
    using that by (auto simp: proxy_owners_def)
  let ?owners = "map (\<lambda>(opt, ident). dns_return opt ident) (proxy_owners c)"
  obtain rest where rest: "chain_part v4 c (NAT, OUTPUT) (dns_udp c) = ?owners @ rest"
    using dns_udp_owners [of v4 c "DNSServersV4 c" "DNSServersV6 c" "CaptureAllDNS c"
      "ParseInterceptFilter (OwnerGroupsInclude c) (OwnerGroupsExclude c)"] True
    unfolding dns_udp_def by (auto simp only: if_True)
  have "leaves prim k NAT p d ?owners"
  proof (rule leaves_member)
    show "dns_return opt ident \<in> set ?owners" using assms(1) by force
    show "holds prim p (dns_return opt ident)" using True assms(2) opt [OF assms(1)] by (intro dns_return_holds) auto
    show "returns (dns_return opt ident)" using opt [OF assms(1)] by (rule dns_return_returns)
    show "list_all (harmless prim k NAT p d) ?owners"
      by (auto simp: list_all_iff intro!: harmlessI(3) dns_return_returns dest: opt)
  qed
  then show ?thesis by (simp add: rest leaves_append walk_leaves)
next
  case False
  then have "chain_part v4 c (NAT, OUTPUT) (dns_udp c) = [] \<or> \<not> (prim ''-p'' ''udp'' p \<and> prim ''--dport'' ''53'' p)"
    by (auto simp: dns_udp_def part_disabled)
  then show ?thesis using dns_udp_no_match [of prim p k d v4 c] by (auto intro: walk_all_harmless)
qed

lemma nflog_clauses:
  "clauses (nflog_target cmd) = ([], NFLOG # drop 2 (nflog_target cmd))"
  "snd (clauses (''-o'' # nflog_target cmd)) = []"
  by (simp_all add: nflog_target_def NFLOG_def go_quote_def)

lemma nflog_skipped: "snd (clauses b) = [] \<or> hd (snd (clauses b)) = NFLOG \<Longrightarrow> skipped prim p b"
  by (cases "snd (clauses b)") (auto simp: skipped_def passing_def)

lemma logged_skipped:
  "list_all (skipped prim p) (logged c cmd [''-o'', i, ''-j'', t])"
  "list_all (skipped prim p) (logged c cmd [''-p'', ''tcp'', ''-j'', t])"
  by (auto simp: logged_def log_params_def nflog_clauses intro!: nflog_skipped)

lemma skipped_harmless: "list_all (skipped prim p) bs \<Longrightarrow> list_all (harmless prim k tab p d) bs"
  by (simp add: list_all_iff harmlessI)

lemmas logged_harmless = logged_skipped [THEN skipped_harmless]

lemma exclude_harmless:
  "list_all (harmless prim k NAT p d) (chain_part v4 c (NAT, OUTPUT) (shortCircuitExcludeInterfaces c))"
  by (auto simp: shortCircuitExcludeInterfaces_def exclude_interface_def list_all_part list_all_concat_map
      list_all_mapI harmlessI(3) returns_def logged_harmless simp del: list.pred_map)

lemma part_single: "chain_part v4 conf key [b] = op_bodies v4 conf key b"
  by simp

text \<open>
  C33. Traffic that the proxy itself sends is never sent back to the proxy: whatever the
  configuration, for IPv4 and IPv6, a packet that belongs to one of the proxy's user or group
  ids and does not leave through the loopback interface passes the nat rules of the OUTPUT
  chain unchanged.
\<close>

theorem proxy_traffic_not_redirected:
  assumes "ipt_Run cs c = Some rb" "(opt, ident) \<in> set (proxy_owners c)" "prim opt ident p" "\<not> prim ''-o'' ''lo'' p"
  shows "walk prim (kernel (rules_of v4 rb)) NAT p 2 (kernel (rules_of v4 rb) (NAT, OUTPUT)) = Passed"
proof -
  let ?k = "kernel (rules_of v4 rb)"
  have "walk prim ?k NAT p 1 (?k (NAT, ISTIOOUTPUT)) = Passed"
    using istio_output_leaves [of prim p v4 c opt ident] assms(2-4)
    by (cases "v4 \<or> EnableInboundIPv6 c") (auto simp: istio_output_chain [OF assms(1)] part_disabled walk_leaves)
  then have "harmless prim ?k NAT p 2 [''-p'', ''tcp'', ''-j'', ISTIOOUTPUT]"
    by (simp add: harmless_def deciding_def numeral_2_eq_2)
  then have "list_all (harmless prim ?k NAT p 2) (chain_part v4 c (NAT, OUTPUT) (shortCircuitExcludeInterfaces c) @
      op_bodies v4 c (NAT, OUTPUT) (DoAppend JumpOutbound OUTPUT NAT [''-p'', ''tcp'', ''-j'', ISTIOOUTPUT]))"
    by (simp add: exclude_harmless logged_harmless)
  from walk_harmless [OF this] show ?thesis
    using dns_udp_passes [of opt ident c prim p, OF assms(2,3)] by (fastforce simp: output_chain [OF assms(1)])
qed

text \<open>A configuration with all traffic captured, for one packet given by the options it matches.\<close>

definition sample_config :: ipt_config where
  "sample_config = zero_config\<lparr>ProxyPort := ''15001'', ProxyUID := ''1337'', ProxyGID := ''1337'',
     OwnerGroupsInclude := ''*'', OutboundPortsExclude := ''22'', OutboundIPRangesInclude := ''*'', RedirectDNS := True\<rparr>"

definition listed :: "string \<Rightarrow> string \<Rightarrow> (string \<times> string) list \<Rightarrow> bool" where
  "listed key v p \<longleftrightarrow> (key, v) \<in> set p"

lemma sample_runs: "\<exists>rb. ipt_Run (\<lambda>_. []) sample_config = Some rb"
  by (simp add: ipt_Run_def sample_config_def zero_config_def separateV4V6_def Split_def no_range_def)

theorem proxy_traffic_not_redirected_witness:
  "\<exists>rb. ipt_Run (\<lambda>_. []) sample_config = Some rb \<and>
     walk listed (kernel (rules_of True rb)) NAT [(''-p'', ''tcp''), (''--uid-owner'', ''1337'')] 2
       (kernel (rules_of True rb) (NAT, OUTPUT)) = Passed"
proof -
  obtain rb where rb: "ipt_Run (\<lambda>_. []) sample_config = Some rb" using sample_runs by blast
  have "(''--uid-owner'', ''1337'') \<in> set (proxy_owners sample_config)"
    by (simp add: proxy_owners_def sample_config_def zero_config_def Split_def filterEmpty_def)
  with rb show ?thesis
    using proxy_traffic_not_redirected [of "\<lambda>_. []" sample_config rb "''--uid-owner''" "''1337''" listed
        "[(''-p'', ''tcp''), (''--uid-owner'', ''1337'')]" True]
    by (simp add: listed_def)
qed

end
