(* ===== verification/Capture_Spec.thy ===== *)
theory Capture_Spec
  imports Packet_Filter
begin

text \<open>
  What the configuration promises for the outgoing TCP traffic of the applications, as one
  decision over the settings, and that the generated rules take it.
\<close>

section \<open>Segments of a chain\<close>

lemma walk_map_return:
  assumes "\<And>x. snd (clauses (g x)) = [RETURN]"
  shows "walk prim k tab p d (map g xs @ rest) =
    (if \<exists>x\<in>set xs. holds prim p (g x) then Passed else walk prim k tab p d rest)"
  by (induction xs) (simp_all add: assms)

lemma walk_map_decide:
  assumes "\<And>x. snd (clauses (g x)) = t # opts" "t \<in> set deciding"
  shows "walk prim k tab p d (map g xs @ rest) =
    (if \<exists>x\<in>set xs. holds prim p (g x) then Decided t opts else walk prim k tab p d rest)"
  using assms(2) by (induction xs) (auto simp: assms(1) deciding_def passing_def)

lemma walk_map_jump:
  assumes "\<And>x. snd (clauses (g x)) = [t]" "t \<notin> set deciding" "t \<notin> set passing" "t \<noteq> RETURN"
    "walk prim k tab p d (k (tab, t)) = Decided t' opts"
  shows "walk prim k tab p (Suc d) (map g xs @ rest) =
    (if \<exists>x\<in>set xs. holds prim p (g x) then Decided t' opts else walk prim k tab p (Suc d) rest)"
  by (induction xs) (simp_all add: assms)

lemma walk_concat_return:
  assumes "\<And>x rest. walk prim k tab p d (f x @ rest) = (if P x then Passed else walk prim k tab p d rest)"
  shows "walk prim k tab p d (concat (map f xs) @ rest) =
    (if \<exists>x\<in>set xs. P x then Passed else walk prim k tab p d rest)"
  by (induction xs) (simp_all add: assms)

lemma part_map_single:
  assumes "\<And>x. op_bodies v4 c key (f x) = [g x]"
  shows "chain_part v4 c key (map f xs) = map g xs"
  by (induction xs) (simp_all add: assms)

section \<open>The decision\<close>

text \<open>Which traffic the filter on owner groups takes.\<close>

definition group_intercepted :: "(string \<Rightarrow> string \<Rightarrow> 'p \<Rightarrow> bool) \<Rightarrow> intercept_filter \<Rightarrow> 'p \<Rightarrow> bool" where
  "group_intercepted prim f p \<longleftrightarrow>
     (if Except f then \<forall>g\<in>set (Values f). \<not> prim ''--gid-owner'' g p
      else \<exists>g\<in>set (Values f). prim ''--gid-owner'' g p)"

definition of_version :: "bool \<Rightarrow> 'a \<times> 'a \<Rightarrow> 'a" where
  "of_version v4 = (\<lambda>(x, y). if v4 then x else y)"

definition localhost :: "bool \<Rightarrow> string" where
  "localhost v4 = of_version v4 (''127.0.0.1/32'', ''::1/128'')"

definition dns_captured :: "(string \<Rightarrow> string \<Rightarrow> 'p \<Rightarrow> bool) \<Rightarrow> bool \<Rightarrow> ipt_config \<Rightarrow> 'p \<Rightarrow> bool" where
  "dns_captured prim v4 c p \<longleftrightarrow>
     RedirectDNS c \<and> prim ''--dport'' ''53'' p \<and>
     (CaptureAllDNS c \<or>
      (\<exists>s\<in>set (of_version v4 (DNSServersV4 c, DNSServersV6 c)). prim ''-d'' (s @ of_version v4 (''/32'', ''/128'')) p))"

definition in_ranges :: "(ipnet \<Rightarrow> string) \<Rightarrow> (string \<Rightarrow> string \<Rightarrow> 'p \<Rightarrow> bool) \<Rightarrow> network_range \<Rightarrow> 'p \<Rightarrow> bool" where
  "in_ranges cs prim r p \<longleftrightarrow> (\<exists>n\<in>set (IPNets r). prim ''-d'' (cs n) p)"

definition port_in :: "(string \<Rightarrow> string \<Rightarrow> 'p \<Rightarrow> bool) \<Rightarrow> string \<Rightarrow> 'p \<Rightarrow> bool" where
  "port_in prim ports p \<longleftrightarrow> (\<exists>port\<in>set (Split ports). prim ''--dport'' port p)"

definition left_alone :: "(string \<Rightarrow> string \<Rightarrow> 'p \<Rightarrow> bool) \<Rightarrow> ipt_config \<Rightarrow> 'p \<Rightarrow> bool" where
  "left_alone prim c p \<longleftrightarrow>
     port_in prim (OutboundPortsExclude c) p \<or>
     (\<exists>(opt, ident)\<in>set (proxy_owners c). prim opt ident p) \<or>
     \<not> group_intercepted prim (ParseInterceptFilter (OwnerGroupsInclude c) (OwnerGroupsExclude c)) p"

definition outbound_spec ::
  "(ipnet \<Rightarrow> string) \<Rightarrow> (string \<Rightarrow> string \<Rightarrow> 'p \<Rightarrow> bool) \<Rightarrow> bool \<Rightarrow> ipt_config \<Rightarrow> 'p \<Rightarrow> verdict" where
  "outbound_spec cs prim v4 c p =
     (let exc = of_version v4 (separateV4V6 (OutboundIPRangesExclude c));
          inc = of_version v4 (separateV4V6 (OutboundIPRangesInclude c)) in
      if (\<exists>i\<in>set (Split (ExcludeInterfaces c)). prim ''-o'' i p) \<or> left_alone prim c p then Passed
      else if dns_captured prim v4 c p then Decided REDIRECT [''--to-ports'', IstioAgentDNSListenerPort]
      else if prim ''-d'' (localhost v4) p \<or> in_ranges cs prim exc p then Passed
      else if port_in prim (OutboundPortsInclude c) p \<or> IsWildcard inc \<or> in_ranges cs prim inc p
      then Decided REDIRECT [''--to-ports'', ProxyPort c]
      else Passed)"

section \<open>The rules take the decision\<close>

lemma Split_Nil [simp]: "Split [] = []" by (simp add: Split_def)

definition excluded_ports :: "string \<Rightarrow> bop list" where
  "excluded_ports ports =
     (if ports \<noteq> [] then map (\<lambda>port. DoAppend UndefinedCommand ISTIOOUTPUT NAT
          [''-p'', ''tcp'', ''--dport'', port, ''-j'', RETURN]) (Split ports) else [])"

definition excluded_ranges :: "(ipnet \<Rightarrow> string) \<Rightarrow> network_range \<times> network_range \<Rightarrow> bop list" where
  "excluded_ranges cs e =
     map (\<lambda>n. DoAppendV4 UndefinedCommand ISTIOOUTPUT NAT [''-d'', cs n, ''-j'', RETURN]) (IPNets (fst e)) @
     map (\<lambda>n. DoAppendV6 UndefinedCommand ISTIOOUTPUT NAT [''-d'', cs n, ''-j'', RETURN]) (IPNets (snd e))"

definition included_ranges :: "(ipnet \<Rightarrow> string) \<Rightarrow> ipt_config \<Rightarrow> network_range \<times> network_range \<Rightarrow> bop list" where
  "included_ranges cs c i =
     handleOutboundIncludeRules cs c (fst i) DoAppendV4 DoInsertV4 @
     handleOutboundIncludeRules cs c (snd i) DoAppendV6 DoInsertV6"

definition lo_return :: bop where
  "lo_return = DoAppendVersioned ''127.0.0.6/32'' ''::6/128'' UndefinedCommand ISTIOOUTPUT NAT
     [''-o'', ''lo'', ''-s'', IPVersionSpecific, ''-j'', RETURN]"

definition localhost_return :: bop where
  "localhost_return = DoAppendVersioned ''127.0.0.1/32'' ''::1/128'' UndefinedCommand ISTIOOUTPUT NAT
     [''-d'', IPVersionSpecific, ''-j'', RETURN]"

lemma output_ops_segments:
  "output_ops cs c e i =
     excluded_ports (OutboundPortsExclude c) @ [lo_return] @
     concat (map (proxy_uid_rules (RedirectDNS c) (HasLoopBackIP (fst i) \<or> HasLoopBackIP (snd i))) (Split (ProxyUID c))) @
     concat (map (proxy_gid_rules (RedirectDNS c) (HasLoopBackIP (fst i) \<or> HasLoopBackIP (snd i))) (Split (ProxyGID c))) @
     handleCaptureByOwnerGroup (ParseInterceptFilter (OwnerGroupsInclude c) (OwnerGroupsExclude c)) @
     (if RedirectDNS c then dns_tcp_rules c else []) @ [localhost_return] @
     excluded_ranges cs e @ handleOutboundPortsInclude c @ included_ranges cs c i"
  by (cases e; cases i)
    (simp add: output_ops_def excluded_ports_def excluded_ranges_def included_ranges_def lo_return_def localhost_return_def)

lemma lo_segment:
  assumes "v4 \<or> EnableInboundIPv6 c" "\<not> prim ''-o'' ''lo'' p"
  shows "walk prim k NAT p d (chain_part v4 c (NAT, ISTIOOUTPUT) [lo_return] @ rest) = walk prim k NAT p d rest"
  using assms by (simp add: lo_return_def holds_def)

lemma localhost_segment:
  assumes "v4 \<or> EnableInboundIPv6 c"
  shows "walk prim k NAT p d (chain_part v4 c (NAT, ISTIOOUTPUT) [localhost_return] @ rest) =
    (if prim ''-d'' (localhost v4) p then Passed else walk prim k NAT p d rest)"
  using assms by (cases v4) (simp_all add: localhost_return_def holds_def localhost_def of_version_def)

lemma ports_segment:
  assumes "v4 \<or> EnableInboundIPv6 c" "prim ''-p'' ''tcp'' p"
  shows "walk prim k NAT p d (chain_part v4 c (NAT, ISTIOOUTPUT) (excluded_ports ports) @ rest) =
    (if port_in prim ports p then Passed else walk prim k NAT p d rest)"
proof -
  let ?g = "\<lambda>port. [''-p'', ''tcp'', ''--dport'', port, ''-j'', RETURN]"
  have "chain_part v4 c (NAT, ISTIOOUTPUT) (map (\<lambda>port. DoAppend UndefinedCommand ISTIOOUTPUT NAT (?g port)) (Split ports)) =
      map ?g (Split ports)"
    using assms(1) by (intro part_map_single) simp
  moreover have "holds prim p (?g port) = prim ''--dport'' port p" for port
    using assms(2) by (simp add: holds_def)
  ultimately show ?thesis
    using walk_map_return [of ?g prim k NAT p d "Split ports" rest]
    by (cases "ports = []") (simp_all add: port_in_def excluded_ports_def)
qed

lemma owner_segment:
  assumes "v4 \<or> EnableInboundIPv6 c" "\<not> prim ''-o'' ''lo'' p"
  shows "walk prim k NAT p d (chain_part v4 c (NAT, ISTIOOUTPUT) (proxy_uid_rules dns lo u) @ rest) =
      (if prim ''--uid-owner'' u p then Passed else walk prim k NAT p d rest)"
    "walk prim k NAT p d (chain_part v4 c (NAT, ISTIOOUTPUT) (proxy_gid_rules dns lo u) @ rest) =
      (if prim ''--gid-owner'' u p then Passed else walk prim k NAT p d rest)"
  using assms by (simp_all add: proxy_uid_rules_def proxy_gid_rules_def holds_def)

lemma clauses_not_group:
  "clauses (CombineMatchers vs not_group @ [''-j'', RETURN]) = (map (\<lambda>g. (False, ''--gid-owner'', g)) vs, [RETURN])"
  by (induction vs) (simp_all add: CombineMatchers_def Flatten_def not_group_def)

lemma group_segment:
  assumes "v4 \<or> EnableInboundIPv6 c"
  shows "walk prim k NAT p d (chain_part v4 c (NAT, ISTIOOUTPUT) (handleCaptureByOwnerGroup f) @ rest) =
    (if group_intercepted prim f p then walk prim k NAT p d rest else Passed)"
proof (cases "Except f")
  case True
  let ?g = "\<lambda>g. [''-m'', ''owner'', ''--gid-owner'', g, ''-j'', RETURN]"
  have "chain_part v4 c (NAT, ISTIOOUTPUT) (handleCaptureByOwnerGroup f) = map ?g (Values f)"
    using assms True by (simp add: handleCaptureByOwnerGroup_def part_map_single)
  moreover have "holds prim p (?g g) = prim ''--gid-owner'' g p" for g by (simp add: holds_def)
  ultimately show ?thesis
    using walk_map_return [of ?g prim k NAT p d "Values f" rest] True by (auto simp: group_intercepted_def)
next
  case False
  let ?b = "CombineMatchers (Values f) not_group @ [''-j'', RETURN]"
  have "holds prim p ?b = (\<forall>g\<in>set (Values f). \<not> prim ''--gid-owner'' g p)"
    by (simp add: holds_def clauses_not_group list_all_iff)
  moreover have "chain_part v4 c (NAT, ISTIOOUTPUT) (handleCaptureByOwnerGroup f) = [?b]"
    using assms False by (auto simp: handleCaptureByOwnerGroup_def)
  ultimately show ?thesis using False by (auto simp: group_intercepted_def clauses_not_group)
qed

lemma REDIRECT_decides: "REDIRECT \<in> set deciding" by (simp add: deciding_def)

lemma dns_segment:
  assumes "v4 \<or> EnableInboundIPv6 c" "prim ''-p'' ''tcp'' p"
  shows "walk prim k NAT p d (chain_part v4 c (NAT, ISTIOOUTPUT) (if RedirectDNS c then dns_tcp_rules c else []) @ rest) =
    (if dns_captured prim v4 c p then Decided REDIRECT [''--to-ports'', IstioAgentDNSListenerPort]
     else walk prim k NAT p d rest)"
proof -
  let ?g = "\<lambda>s. [''-p'', ''tcp'', ''--dport'', ''53'', ''-d'', s @ of_version v4 (''/32'', ''/128''),
      ''-j'', REDIRECT, ''--to-ports'', IstioAgentDNSListenerPort]"
  let ?servers = "of_version v4 (DNSServersV4 c, DNSServersV6 c)"
  have "holds prim p (?g s) = (prim ''--dport'' ''53'' p \<and> prim ''-d'' (s @ of_version v4 (''/32'', ''/128'')) p)" for s
    using assms(2) by (simp add: holds_def)
  moreover have "chain_part v4 c (NAT, ISTIOOUTPUT) (dns_tcp_rules c) = map ?g ?servers" if "\<not> CaptureAllDNS c"
    using that assms(1)
    by (cases v4) (simp_all add: dns_tcp_rules_def part_map part_map_single of_version_def)
  ultimately show ?thesis
    using walk_map_decide [of ?g REDIRECT "[''--to-ports'', IstioAgentDNSListenerPort]" prim k NAT p d ?servers rest]
      assms REDIRECT_decides
    by (cases "RedirectDNS c"; cases "CaptureAllDNS c")
      (auto simp: dns_captured_def dns_tcp_rules_def holds_def passing_def)
qed

lemma exclude_segment:
  assumes "v4 \<or> EnableInboundIPv6 c"
  shows "walk prim k NAT p d (chain_part v4 c (NAT, ISTIOOUTPUT)
      (excluded_ranges cs e) @ rest) =
    (if in_ranges cs prim (of_version v4 e) p then Passed else walk prim k NAT p d rest)"
proof -
  let ?g = "\<lambda>n. [''-d'', cs n, ''-j'', RETURN]"
  have "holds prim p (?g n) = prim ''-d'' (cs n) p" for n by (simp add: holds_def)
  then show ?thesis
    using walk_map_return [of ?g prim k NAT p d "IPNets (of_version v4 e)" rest] assms
    by (cases v4; cases e) (simp_all add: excluded_ranges_def part_map part_map_single of_version_def in_ranges_def)
qed

text \<open>Rules that jump to \<open>ISTIO_REDIRECT\<close>, when that chain decides.\<close>

lemma include_ports_segment:
  assumes "v4 \<or> EnableInboundIPv6 c" "prim ''-p'' ''tcp'' p"
    "walk prim k NAT p d (k (NAT, ISTIOREDIRECT)) = Decided t opts"
  shows "walk prim k NAT p (Suc d) (chain_part v4 c (NAT, ISTIOOUTPUT) (handleOutboundPortsInclude c) @ rest) =
    (if port_in prim (OutboundPortsInclude c) p then Decided t opts else walk prim k NAT p (Suc d) rest)"
proof -
  let ?g = "\<lambda>port. [''-p'', ''tcp'', ''--dport'', port, ''-j'', ISTIOREDIRECT]"
  have "holds prim p (?g port) = prim ''--dport'' port p" for port using assms(2) by (simp add: holds_def)
  moreover have "chain_part v4 c (NAT, ISTIOOUTPUT) (handleOutboundPortsInclude c) = map ?g (Split (OutboundPortsInclude c))"
    using assms(1) by (simp add: handleOutboundPortsInclude_def part_map_single)
  ultimately show ?thesis
    using walk_map_jump [of ?g ISTIOREDIRECT, OF _ _ _ _ assms(3)]
    by (simp add: deciding_def passing_def port_in_def)
qed

lemma include_part:
  assumes "v4 \<or> EnableInboundIPv6 c"
  shows "chain_part v4 c (NAT, ISTIOOUTPUT) (included_ranges cs c i) =
    (let r = of_version v4 i in
     if IsWildcard r then [[''-j'', ISTIOREDIRECT]]
     else if IPNets r \<noteq> [] then map (\<lambda>n. [''-d'', cs n, ''-j'', ISTIOREDIRECT]) (IPNets r) @ [[''-j'', RETURN]]
     else [])"
proof -
  have "concat (map (\<lambda>n. [h n]) ns) = map h ns" for h :: "ipnet \<Rightarrow> string list" and ns by (induction ns) simp_all
  then show ?thesis
    using assms
    by (cases i; cases v4)
      (simp_all add: included_ranges_def handleOutboundIncludeRules_def of_version_def part_map part_concat Let_def)
qed

lemma include_segment:
  assumes "v4 \<or> EnableInboundIPv6 c" "walk prim k NAT p d (k (NAT, ISTIOREDIRECT)) = Decided t opts"
  shows "walk prim k NAT p (Suc d) (chain_part v4 c (NAT, ISTIOOUTPUT)
      (included_ranges cs c i)) =
    (if IsWildcard (of_version v4 i) \<or> in_ranges cs prim (of_version v4 i) p then Decided t opts else Passed)"
proof -
  let ?g = "\<lambda>n. [''-d'', cs n, ''-j'', ISTIOREDIRECT]"
  have "holds prim p (?g n) = prim ''-d'' (cs n) p" for n by (simp add: holds_def)
  moreover have "walk prim k NAT p (Suc d) [[''-j'', ISTIOREDIRECT]] = Decided t opts"
    using assms(2) by (simp add: holds_def deciding_def passing_def)
  ultimately show ?thesis
    using walk_map_jump [of ?g ISTIOREDIRECT, OF _ _ _ _ assms(2), of "IPNets (of_version v4 i)" "[[''-j'', RETURN]]"]
    unfolding include_part [OF assms(1)]
    by (auto simp: Let_def deciding_def passing_def in_ranges_def holds_def)
qed

lemma redirect_chain:
  assumes "ipt_Run cs c = Some rb" "v4 \<or> EnableInboundIPv6 c"
  shows "kernel (rules_of v4 rb) (NAT, ISTIOREDIRECT) = [[''-p'', ''tcp'', ''-j'', REDIRECT, ''--to-ports'', ProxyPort c]]"
  using run_chain [OF assms(1), of ISTIOREDIRECT v4] assms(2) output_ops_output [of "(NAT, ISTIOREDIRECT)" v4 c cs c]
  by (simp add: run_ops_def nat_chain_parts exclude_parts built_chain)

lemma istio_output_decision:
  assumes "v4 \<or> EnableInboundIPv6 c" "prim ''-p'' ''tcp'' p" "\<not> prim ''-o'' ''lo'' p"
    "walk prim k NAT p d (k (NAT, ISTIOREDIRECT)) = V" "V = Decided REDIRECT opts"
  shows "walk prim k NAT p (Suc d) (chain_part v4 c (NAT, ISTIOOUTPUT) (output_ops cs c e i)) =
    (if left_alone prim c p then Passed
     else if dns_captured prim v4 c p then Decided REDIRECT [''--to-ports'', IstioAgentDNSListenerPort]
     else if prim ''-d'' (localhost v4) p \<or> in_ranges cs prim (of_version v4 e) p then Passed
     else if port_in prim (OutboundPortsInclude c) p \<or> IsWildcard (of_version v4 i) \<or> in_ranges cs prim (of_version v4 i) p
     then V else Passed)"
proof -
  have redirect: "walk prim k NAT p d (k (NAT, ISTIOREDIRECT)) = Decided REDIRECT opts" using assms(4,5) by simp
  note segments = ports_segment [of v4 c prim p, OF assms(1,2)] lo_segment [of v4 c prim p, OF assms(1,3)]
    walk_concat_return [OF owner_segment(1) [of v4 c prim p, OF assms(1,3)]]
    walk_concat_return [OF owner_segment(2) [of v4 c prim p, OF assms(1,3)]]
    group_segment [OF assms(1)] dns_segment [of v4 c prim p, OF assms(1,2)] localhost_segment [OF assms(1)]
    exclude_segment [OF assms(1)] include_ports_segment [of v4 c prim p, OF assms(1,2) redirect]
    include_segment [OF assms(1) redirect]
  show ?thesis
    by (simp only: output_ops_segments part_simps(3) part_concat segments)
      (auto simp: left_alone_def proxy_owners_def assms(5))
qed

lemma interface_segment:
  assumes "v4 \<or> EnableInboundIPv6 c"
  shows "walk prim k NAT p d (chain_part v4 c (NAT, OUTPUT) (shortCircuitExcludeInterfaces c) @ rest) =
    (if \<exists>i\<in>set (Split (ExcludeInterfaces c)). prim ''-o'' i p then Passed else walk prim k NAT p d rest)"
proof -
  have mangle: "chain_part v4 c (NAT, OUTPUT) (exclude_interface MANGLE i) = []" for i
    by (simp add: exclude_interface_def)
  have "walk prim k NAT p d (chain_part v4 c (NAT, OUTPUT) (exclude_interface NAT i) @ rest) =
      (if prim ''-o'' i p then Passed else walk prim k NAT p d rest)" for i rest
    using assms walk_skip [OF logged_skipped(1) [of prim p c ExcludeInterfaceCommand i RETURN]]
    by (simp add: exclude_interface_def holds_def)
  from walk_concat_return [where f = "\<lambda>i. chain_part v4 c (NAT, OUTPUT) (exclude_interface NAT i)" and P = "\<lambda>i. prim ''-o'' i p",
      OF this]
  show ?thesis by (simp add: shortCircuitExcludeInterfaces_def part_concat_map mangle) (simp add: part_concat)
qed

lemma outbound_walk:
  assumes "ipt_Run cs c = Some rb" "v4 \<or> EnableInboundIPv6 c"
    "prim ''-p'' ''tcp'' p" "\<not> prim ''-p'' ''udp'' p" "\<not> prim ''-o'' ''lo'' p"
  shows "walk prim (kernel (rules_of v4 rb)) NAT p 2 (kernel (rules_of v4 rb) (NAT, OUTPUT)) = outbound_spec cs prim v4 c p"
proof -
  let ?k = "kernel (rules_of v4 rb)"
  let ?jump = "[''-p'', ''tcp'', ''-j'', ISTIOOUTPUT]"
  have redirect: "walk prim ?k NAT p 0 (?k (NAT, ISTIOREDIRECT)) = Decided REDIRECT [''--to-ports'', ProxyPort c]"
    using assms(3) REDIRECT_decides by (simp add: redirect_chain [OF assms(1,2)] holds_def passing_def)
  define V where "V = walk prim ?k NAT p 1 (?k (NAT, ISTIOOUTPUT))"
  have dns: "walk prim ?k NAT p 2 (chain_part v4 c (NAT, OUTPUT) (dns_udp c)) = Passed"
    using dns_udp_no_match [of prim p] assms(4) by (blast intro: walk_all_harmless)
  have V: "(if \<exists>i\<in>set (Split (ExcludeInterfaces c)). prim ''-o'' i p then Passed else V) = outbound_spec cs prim v4 c p"
    unfolding V_def istio_output_chain [OF assms(1)] One_nat_def
      istio_output_decision [of v4 c prim p, OF assms(2,3,5) redirect refl]
    by (simp add: outbound_spec_def ranges_def Let_def)
  have "walk prim ?k NAT p 2 (?jump # chain_part v4 c (NAT, OUTPUT) (dns_udp c)) = (case V of Passed \<Rightarrow> Passed | v \<Rightarrow> v)"
    using assms(3) dns by (simp add: holds_def passing_def deciding_def numeral_2_eq_2 V_def split: verdict.split)
  also have "\<dots> = V" by (simp split: verdict.split)
  finally show ?thesis
    using walk_skip [OF logged_skipped(2) [of prim p c JumpOutbound ISTIOOUTPUT]] assms(2)
    unfolding V [symmetric] by (simp add: output_chain [OF assms(1)] interface_segment [OF assms(2)])
qed

text \<open>
  C32. The generated rules do what the settings say: the walk of any outgoing TCP packet
  that does not leave through the loopback interface ends with the decision of
  \<open>outbound_spec\<close>, for every configuration that \<open>Run\<close> accepts, for IPv4, and for IPv6 where it
  is enabled, with the logging rules or without.
\<close>

theorem outbound_rules_decide:
  assumes "ipt_Run cs c = Some rb" "v4 \<or> EnableInboundIPv6 c"
    "prim ''-p'' ''tcp'' p" "\<not> prim ''-p'' ''udp'' p" "\<not> prim ''-o'' ''lo'' p"
  shows "walk prim (kernel (rules_of v4 rb)) NAT p 2 (kernel (rules_of v4 rb) (NAT, OUTPUT)) = outbound_spec cs prim v4 c p"
  by (rule outbound_walk [where prim = prim and p = p, OF assms])

theorem outbound_rules_decide_witness:
  "\<exists>rb. ipt_Run (\<lambda>_. []) sample_config = Some rb \<and>
     walk listed (kernel (rules_of True rb)) NAT [(''-p'', ''tcp''), (''--dport'', ''443'')] 2
       (kernel (rules_of True rb) (NAT, OUTPUT)) = Decided REDIRECT [''--to-ports'', ''15001'']"
proof -
  let ?p = "[(''-p'', ''tcp''), (''--dport'', ''443'')]"
  obtain rb where rb: "ipt_Run (\<lambda>_. []) sample_config = Some rb" using sample_runs by blast
  have "\<not> left_alone listed sample_config ?p"
    by (simp add: left_alone_def port_in_def proxy_owners_def group_intercepted_def ParseInterceptFilter_def
        InterceptAllExcept_def sample_config_def zero_config_def Split_def filterEmpty_def listed_def)
  then have "outbound_spec (\<lambda>_. []) listed True sample_config ?p = Decided REDIRECT [''--to-ports'', ''15001'']"
    by (simp add: outbound_spec_def dns_captured_def in_ranges_def separateV4V6_def no_range_def of_version_def
        sample_config_def zero_config_def Split_def listed_def)
  with rb show ?thesis
    using outbound_rules_decide [of "\<lambda>_. []" sample_config rb True listed ?p] by (simp add: listed_def)
qed

end
