(* ===== verification/Iptables_Clean.thy ===== *)
theory Iptables_Clean
  imports Packet_Filter "HOL-Library.Multiset"
begin

text \<open>
  Removal of the rules, \<open>clean-iptables/pkg/cmd/cleanup.go\<close>: the commands that the cleaner runs,
  what they do to the chains of the kernel, and that they undo \<open>Run\<close>.
\<close>

section \<open>The cleaner\<close>

record clean_config =
  cc_ProxyUID :: string
  cc_ProxyGID :: string
  cc_RedirectDNS :: bool
  cc_DNSServersV4 :: "string list"
  cc_DNSServersV6 :: "string list"
  cc_CaptureAllDNS :: bool
  cc_OwnerGroupsInclude :: string
  cc_OwnerGroupsExclude :: string

text \<open>Errors of these commands are ignored, so that the list of commands is the whole effect.\<close>

definition flushAndDeleteChains :: "string \<Rightarrow> string \<Rightarrow> string list \<Rightarrow> string list list" where
  "flushAndDeleteChains cmd tab chs =
     concat (map (\<lambda>chain. [[cmd, ''-t'', tab, ''-F'', chain], [cmd, ''-t'', tab, ''-X'', chain]]) chs)"

fun quiet :: "udp_effect \<Rightarrow> string list list" where
  "quiet (Build _) = []"
| "quiet (RunQuietly args) = [args]"

definition removeOldChains :: "clean_config \<Rightarrow> string \<Rightarrow> string list list" where
  "removeOldChains c cmd =
     map (\<lambda>tab. [cmd, ''-t'', tab, ''-D'', PREROUTING, ''-p'', ''tcp'', ''-j'', ISTIOINBOUND]) [NAT, MANGLE] @
     [[cmd, ''-t'', NAT, ''-D'', OUTPUT, ''-p'', ''tcp'', ''-j'', ISTIOOUTPUT]] @
     (if cc_RedirectDNS c then
        concat (map quiet (HandleDNSUDP DeleteOps cmd (cc_ProxyUID c) (cc_ProxyGID c) (cc_DNSServersV4 c)
          (cc_DNSServersV6 c) (cc_CaptureAllDNS c)
          (ParseInterceptFilter (cc_OwnerGroupsInclude c) (cc_OwnerGroupsExclude c))))
      else []) @
     flushAndDeleteChains cmd NAT [ISTIOOUTPUT, ISTIOINBOUND] @
     flushAndDeleteChains cmd MANGLE [ISTIOINBOUND, ISTIODIVERT, ISTIOTPROXY] @
     flushAndDeleteChains cmd NAT [ISTIOREDIRECT, ISTIOINREDIRECT]"

definition cleaner_Run :: "clean_config \<Rightarrow> string list list" where
  "cleaner_Run c =
     removeOldChains c ''iptables'' @ removeOldChains c ''ip6tables'' @ [[''iptables-save''], [''ip6tables-save'']]"

section \<open>What the commands do\<close>

text \<open>
  \<open>-D\<close> removes the first rule with that text, \<open>-F\<close> empties a chain and \<open>-X\<close> removes an empty
  one. A command that fails, here one that finds no such rule or chain, changes nothing.
\<close>

fun run_command :: "string list \<Rightarrow> chains \<Rightarrow> chains" where
  "run_command (cmd # t # tab # oper # ch # body) k =
     (if oper = ''-D'' then k((tab, ch) := remove1 body (k (tab, ch)))
      else if oper = ''-F'' then k((tab, ch) := [])
      else k)"
| "run_command _ k = k"

definition run_commands :: "string \<Rightarrow> string list list \<Rightarrow> chains \<Rightarrow> chains" where
  "run_commands cmd cmds k = fold run_command (filter (\<lambda>c. hd c = cmd) cmds) k"

definition clean_of :: "ipt_config \<Rightarrow> clean_config" where
  "clean_of c = \<lparr>cc_ProxyUID = ProxyUID c, cc_ProxyGID = ProxyGID c, cc_RedirectDNS = RedirectDNS c,
     cc_DNSServersV4 = DNSServersV4 c, cc_DNSServersV6 = DNSServersV6 c, cc_CaptureAllDNS = CaptureAllDNS c,
     cc_OwnerGroupsInclude = OwnerGroupsInclude c, cc_OwnerGroupsExclude = OwnerGroupsExclude c\<rparr>"

section \<open>Rules and the commands that delete them\<close>

definition deletes :: "string \<times> string \<Rightarrow> string list list \<Rightarrow> string list list" where
  "deletes key cmds =
     concat (map (\<lambda>c. if length c \<ge> 5 \<and> c ! 3 = ''-D'' \<and> (c ! 2, c ! 4) = key then [drop 5 c] else []) cmds)"

definition flushes :: "string \<times> string \<Rightarrow> string list list \<Rightarrow> bool" where
  "flushes key cmds \<longleftrightarrow> list_ex (\<lambda>c. length c \<ge> 5 \<and> c ! 3 = ''-F'' \<and> (c ! 2, c ! 4) = key) cmds"

lemma deletes_simps [simp]:
  "deletes key [] = []"
  "deletes key (xs @ ys) = deletes key xs @ deletes key ys"
  "deletes key ((cmd # t # tab # oper # ch # body) # cmds) =
     (if oper = ''-D'' \<and> (tab, ch) = key then [body] else []) @ deletes key cmds"
  by (simp_all add: deletes_def)

lemma run_command_empty: "k key = [] \<Longrightarrow> run_command c k key = []"
  by (cases "(c, k)" rule: run_command.cases) auto

lemma fold_empty: "k key = [] \<Longrightarrow> fold run_command cmds k key = []"
  by (induction cmds arbitrary: k) (simp_all add: run_command_empty)

lemma flushed: "flushes key cmds \<Longrightarrow> fold run_command cmds k key = []"
proof (induction cmds arbitrary: k)
  case (Cons c cmds)
  show ?case
  proof (cases "length c \<ge> 5 \<and> c ! 3 = ''-F'' \<and> (c ! 2, c ! 4) = key")
    case True
    then have "run_command c k key = []"
      by (cases "(c, k)" rule: run_command.cases) auto
    then show ?thesis by (simp add: fold_empty)
  next
    case False
    then show ?thesis using Cons by (auto simp: flushes_def)
  qed
qed (simp add: flushes_def)

lemma run_command_delete:
  "\<not> flushes key [c] \<Longrightarrow> run_command c k key = fold remove1 (deletes key [c]) (k key)"
  by (cases "(c, k)" rule: run_command.cases) (auto simp: deletes_def flushes_def)

lemma fold_deletes:
  "\<not> flushes key cmds \<Longrightarrow> fold run_command cmds k key = fold remove1 (deletes key cmds) (k key)"
proof (induction cmds arbitrary: k)
  case (Cons c cmds)
  then have "\<not> flushes key [c]" "\<not> flushes key cmds" by (auto simp: flushes_def)
  moreover have "deletes key (c # cmds) = deletes key [c] @ deletes key cmds"
    using deletes_simps(2) [of key "[c]" cmds] by simp
  ultimately show ?case using Cons.IH by (simp add: run_command_delete del: deletes_simps)
qed simp

lemma fold_remove1_append:
  "set ds \<inter> set xs = {} \<Longrightarrow> fold remove1 ds (xs @ ys) = xs @ fold remove1 ds ys"
  by (induction ds arbitrary: ys) (simp_all add: remove1_append)

lemma fold_remove1_mset: "mset (fold remove1 ds ys) = mset ys - mset ds"
  by (induction ds arbitrary: ys) simp_all

text \<open>Rules that were appended, and then deleted one by one.\<close>

lemma append_then_delete:
  assumes "set ds \<inter> set xs = {}" "mset ys \<subseteq># mset ds"
  shows "fold remove1 ds (xs @ ys) = xs"
proof -
  have "mset (fold remove1 ds ys) = {#}" using assms(2) by (simp add: fold_remove1_mset Diff_eq_empty_iff_mset)
  then show ?thesis using assms(1) by (simp add: fold_remove1_append)
qed

text \<open>The commands that delete the DNS rules are those of the calls that append them.\<close>

definition undo :: "string \<Rightarrow> udp_effect \<Rightarrow> udp_effect" where
  "undo cmd e = (case e of
     Build (DoAppendV4 _ ch t args) \<Rightarrow> RunQuietly ([cmd, ''-t'', t, ''-D'', ch] @ args)
   | Build (DoAppendV6 _ ch t args) \<Rightarrow> RunQuietly ([cmd, ''-t'', t, ''-D'', ch] @ args)
   | _ \<Rightarrow> e)"

lemma undo_Run:
  "map (undo cmd) (RunV4 \<lparr>f_ops = AppendOps, f_table = t, f_chain = ch, f_cmd = x\<rparr> args) =
     RunV4 \<lparr>f_ops = DeleteOps, f_table = t, f_chain = ch, f_cmd = cmd\<rparr> args"
  "map (undo cmd) (RunV6 \<lparr>f_ops = AppendOps, f_table = t, f_chain = ch, f_cmd = x\<rparr> args) =
     RunV6 \<lparr>f_ops = DeleteOps, f_table = t, f_chain = ch, f_cmd = cmd\<rparr> args"
  "map (undo cmd) (udp_Run \<lparr>f_ops = AppendOps, f_table = t, f_chain = ch, f_cmd = x\<rparr> args) =
     udp_Run \<lparr>f_ops = DeleteOps, f_table = t, f_chain = ch, f_cmd = cmd\<rparr> args"
  by (simp_all add: udp_Run_def RunV4_def RunV6_def delete_command_def undo_def)

lemma undo_zones:
  "map (undo cmd) (owner_zones \<lparr>f_ops = AppendOps, f_table = t, f_chain = ch, f_cmd = x\<rparr> opt ident) =
     owner_zones \<lparr>f_ops = DeleteOps, f_table = t, f_chain = ch, f_cmd = cmd\<rparr> opt ident"
  by (simp add: owner_zones_def undo_Run)

lemma undo_HandleDNSUDP:
  "map (undo cmd) (HandleDNSUDP AppendOps x u g d4 d6 a f) = HandleDNSUDP DeleteOps cmd u g d4 d6 a f"
  by (simp add: HandleDNSUDP_def addConntrackZoneDNSUDP_def WithTable_def WithChain_def Let_def
      map_concat comp_def undo_Run undo_zones)

lemma udp_effects_append:
  "e \<in> set (HandleDNSUDP AppendOps x u g d4 d6 a f) \<Longrightarrow>
   \<exists>ch t args. e = Build (DoAppendV4 UndefinedCommand ch t args) \<or> e = Build (DoAppendV6 UndefinedCommand ch t args)"
  by (auto simp: HandleDNSUDP_def addConntrackZoneDNSUDP_def owner_zones_def udp_Run_def RunV4_def RunV6_def
      WithTable_def WithChain_def Let_def split: if_splits)

lemma dns_deleted:
  "mset (chain_part v4 c key (concat (map built (HandleDNSUDP AppendOps x u g d4 d6 a f)))) \<subseteq>#
   mset (deletes key (concat (map quiet (HandleDNSUDP DeleteOps cmd u g d4 d6 a f))))"
proof -
  have "mset (chain_part v4 c key (concat (map built es))) \<subseteq># mset (deletes key (concat (map quiet (map (undo cmd) es))))"
    if "\<forall>e\<in>set es. \<exists>ch t args. e = Build (DoAppendV4 UndefinedCommand ch t args) \<or> e = Build (DoAppendV6 UndefinedCommand ch t args)"
    for es
    using that
  proof (induction es)
    case (Cons e es)
    then have "mset (chain_part v4 c key (built e)) \<subseteq># mset (deletes key (quiet (undo cmd e)))"
      by (auto simp: undo_def)
    with Cons show ?case by (simp add: subset_mset.add_mono)
  qed simp
  then show ?thesis
    using udp_effects_append [of _ x u g d4 d6 a f] by (simp flip: undo_HandleDNSUDP [of _ x])
qed

section \<open>Run, then clean\<close>

definition istio_chains :: "(string \<times> string) list" where
  "istio_chains = [(NAT, ISTIOOUTPUT), (NAT, ISTIOINBOUND), (MANGLE, ISTIOINBOUND), (MANGLE, ISTIODIVERT),
     (MANGLE, ISTIOTPROXY), (NAT, ISTIOREDIRECT), (NAT, ISTIOINREDIRECT)]"

text \<open>Settings whose rules outside the own chains are all among those that the cleaner deletes.\<close>

definition undoable :: "ipt_config \<Rightarrow> bool" where
  "undoable c \<longleftrightarrow> ExcludeInterfaces c = [] \<and> KubeVirtInterfaces c = [] \<and> \<not> DropInvalid c \<and>
     InboundInterceptionMode c \<noteq> TPROXY \<and> \<not> TraceLogging c"

lemma quiet_commands:
  assumes "x \<in> set (quiet e')" "e' \<in> set (HandleDNSUDP DeleteOps cmd u g d4 d6 a f)"
  shows "\<exists>tab ch body. x = [cmd, ''-t'', tab, ''-D'', ch] @ body"
proof -
  obtain e where "e \<in> set (HandleDNSUDP AppendOps [] u g d4 d6 a f)" "x \<in> set (quiet (undo cmd e))"
    using assms unfolding undo_HandleDNSUDP [of cmd "[]", symmetric] by auto
  with udp_effects_append [OF this(1)] show ?thesis by (auto simp: undo_def)
qed

lemma removeOldChains_commands:
  assumes "x \<in> set (removeOldChains c cmd)"
  shows "hd x = cmd"
proof -
  have "hd y = cmd" if "y \<in> set (quiet e)" "e \<in> set (HandleDNSUDP DeleteOps cmd u g d4 d6 a f)" for y e u g d4 d6 a f
    using quiet_commands [OF that] by auto
  then show ?thesis
    using assms unfolding removeOldChains_def flushAndDeleteChains_def by (auto split: if_splits)
qed

lemma cleaner_commands:
  assumes "cmd \<in> {''iptables'', ''ip6tables''}"
  shows "run_commands cmd (cleaner_Run c) = fold run_command (removeOldChains c cmd)"
proof -
  have "filter (\<lambda>x. hd x = cmd) (removeOldChains c cmd') = (if cmd' = cmd then removeOldChains c cmd else [])" for cmd'
    using removeOldChains_commands [of _ c cmd'] by (auto simp: filter_id_conv filter_empty_conv)
  then show ?thesis using assms by (auto simp: run_commands_def cleaner_Run_def fun_eq_iff)
qed

lemma flushes_istio: "flushes key (removeOldChains c cmd) \<longleftrightarrow> key \<in> set istio_chains"
proof -
  have "\<not> flushes key (concat (map quiet (HandleDNSUDP DeleteOps cmd u g d4 d6 a f)))" for u g d4 d6 a f
    using quiet_commands [of _ _ cmd u g d4 d6 a f] by (fastforce simp: flushes_def list_ex_iff)
  moreover have "flushes key (xs @ ys) \<longleftrightarrow> flushes key xs \<or> flushes key ys" for xs ys
    by (simp add: flushes_def)
  ultimately show ?thesis
    by (simp add: removeOldChains_def) (auto simp: flushes_def flushAndDeleteChains_def istio_chains_def)
qed

lemma undoable_part:
  assumes "undoable c" "key \<notin> set istio_chains"
  shows "chain_part v4 c key (run_ops cs c e i) =
    (if InboundPortsInclude c = [] then []
     else op_bodies v4 c key (DoAppend JumpInbound PREROUTING NAT [''-p'', ''tcp'', ''-j'', ISTIOINBOUND])) @
    op_bodies v4 c key (DoAppend JumpOutbound OUTPUT NAT [''-p'', ''tcp'', ''-j'', ISTIOOUTPUT]) @
    chain_part v4 c key (dns_udp c)"
  using assms output_ops_output [of key v4 c cs c e i]
  by (auto simp: run_ops_def undoable_def istio_chains_def shortCircuitExcludeInterfaces_def
      shortCircuitKubeInternalInterface_def handleInboundPortsInclude_def Split_def Let_def dns_udp_def part_map part_concat_map)

lemma undoable_no_inserts:
  assumes "undoable c"
  shows "list_all (\<lambda>b. \<not> op_inserts key b) (run_ops cs c e i)"
proof -
  have "list_all (\<lambda>b. \<not> op_inserts key b) (handleInboundPortsInclude c)"
    by (simp add: handleInboundPortsInclude_def Let_def list_all_mapI list_all_concat_map del: list.pred_map)
  moreover have "list_all (\<lambda>b. \<not> op_inserts key b) (handleOutboundIncludeRules cs c r DoAppendV4 DoInsertV4)"
    "list_all (\<lambda>b. \<not> op_inserts key b) (handleOutboundIncludeRules cs c r DoAppendV6 DoInsertV6)" for r
    using assms by (simp_all add: undoable_def handleOutboundIncludeRules_def Split_def list_all_concat_map list_all_mapI
        del: list.pred_map)
  moreover have "list_all (\<lambda>b. \<not> op_inserts key b) (handleOutboundPortsInclude c)"
    "list_all (\<lambda>b. \<not> op_inserts key b) (handleCaptureByOwnerGroup f)"
    "list_all (\<lambda>b. \<not> op_inserts key b) (dns_tcp_rules c)" for f
    by (simp_all add: handleOutboundPortsInclude_def handleCaptureByOwnerGroup_def dns_tcp_rules_def list_all_mapI
        del: list.pred_map)
  ultimately show ?thesis
    using assms
    by (cases e; cases i)
      (simp add: run_ops_def output_ops_def undoable_def shortCircuitExcludeInterfaces_def shortCircuitKubeInternalInterface_def
        Split_def no_inserts_dns no_inserts_owner list_all_concat_map list_all_mapI del: list.pred_map)
qed

lemma parts_deleted:
  assumes "undoable c"
  shows "mset ((if InboundPortsInclude c = [] then []
     else op_bodies v4 c key (DoAppend JumpInbound PREROUTING NAT [''-p'', ''tcp'', ''-j'', ISTIOINBOUND])) @
    op_bodies v4 c key (DoAppend JumpOutbound OUTPUT NAT [''-p'', ''tcp'', ''-j'', ISTIOOUTPUT]) @
    chain_part v4 c key (dns_udp c)) \<subseteq># mset (deletes key (removeOldChains (clean_of c) cmd))"
proof -
  let ?in = "if (NAT, PREROUTING) = key then {#[''-p'', ''tcp'', ''-j'', ISTIOINBOUND]#} else {#}"
  let ?out = "if (NAT, OUTPUT) = key then {#[''-p'', ''tcp'', ''-j'', ISTIOOUTPUT]#} else {#}"
  let ?dns = "mset (deletes key (if RedirectDNS c then concat (map quiet (HandleDNSUDP DeleteOps cmd (ProxyUID c) (ProxyGID c)
      (DNSServersV4 c) (DNSServersV6 c) (CaptureAllDNS c)
      (ParseInterceptFilter (OwnerGroupsInclude c) (OwnerGroupsExclude c)))) else []))"
  have jump_in: "mset (if InboundPortsInclude c = [] then []
      else op_bodies v4 c key (DoAppend JumpInbound PREROUTING NAT [''-p'', ''tcp'', ''-j'', ISTIOINBOUND])) \<subseteq># ?in"
    using assms by (auto simp: undoable_def logged_def log_params_def)
  have jump_out: "mset (op_bodies v4 c key (DoAppend JumpOutbound OUTPUT NAT [''-p'', ''tcp'', ''-j'', ISTIOOUTPUT])) \<subseteq># ?out"
    using assms by (auto simp: undoable_def logged_def log_params_def)
  have dns: "mset (chain_part v4 c key (dns_udp c)) \<subseteq># ?dns"
    using dns_deleted by (simp add: dns_udp_def)
  have "?in + (?out + ?dns) \<subseteq># mset (deletes key (removeOldChains (clean_of c) cmd))"
    by (auto simp: removeOldChains_def clean_of_def)
  with subset_mset.add_mono [OF jump_in subset_mset.add_mono [OF jump_out dns]] show ?thesis
    unfolding mset_append by (rule subset_mset.order_trans)
qed

lemma run_then_clean:
  assumes "ipt_Run cs c = Some rb" "undoable c" "cmd = (if v4 then ''iptables'' else ''ip6tables'')"
    "\<forall>key\<in>set istio_chains. k key = []"
    "\<forall>key. set (deletes key (removeOldChains (clean_of c) cmd)) \<inter> set (k key) = {}"
  shows "run_commands cmd (cleaner_Run (clean_of c)) (fold add_rule (rules_of v4 rb) k) = k"
proof
  fix key
  let ?ops = "run_ops cs c (fst (ranges c)) (snd (ranges c))"
  let ?cmds = "removeOldChains (clean_of c) cmd"
  have "rb = perform ?ops (NewIptablesBuilder (Some c))"
    using assms(1) by (simp add: ipt_Run_def ranges_def Let_def split: if_splits)
  then have "rules_of v4 rb = concat (map (op_rules v4 c) ?ops)"
    by (simp add: rules_of_perform NewIptablesBuilder_def) (simp add: rules_of_def)
  then have after: "fold add_rule (rules_of v4 rb) k key = k key @ chain_part v4 c key ?ops"
    using fold_chain [OF undoable_no_inserts [OF assms(2)]] by (simp add: chain_part_def)
  have "fold run_command ?cmds (fold add_rule (rules_of v4 rb) k) key = k key"
  proof (cases "key \<in> set istio_chains")
    case True
    then show ?thesis using flushed flushes_istio assms(4) by auto
  next
    case False
    have "mset (chain_part v4 c key ?ops) \<subseteq># mset (deletes key ?cmds)"
      unfolding undoable_part [OF assms(2) False] by (rule parts_deleted [OF assms(2)])
    then show ?thesis
      using False append_then_delete [OF assms(5) [rule_format, of key]] by (simp add: fold_deletes flushes_istio after)
  qed
  then show "run_commands cmd (cleaner_Run (clean_of c)) (fold add_rule (rules_of v4 rb) k) key = k key"
    using assms(3) by (simp add: cleaner_commands)
qed



text \<open>
  A rule that the cleaner does not know stays: the one that drops invalid packets. The same
  holds for the rules of excluded interfaces, KubeVirt, TPROXY marks and trace logging.
\<close>

lemma fold_remove1_keeps: "x \<notin> set ds \<Longrightarrow> x \<in> set ys \<Longrightarrow> x \<in> set (fold remove1 ds ys)"
proof (induction ds arbitrary: ys)
  case (Cons d ds)
  then have "x \<in> set (remove1 d ys)" by (simp add: in_set_remove1)
  with Cons show ?case by simp
qed simp

lemma dns_deletes_not_mangle: "deletes (MANGLE, ch) (concat (map quiet (HandleDNSUDP DeleteOps cmd u g d4 d6 a f))) = []"
proof -
  have "deletes (MANGLE, ch) (concat (map quiet es)) = []"
    if "\<forall>e\<in>set es. deletes (MANGLE, ch) (quiet e) = []" for es
    using that by (induction es) simp_all
  moreover have "\<forall>e\<in>set (HandleDNSUDP DeleteOps cmd u g d4 d6 a f). deletes (MANGLE, ch) (quiet e) = []"
    by (auto simp: HandleDNSUDP_def addConntrackZoneDNSUDP_def owner_zones_def udp_Run_def RunV4_def RunV6_def
        delete_command_def WithTable_def WithChain_def Let_def split: if_splits)
  ultimately show ?thesis by blast
qed

lemma invalid_drop_left_behind:
  assumes "ipt_Run cs c = Some rb" "DropInvalid c"
  shows "[''-m'', ''conntrack'', ''--ctstate'', ''INVALID'', ''-j'', DROP] \<in>
    set (run_commands ''iptables'' (cleaner_Run cc) (kernel (rules_of True rb)) (MANGLE, PREROUTING))"
proof -
  let ?key = "(MANGLE, PREROUTING)"
  let ?ops = "run_ops cs c (fst (ranges c)) (snd (ranges c))"
  let ?drop = "[''-m'', ''conntrack'', ''--ctstate'', ''INVALID'', ''-j'', DROP]"
  have "rb = perform ?ops (NewIptablesBuilder (Some c))"
    using assms(1) by (simp add: ipt_Run_def ranges_def Let_def split: if_splits)
  moreover have "list_all (\<lambda>b. \<not> op_inserts ?key b) ?ops"
    using no_inserts [of ?key cs c "fst (fst (ranges c))" "snd (fst (ranges c))" "fst (snd (ranges c))" "snd (snd (ranges c))"]
    by simp
  ultimately have "kernel (rules_of True rb) ?key = chain_part True c ?key ?ops"
    using kernel_chain [of ?key ?ops True c]
    by (simp add: rules_of_perform NewIptablesBuilder_def chain_part_def) (simp add: rules_of_def)
  then have "?drop \<in> set (kernel (rules_of True rb) ?key)" using assms(2) by (simp add: run_ops_def)
  moreover have "?drop \<notin> set (deletes ?key (removeOldChains cc ''iptables''))"
    by (auto simp: removeOldChains_def dns_deletes_not_mangle flushAndDeleteChains_def)
  ultimately show ?thesis
    by (simp add: cleaner_commands fold_deletes flushes_istio istio_chains_def fold_remove1_keeps)
qed

end
