(* ===== verification/Iptables_Settings.thy ===== *)
theory Iptables_Settings
  imports Capture_Spec Iptables_Clean
begin

text \<open>
  The settings of the two commands, \<open>iptables/pkg/cmd/root.go\<close> and
  \<open>clean-iptables/pkg/cmd/root.go\<close>: what is filled in after the flags and the environment have
  been read, and the execution with an output file.
\<close>

section \<open>Settings\<close>

definition DefaultProxyUID :: string where "DefaultProxyUID = ''1337''"

text \<open>
  The address list is what \<open>net.InterfaceAddrs\<close> returns, \<open>None\<close> an error; an address that is
  not an \<open>IPNet\<close> is \<open>None\<close> in the list.
\<close>

fun first_local :: "ip option list \<Rightarrow> ip option" where
  "first_local [] = None"
| "first_local (a # as) =
     (case a of
        Some x \<Rightarrow>
          if \<not> IsLoopback x \<and> \<not> IsLinkLocalUnicast x \<and> \<not> IsLinkLocalMulticast x then Some x else first_local as
      | None \<Rightarrow> first_local as)"

definition getLocalIP :: "ip option list option \<Rightarrow> ip option" where
  "getLocalIP addrs = (case addrs of None \<Rightarrow> None | Some as \<Rightarrow> first_local as)"

text \<open>The default ids: \<open>lookup\<close> is the user id of the account \<open>ENVOY_USER\<close>, if there is one.\<close>

definition default_uid :: "string option \<Rightarrow> string \<Rightarrow> string" where
  "default_uid lookup uid =
     (if uid = [] then (case lookup of None \<Rightarrow> DefaultProxyUID | Some u \<Rightarrow> u) else uid)"

text \<open>
  \<open>constructConfig\<close>: \<open>raw\<close> holds the values of the flags and variables, \<open>resolv\<close> the servers of
  \<open>/etc/resolv.conf\<close>. \<open>None\<close> is a panic.
\<close>

definition constructConfig ::
  "ipt_config \<Rightarrow> string option \<Rightarrow> ip option list option \<Rightarrow> string list option \<Rightarrow> ipt_config option" where
  "constructConfig raw lookup addrs resolv =
     (let uid = default_uid lookup (ProxyUID raw);
          gid = (if ProxyGID raw = [] then uid else ProxyGID raw);
          c = raw\<lparr>ProxyUID := uid, ProxyGID := gid, DNSServersV4 := [], DNSServersV6 := []\<rparr> in
      case getLocalIP addrs of
        None \<Rightarrow> None
      | Some podIP \<Rightarrow>
          let c = c\<lparr>EnableInboundIPv6 := (To4 podIP = None)\<rparr> in
          if RedirectDNS c \<and> \<not> CaptureAllDNS c then
            (case resolv of
               None \<Rightarrow> None
             | Some servers \<Rightarrow>
                 (case SplitV4V6 servers of (v4, v6) \<Rightarrow> Some (c\<lparr>DNSServersV4 := v4, DNSServersV6 := v6\<rparr>)))
          else Some c)"

definition clean_constructConfig :: "clean_config \<Rightarrow> string option \<Rightarrow> string list option \<Rightarrow> clean_config option" where
  "clean_constructConfig raw lookup resolv =
     (let uid = default_uid lookup (cc_ProxyUID raw);
          gid = (if cc_ProxyGID raw = [] then uid else cc_ProxyGID raw);
          c = raw\<lparr>cc_ProxyUID := uid, cc_ProxyGID := gid, cc_DNSServersV4 := [], cc_DNSServersV6 := []\<rparr> in
      if cc_RedirectDNS c then
        (case resolv of
           None \<Rightarrow> None
         | Some servers \<Rightarrow>
             (case SplitV4V6 servers of (v4, v6) \<Rightarrow> Some (c\<lparr>cc_DNSServersV4 := v4, cc_DNSServersV6 := v6\<rparr>)))
      else Some c)"

text \<open>With the same flags, account and resolver file the cleaner runs the commands that undo the setup.\<close>

lemma capture_all_ignores_servers:
  "HandleDNSUDP ops cmd u g d4 d6 True f = HandleDNSUDP ops cmd u g [] [] True f"
  by (simp add: HandleDNSUDP_def addConntrackZoneDNSUDP_def Let_def)

lemma cleaner_settings_agree:
  assumes "constructConfig raw lookup addrs resolv = Some c" "clean_constructConfig (clean_of raw) lookup resolv = Some cc"
  shows "cleaner_Run cc = cleaner_Run (clean_of c)"
proof -
  have "removeOldChains cc cmd = removeOldChains (clean_of c) cmd" for cmd
    using assms
    by (auto simp: constructConfig_def clean_constructConfig_def clean_of_def removeOldChains_def Let_def
        split: option.splits if_splits prod.splits
        intro!: arg_cong [of _ _ "\<lambda>es. concat (map quiet es)"] capture_all_ignores_servers)
  then show ?thesis by (simp add: cleaner_Run_def)
qed

lemma constructConfig_owner:
  assumes "constructConfig raw lookup addrs resolv = Some c" "lookup \<noteq> Some []"
  shows "ProxyUID c \<noteq> []" "ProxyGID c \<noteq> []"
  using assms
  by (auto simp: constructConfig_def default_uid_def DefaultProxyUID_def Let_def split: option.splits if_splits prod.splits)

section \<open>Execution with an output file\<close>

lemma buildRestore_nothing: "buildRestore order [] = []"
  by (simp add: buildRestore_def constructIptablesRestoreContents_def restore_tables_def tableRulesMap_def)

lemma no_v6_rules:
  assumes "ipt_Run cs c = Some rb" "\<not> EnableInboundIPv6 c"
  shows "rulesv6 rb = []"
proof -
  have "op_rules False c b = []" for b
    using assms(2) by (cases b) (simp_all add: op_rules_def rules_of_def builder_ops)
  moreover obtain ops where "rb = perform ops (NewIptablesBuilder (Some c))"
    using assms(1) by (auto simp: ipt_Run_def Let_def split: if_splits)
  ultimately have "rules_of False rb = []"
    by (simp add: rules_of_perform NewIptablesBuilder_def) (simp add: rules_of_def)
  then show ?thesis by (simp add: rules_of_def)
qed

text \<open>
  With \<open>OutputPath\<close> both restore runs use one file, which is not truncated in between: without
  IPv6 rules \<open>ip6tables-restore\<close> is given the IPv4 rules.
\<close>

lemma output_path_feeds_v4_to_ip6tables:
  assumes "ipt_Run cs c = Some rb" "\<not> EnableInboundIPv6 c" "RestoreFormat c" "OutputPath c \<noteq> []"
  shows "fst (executeCommands order c rb None) =
    [Restored ''iptables-restore'' (BuildV4Restore order rb), Restored ''ip6tables-restore'' (BuildV4Restore order rb)]"
  using assms(3,4) no_v6_rules [OF assms(1,2)] buildRestore_nothing [of order]
  by (simp add: executeCommands_def executeIptablesRestoreCommand_def write_over_def BuildV6Restore_def Let_def)

end
