(* ===== verification/Iptables_Exec.thy ===== *)
theory Iptables_Exec
  imports Iptables_Settings Original_Dst
begin

text \<open>
  Executing what the configurator decided: external commands with the retry on the lock of
  xtables (\<open>iptables/pkg/dependencies/implementation.go\<close>), addresses, rules and routes
  (\<open>capture/run.go\<close>, \<open>run_linux.go\<close>), and the probe that validates a rule set (\<open>iptables/pkg/validation\<close>).
  What processes, netlink and sockets answer is an argument.
\<close>

section \<open>Commands\<close>

datatype run_error = ExitError int | StartError string

record run_out =
  ro_stdout :: string
  ro_stderr :: string
  ro_err :: "run_error option"

definition XTablesCmds :: "string list" where
  "XTablesCmds = [''iptables'', ''ip6tables'', ''iptables-restore'', ''ip6tables-restore'', ''iptables-save'', ''ip6tables-save'']"

definition XTablesResourceProblem :: int where "XTablesResourceProblem = 4"

definition exittypeToString :: "int \<rightharpoonup> string" where
  "exittypeToString = map_of [(1, ''xtables other problem''), (2, ''xtables parameter problem''),
     (3, ''xtables version problem''), (4, ''xtables resource problem'')]"

definition exitCode :: "run_error option \<Rightarrow> int option" where
  "exitCode err = (case err of Some (ExitError n) \<Rightarrow> Some n | _ \<Rightarrow> None)"

definition isXTablesLockError :: "string \<Rightarrow> int \<Rightarrow> bool" where
  "isXTablesLockError stderr exitcode \<longleftrightarrow> exitcode = XTablesResourceProblem \<and> Contains stderr ''xtables lock''"

text \<open>\<open>strings.SplitN(stderr, ":", 2)[1]\<close> when there is a colon, else the whole text.\<close>

definition error_hints :: "string \<Rightarrow> string" where
  "error_hints stderr = (case IndexByte stderr CHR '':'' of None \<Rightarrow> stderr | Some i \<Rightarrow> drop (i + 1) stderr)"

definition transformToXTablesErrorMessage :: "string \<Rightarrow> run_error \<Rightarrow> string" where
  "transformToXTablesErrorMessage stderr err =
     (case err of
        StartError e \<Rightarrow> e
      | ExitError n \<Rightarrow>
          (case exittypeToString n of
             Some t \<Rightarrow> t @ '': '' @ TrimSpace (error_hints stderr)
           | None \<Rightarrow> stderr))"

text \<open>The command line, in the network namespace of a pod when the program runs for the CNI.\<close>

definition wrapped :: "bool \<Rightarrow> string \<Rightarrow> string \<Rightarrow> string list \<Rightarrow> string list" where
  "wrapped CNIMode ns cmd args =
     (if CNIMode then [''nsenter'', ''--net='' @ ns, ''--'', cmd] @ args else cmd # args)"

text \<open>The attempts of the backoff: the first, and those that the time allows after it.\<close>

definition lock_failure :: "run_out \<Rightarrow> bool" where
  "lock_failure r \<longleftrightarrow> (case exitCode (ro_err r) of None \<Rightarrow> False | Some n \<Rightarrow> isXTablesLockError (ro_stderr r) n)"

fun xt_retry :: "run_out \<Rightarrow> run_out list \<Rightarrow> run_out + run_out" where
  "xt_retry r rs =
     (if lock_failure r then (case rs of [] \<Rightarrow> Inl r | r' # rs' \<Rightarrow> xt_retry r' rs') else Inr r)"

declare xt_retry.simps [simp del]

datatype exec_error = LockTimeout run_error | CommandFailed run_error

record exec_env =
  ee_CNIMode :: bool
  ee_namespace :: string
  ee_run :: "string list \<Rightarrow> run_out \<times> run_out list"

text \<open>\<open>executeXTables\<close>: the error, and what is logged of the error output.\<close>

definition executeXTables :: "exec_env \<Rightarrow> string \<Rightarrow> bool \<Rightarrow> string list \<Rightarrow> exec_error option \<times> string option" where
  "executeXTables env cmd ignoreErrors args =
     (case ee_run env (wrapped (ee_CNIMode env) (ee_namespace env) cmd args) of (r, rs) \<Rightarrow>
        (case xt_retry r rs of
           Inl r' \<Rightarrow> (map_option LockTimeout (ro_err r'), None)
         | Inr out \<Rightarrow>
             (map_option CommandFailed (ro_err out),
              if (ro_err out \<noteq> None \<or> ro_stderr out \<noteq> []) \<and> \<not> ignoreErrors
              then Some (case ro_err out of
                           None \<Rightarrow> ro_stderr out
                         | Some e \<Rightarrow> transformToXTablesErrorMessage (ro_stderr out) e)
              else None)))"

definition execute :: "exec_env \<Rightarrow> string \<Rightarrow> bool \<Rightarrow> string list \<Rightarrow> exec_error option \<times> string option" where
  "execute env cmd ignoreErrors args =
     (case fst (ee_run env (wrapped (ee_CNIMode env) (ee_namespace env) cmd args)) of out \<Rightarrow>
        (map_option CommandFailed (ro_err out),
         if \<not> ignoreErrors \<and> ro_stderr out \<noteq> [] then Some (ro_stderr out) else None))"

text \<open>The variables that a command of \<open>execute\<close> gets: all settings, with names in capitals.\<close>

definition upper_char :: "char \<Rightarrow> char" where
  "upper_char c = (if 97 \<le> (of_char c :: nat) \<and> (of_char c :: nat) \<le> 122 then char_of ((of_char c :: nat) - 32) else c)"

definition env_entry :: "string \<times> string \<Rightarrow> string" where
  "env_entry = (\<lambda>(k, v). map (\<lambda>c. upper_char (if c = CHR ''-'' then CHR ''_'' else c)) k @ ''='' @ v)"

definition deps_Run :: "exec_env \<Rightarrow> string list \<Rightarrow> exec_error option" where
  "deps_Run env command =
     (case command of
        [] \<Rightarrow> None
      | cmd # args \<Rightarrow>
          fst (if cmd \<in> set XTablesCmds then executeXTables env cmd False args else execute env cmd False args))"

text \<open>The error is dropped; what is left is what is logged.\<close>

definition deps_RunQuietlyAndIgnore :: "exec_env \<Rightarrow> string list \<Rightarrow> string option" where
  "deps_RunQuietlyAndIgnore env command =
     (case command of
        [] \<Rightarrow> None
      | cmd # args \<Rightarrow>
          snd (if cmd \<in> set XTablesCmds then executeXTables env cmd True args else execute env cmd True args))"

text \<open>
  A list of commands under \<open>RunOrFail\<close>: those that were executed, and whether the process ended
  with the last of them.
\<close>

fun run_or_fail :: "exec_env \<Rightarrow> string list list \<Rightarrow> string list list \<times> bool" where
  "run_or_fail env [] = ([], False)"
| "run_or_fail env (c # cs) =
     (if deps_Run env c \<noteq> None then ([c], True)
      else (case run_or_fail env cs of (ds, exited) \<Rightarrow> (c # ds, exited)))"

subsection \<open>Properties\<close>

lemma xt_retry_skips:
  "\<forall>r\<in>set locked. lock_failure r \<Longrightarrow> \<not> lock_failure out \<Longrightarrow> locked @ out # rest = r # rs \<Longrightarrow> xt_retry r rs = Inr out"
proof (induction locked arbitrary: r rs)
  case Nil
  then show ?case by (simp add: xt_retry.simps)
next
  case (Cons l locked)
  then obtain r' rs' where "locked @ out # rest = r' # rs'" by (cases "locked @ out # rest") auto
  with Cons show ?case by (subst xt_retry.simps) (auto split: list.split)
qed

text \<open>
  A command that finds the lock taken is tried again; once an attempt gets the lock in time, its
  result is the result of the command.
\<close>

lemma lock_is_waited_for:
  assumes "ee_run env (wrapped (ee_CNIMode env) (ee_namespace env) cmd args) = (r, rs)"
    and "locked @ out # rest = r # rs" "\<forall>r\<in>set locked. lock_failure r" "\<not> lock_failure out"
  shows "fst (executeXTables env cmd q args) = map_option CommandFailed (ro_err out)"
  using xt_retry_skips [OF assms(3,4,2)] by (simp add: executeXTables_def assms(1))

lemma xt_retry_timeout: "xt_retry r rs = Inl out \<longleftrightarrow> out = last (r # rs) \<and> (\<forall>x\<in>set (r # rs). lock_failure x)"
proof (induction r rs rule: xt_retry.induct)
  case (1 r rs)
  then show ?case by (subst xt_retry.simps) (auto split: list.splits)
qed

text \<open>The lock error is the only one that is retried, and a lock that stays taken is an error.\<close>

lemma lock_timeout_is_error:
  assumes "ee_run env (wrapped (ee_CNIMode env) (ee_namespace env) cmd args) = (r, rs)" "\<forall>x\<in>set (r # rs). lock_failure x"
  shows "\<exists>n. fst (executeXTables env cmd q args) = Some (LockTimeout (ExitError n))"
proof -
  let ?out = "last (r # rs)"
  have "xt_retry r rs = Inl ?out" using assms(2) by (simp only: xt_retry_timeout)
  moreover have "lock_failure ?out" using assms(2) last_in_set [of "r # rs"] by blast
  then obtain n where "ro_err ?out = Some (ExitError n)"
    by (auto simp: lock_failure_def exitCode_def split: option.splits run_error.splits)
  ultimately show ?thesis by (simp add: executeXTables_def assms(1))
qed

lemma quiet_is_quiet: "deps_RunQuietlyAndIgnore env command = None"
  by (auto simp: deps_RunQuietlyAndIgnore_def executeXTables_def execute_def split: list.split prod.split sum.split)

text \<open>
  Setting up stops at the first command that fails; what was executed is a beginning of the list,
  and all of it when the process goes on.
\<close>

lemma run_or_fail_prefix:
  "run_or_fail env cs = (ds, exited) \<Longrightarrow>
   prefix ds cs \<and> (\<not> exited \<longrightarrow> ds = cs \<and> (\<forall>c\<in>set cs. deps_Run env c = None)) \<and>
   (exited \<longrightarrow> ds \<noteq> [] \<and> deps_Run env (last ds) \<noteq> None \<and> (\<forall>c\<in>set (butlast ds). deps_Run env c = None))"
proof (induction cs arbitrary: ds)
  case (Cons c cs)
  show ?case
  proof (cases "deps_Run env c")
    case None
    obtain d where d: "run_or_fail env cs = (d, exited)" "ds = c # d"
      using Cons.prems None by (auto split: prod.splits)
    from Cons.IH [OF d(1)] None d(2) show ?thesis by auto
  qed (use Cons.prems in auto)
qed simp

section \<open>Addresses, rules and routes\<close>

datatype net_op = AddrAdd string | RuleAdd int int int | RouteAdd string int

datatype routes_error = NoLoopback string | BadTable string | BadMark string | NetFailed net_op string | ConfigureCommand exec_error

definition ignoreExists :: "string option \<Rightarrow> string option" where
  "ignoreExists err =
     (case err of None \<Rightarrow> None | Some e \<Rightarrow> if Contains (ToLower e) ''file exists'' then None else Some e)"

text \<open>What netlink answers depends on what was done before; the operations done are recorded.\<close>

record net_env =
  ne_link :: "string option"
  ne_do :: "net_op list \<Rightarrow> net_op \<Rightarrow> string option"

definition op_error :: "net_op \<Rightarrow> string option \<Rightarrow> string option" where
  "op_error nop err = (case nop of RuleAdd _ _ _ \<Rightarrow> err | _ \<Rightarrow> ignoreExists err)"

fun do_ops :: "net_env \<Rightarrow> net_op list \<Rightarrow> net_op list \<Rightarrow> routes_error option \<times> net_op list" where
  "do_ops env [] acc = (None, acc)"
| "do_ops env (nop # ops) acc =
     (case op_error nop (ne_do env acc nop) of
        Some e \<Rightarrow> (Some (NetFailed nop e), acc)
      | None \<Rightarrow> do_ops env ops (acc @ [nop]))"

definition configureIPv6Addresses :: "net_env \<Rightarrow> ipt_config \<Rightarrow> net_op list \<Rightarrow> routes_error option \<times> net_op list" where
  "configureIPv6Addresses env c acc =
     (if \<not> EnableInboundIPv6 c then (None, acc)
      else (case ne_link env of
              Some e \<Rightarrow> (Some (NoLoopback e), acc)
            | None \<Rightarrow> do_ops env [AddrAdd ''::6/128''] acc))"

definition tproxy_ops :: "bool \<Rightarrow> int \<Rightarrow> int \<Rightarrow> net_op list" where
  "tproxy_ops v6 tab mark =
     map (\<lambda>fam. RuleAdd fam tab mark) (2 # (if v6 then [10] else [])) @
     map (\<lambda>cidr. RouteAdd cidr tab) (''0.0.0.0/0'' # (if v6 then [''0::0/0''] else []))"

definition configureTProxyRoutes ::
  "net_env \<Rightarrow> string \<Rightarrow> ipt_config \<Rightarrow> net_op list \<Rightarrow> routes_error option \<times> net_op list" where
  "configureTProxyRoutes env routeTable c acc =
     (if InboundPortsInclude c = [] \<or> InboundInterceptionMode c \<noteq> TPROXY then (None, acc)
      else (case ne_link env of
              Some e \<Rightarrow> (Some (NoLoopback e), acc)
            | None \<Rightarrow>
                (case Atoi routeTable of
                   None \<Rightarrow> (Some (BadTable routeTable), acc)
                 | Some tab \<Rightarrow>
                     (case Atoi (InboundTProxyMark c) of
                        None \<Rightarrow> (Some (BadMark (InboundTProxyMark c)), acc)
                      | Some mark \<Rightarrow> do_ops env (tproxy_ops (EnableInboundIPv6 c) tab mark) acc))))"

text \<open>
  \<open>cni\<close> is the program's own path when it runs for the CNI and has the means to run a command:
  the work is then left to a process in the namespace.
\<close>

definition ConfigureRoutes ::
  "net_env \<Rightarrow> exec_env \<Rightarrow> bool \<Rightarrow> string option \<Rightarrow> string \<Rightarrow> ipt_config \<Rightarrow> routes_error option \<times> net_op list" where
  "ConfigureRoutes env ext dryRun cni routeTable c =
     (if dryRun then (None, [])
      else (case cni of
              Some self \<Rightarrow> (map_option ConfigureCommand (deps_Run ext [self, ''configure-routes'']), [])
            | None \<Rightarrow>
                (case configureIPv6Addresses env c [] of
                   (Some e, acc) \<Rightarrow> (Some e, acc)
                 | (None, acc) \<Rightarrow> configureTProxyRoutes env routeTable c acc)))"

lemma do_ops_ok:
  "(\<forall>ds. \<forall>nop\<in>set ops. op_error nop (ne_do env ds nop) = None) \<Longrightarrow> do_ops env ops acc = (None, acc @ ops)"
  by (induction ops arbitrary: acc) auto

text \<open>With a netlink that accepts everything, exactly the rules and routes of the settings are made.\<close>

lemma ConfigureRoutes_done:
  assumes "\<And>ds nop. ne_do env ds nop = None" "ne_link env = None" "InboundPortsInclude c \<noteq> []" "InboundInterceptionMode c = TPROXY"
    and "Atoi tab = Some t" "Atoi (InboundTProxyMark c) = Some m"
  shows "ConfigureRoutes env ext False None tab c =
    (None, (if EnableInboundIPv6 c then [AddrAdd ''::6/128''] else []) @ tproxy_ops (EnableInboundIPv6 c) t m)"
proof -
  have ok: "op_error nop (ne_do env ds nop) = None" for nop ds
    using assms(1) by (simp add: op_error_def ignoreExists_def split: net_op.split)
  show ?thesis
    using assms(2-6) by (simp add: ConfigureRoutes_def configureIPv6Addresses_def configureTProxyRoutes_def do_ops_ok ok)
qed

text \<open>
  Setting up twice: an address or a route that exists is no error, a rule that exists is one, so
  that the second run of the TPROXY setup fails at its first rule.
\<close>

lemma second_setup_fails:
  assumes "\<And>ds nop. ne_do env ds nop = Some ''file exists''" "ne_link env = None" "InboundPortsInclude c \<noteq> []"
    and "InboundInterceptionMode c = TPROXY" "Atoi tab = Some t" "Atoi (InboundTProxyMark c) = Some m"
  shows "fst (ConfigureRoutes env ext False None tab c) = Some (NetFailed (RuleAdd 2 t m) ''file exists'')"
proof -
  have "Contains (ToLower ''file exists'') ''file exists''"
    by (simp add: Contains_def ToLower_def lower_def)
  then have addr: "op_error (AddrAdd a) (Some ''file exists'') = None" for a
    by (simp add: op_error_def ignoreExists_def)
  show ?thesis
    using assms(2-6) by (simp add: ConfigureRoutes_def configureIPv6Addresses_def configureTProxyRoutes_def tproxy_ops_def
        assms(1) addr) (simp add: op_error_def)
qed

section \<open>The probe\<close>

text \<open>
  \<open>GetOriginalDestination\<close> reads the answer of the kernel through a struct for IPv6: the port at
  bytes 2 and 3, the address from byte 8 on. \<open>ntohs\<close> swaps the two bytes of a little endian word.
\<close>

definition ntohs :: "bool \<Rightarrow> 16 word \<Rightarrow> 16 word" where
  "ntohs bigEndian n = (if bigEndian then n else or (drop_bit 8 (and n 0xff00)) (push_bit 8 (and n 0xff)))"

datatype probe_error = NotTcpSocket | ProbeFile | NeitherV4V6 | ProbeGetsockopt

definition load16 :: "bool \<Rightarrow> byte \<Rightarrow> byte \<Rightarrow> 16 word" where
  "load16 bigEndian a b = (if bigEndian then push_bit 8 (ucast a) + ucast b else push_bit 8 (ucast b) + ucast a)"

definition GetOriginalDestination ::
  "bool \<Rightarrow> bool \<Rightarrow> bool \<Rightarrow> ip \<Rightarrow> byte list option \<Rightarrow> (probe_error, ip \<times> 16 word) result" where
  "GetOriginalDestination bigEndian isTCP fileOk remote sa =
     (if \<not> isTCP then Inl NotTcpSocket
      else if \<not> fileOk then Inl ProbeFile
      else if To4 remote = None \<and> length remote \<noteq> 16 then Inl NeitherV4V6
      else (case sa of
              None \<Rightarrow> Inl ProbeGetsockopt
            | Some m \<Rightarrow>
                Inr (if To4 remote \<noteq> None then v4_in_v6_prefix @ take 4 (drop 8 m) else take 16 (drop 8 m),
                     ntohs bigEndian (load16 bigEndian (m ! 2) (m ! 3)))))"

text \<open>The port does not depend on the byte order of the machine, and is the one the proxy reads.\<close>

lemma high_bit: "bit (x :: byte) n \<Longrightarrow> n < 8"
  using bit_imp_le_length [of x n] by simp

lemma join_bytes: "push_bit 8 (ucast a) + ucast b = (or (push_bit 8 (ucast a)) (ucast b) :: 16 word)" for a b :: byte
  by (rule disjunctive_add_eq_or) (rule bit_word_eqI, auto simp: bit_simps dest: high_bit)

lemma byte_masks: "0xff = (mask 8 :: 16 word)" "0xff00 = (push_bit 8 (mask 8) :: 16 word)"
  by (simp_all add: mask_eq_exp_minus_1)

lemma ntohs_load16: "ntohs be (load16 be a b) = push_bit 8 (ucast a) + ucast b"
proof (cases be)
  case False
  have "or (drop_bit 8 (and (or (push_bit 8 (ucast b)) (ucast a)) (push_bit 8 (mask 8))))
      (push_bit 8 (and (or (push_bit 8 (ucast b)) (ucast a)) (mask 8))) = (or (push_bit 8 (ucast a)) (ucast b) :: 16 word)"
    by (rule bit_word_eqI) (auto simp: bit_simps dest: high_bit)
  with False show ?thesis by (simp add: ntohs_def load16_def join_bytes byte_masks)
qed (simp add: ntohs_def load16_def)

lemma probe_port:
  assumes "GetOriginalDestination be True True remote (Some m) = Inr (a, p)"
  shows "p = sockaddr_port m"
  using assms by (auto simp: GetOriginalDestination_def ntohs_load16 sockaddr_port_def split: if_splits)

text \<open>For IPv4 the address is read from the padding of the kernel's answer and not from its address.\<close>

lemma probe_v4_address:
  "GetOriginalDestination be True True (v4_in_v6_prefix @ [127, 0, 0, 1])
     (Some [2, 0, 58, 154, 127, 0, 0, 6, 0, 0, 0, 0, 0, 0, 0, 0]) = Inr (v4_in_v6_prefix @ [0, 0, 0, 0], 15002)"
  by (simp add: GetOriginalDestination_def ntohs_load16 To4_def)

record probe_config =
  pb_ListenAddress :: "string list"
  pb_OriginalPort :: "16 word"
  pb_OriginalIP :: ip
  pb_ProbeTimeout :: int

definition genListenerAddress :: "(ip \<Rightarrow> string) \<Rightarrow> ip \<Rightarrow> string list \<Rightarrow> string list" where
  "genListenerAddress ip_text a ports = map (JoinHostPort (ip_text a)) ports"

definition NewValidator :: "(ip \<Rightarrow> string) \<Rightarrow> ipt_config \<Rightarrow> 16 word \<Rightarrow> int \<Rightarrow> ip \<Rightarrow> probe_config" where
  "NewValidator ip_text c probePort probeTimeout hostIP =
     (let v6 = (To4 hostIP = None);
          listenIP = (if v6 then replicate 15 0 @ [1] else v4_in_v6_prefix @ [127, 0, 0, 1]);
          serverIP = (if v6 then replicate 15 0 @ [6] else v4_in_v6_prefix @ [127, 0, 0, 6])
      in \<lparr>pb_ListenAddress = genListenerAddress ip_text listenIP [ProxyPort c, InboundCapturePort c],
          pb_OriginalPort = probePort, pb_OriginalIP = serverIP, pb_ProbeTimeout = probeTimeout\<rparr>)"

datatype accepted = AcceptFailed | NoOriginal | Original "16 word"

text \<open>
  The loop of a listener: what it echoes, and whether it has seen the port of the probe; a
  connection to another port is only answered.
\<close>

fun restoreOriginalAddress :: "16 word \<Rightarrow> accepted list \<Rightarrow> string list \<times> bool" where
  "restoreOriginalAddress port [] = ([], False)"
| "restoreOriginalAddress port (AcceptFailed # cs) = restoreOriginalAddress port cs"
| "restoreOriginalAddress port (NoOriginal # cs) = restoreOriginalAddress port cs"
| "restoreOriginalAddress port (Original p # cs) =
     (if p \<noteq> port then (case restoreOriginalAddress port cs of (es, d) \<Rightarrow> (nat_digits (unat p) # es, d))
      else ([nat_digits (unat p)], True))"

text \<open>
  \<open>Service.Run\<close> with what each address does: \<open>None\<close> when it cannot be bound, else its connections.
  The result is \<open>None\<close> while it waits.
\<close>

definition Service_Run :: "probe_config \<Rightarrow> (string \<Rightarrow> accepted list option) \<Rightarrow> (string, unit) result option" where
  "Service_Run pb listen =
     (if list_ex (\<lambda>a. listen a \<noteq> None) (pb_ListenAddress pb)
      then (if list_ex (\<lambda>a. case listen a of None \<Rightarrow> False | Some cs \<Rightarrow> snd (restoreOriginalAddress (pb_OriginalPort pb) cs))
                 (pb_ListenAddress pb)
            then Some (Inr ()) else None)
      else Some (Inl (''no listener available: '' @ join_with '','' (pb_ListenAddress pb))))"

text \<open>\<open>Validator.Run\<close>: the timer decides when the service still waits.\<close>

definition Validator_Run :: "probe_config \<Rightarrow> (string \<Rightarrow> accepted list option) \<Rightarrow> (string, unit) result" where
  "Validator_Run pb listen =
     (case Service_Run pb listen of Some r \<Rightarrow> r | None \<Rightarrow> Inl ''validation timeout'')"

lemma restoreOriginalAddress_done: "snd (restoreOriginalAddress port cs) \<longleftrightarrow> Original port \<in> set cs"
  by (induction port cs rule: restoreOriginalAddress.induct) (auto split: prod.splits)

text \<open>
  The validation passes exactly when, before the timeout, a connection whose original port is
  that of the probe reached one of the ports of the proxy: the rules redirect.
\<close>

lemma validation_passes:
  "Validator_Run pb listen = Inr () \<longleftrightarrow>
   (\<exists>a\<in>set (pb_ListenAddress pb). \<exists>cs. listen a = Some cs \<and> Original (pb_OriginalPort pb) \<in> set cs)"
  by (auto simp: Validator_Run_def Service_Run_def restoreOriginalAddress_done list_ex_iff split: option.splits)

end
