(* ===== verification/Udp_Start.thy ===== *)
theory Udp_Start
  imports Udp_Proxy Iptables_Exec
begin

text \<open>
  Sockets that are opened with options: the start of the UDP proxy and its sockets for replies
  (\<open>cmd/proxy/udp.go\<close>, \<open>pkg/socket/original_dst_udp.go\<close>), and the client of the probe that validates a
  rule set (\<open>iptables/pkg/validation/validator.go\<close>). Setting an option, binding and dialling are
  arguments.
\<close>

section \<open>Socket options\<close>

datatype sockopt = IP_RECVORIGDSTADDR | IP_TRANSPARENT | IP_FREEBIND

definition EnableUDPSocketOptions :: "(sockopt \<Rightarrow> string option) \<Rightarrow> string option" where
  "EnableUDPSocketOptions setsockopt =
     (case setsockopt IP_RECVORIGDSTADDR of Some e \<Rightarrow> Some (''set IP_RECVORIGDSTADDR: '' @ e) | None \<Rightarrow> None)"

definition EnableTransparentSocketOptions :: "(sockopt \<Rightarrow> string option) \<Rightarrow> string option" where
  "EnableTransparentSocketOptions setsockopt =
     (case setsockopt IP_TRANSPARENT of
        Some e \<Rightarrow> Some (''set IP_TRANSPARENT: '' @ e)
      | None \<Rightarrow> (case setsockopt IP_FREEBIND of Some e \<Rightarrow> Some (''set IP_FREEBIND: '' @ e) | None \<Rightarrow> None))"

section \<open>Listening\<close>

text \<open>
  A packet socket with a control function, which the library calls between making the socket and
  binding it. \<open>raw\<close> is the error of reaching the descriptor, \<open>bind\<close> that of binding, \<open>isUDP\<close> the type of the
  connection that comes back.
\<close>

record packet_env =
  pk_raw :: "string option"
  pk_setsockopt :: "sockopt \<Rightarrow> string option"
  pk_bind :: "string \<Rightarrow> string option"
  pk_isUDP :: bool

datatype listen_result = ListenFailed string | NotUDPConn | Listening string

definition listen_packet :: "((sockopt \<Rightarrow> string option) \<Rightarrow> string option) \<Rightarrow> packet_env \<Rightarrow> string \<Rightarrow> listen_result" where
  "listen_packet control env addr =
     (case pk_raw env of
        Some e \<Rightarrow> ListenFailed e
      | None \<Rightarrow>
          (case control (pk_setsockopt env) of
             Some e \<Rightarrow> ListenFailed e
           | None \<Rightarrow>
               (case pk_bind env addr of
                  Some e \<Rightarrow> ListenFailed e
                | None \<Rightarrow> if pk_isUDP env then Listening addr else NotUDPConn)))"

text \<open>The start: an error, or the state in which \<open>serve\<close> begins.\<close>

definition udp_Startup :: "packet_env \<Rightarrow> int \<Rightarrow> (listen_result, string \<times> udp_net) result" where
  "udp_Startup env port =
     (case listen_packet EnableUDPSocketOptions env ('':'' @ Itoa port) of
        Listening addr \<Rightarrow> Inr (addr, udp_start)
      | e \<Rightarrow> Inl e)"

text \<open>The socket from which answers of \<open>originalDst\<close> are sent, as \<open>getReplyConn\<close> opens it.\<close>

definition open_reply :: "packet_env \<Rightarrow> uaddr \<Rightarrow> UDPServer \<Rightarrow> reply_conn option \<times> UDPServer" where
  "open_reply env originalDst u =
     getReplyConn originalDst
       (case listen_packet EnableTransparentSocketOptions env (UDPAddr_String originalDst) of Listening _ \<Rightarrow> True | _ \<Rightarrow> False) u"

lemma listen_packet_Listening:
  "listen_packet control env addr = Listening a \<longleftrightarrow>
   a = addr \<and> pk_raw env = None \<and> control (pk_setsockopt env) = None \<and> pk_bind env addr = None \<and> pk_isUDP env"
  by (auto simp: listen_packet_def split: option.splits)

text \<open>
  A server that has started was bound to its port with the option that makes the kernel report original
  destinations, so that \<open>serve\<close> can find them.
\<close>

lemma udp_Startup_reports_destinations:
  assumes "udp_Startup env port = Inr (addr, n)"
  shows "pk_setsockopt env IP_RECVORIGDSTADDR = None \<and> pk_bind env ('':'' @ Itoa port) = None \<and> n = udp_start"
proof -
  have "listen_packet EnableUDPSocketOptions env ('':'' @ Itoa port) = Listening addr" "n = udp_start"
    using assms by (auto simp: udp_Startup_def split: listen_result.splits)
  then show ?thesis by (auto simp: listen_packet_Listening EnableUDPSocketOptions_def split: option.splits)
qed

text \<open>
  A new reply socket is bound to the destination that the client had addressed, with both options that allow
  an address of another host; without them there is none, and the table stays as it is.
\<close>

lemma open_reply_new:
  assumes "replyConn u (UDPAddr_String dst) = None" "open_reply env dst u = (r, u')"
  shows "if pk_raw env = None \<and> pk_setsockopt env IP_TRANSPARENT = None \<and> pk_setsockopt env IP_FREEBIND = None \<and>
       pk_bind env (UDPAddr_String dst) = None \<and> pk_isUDP env
    then r = Some \<lparr>rc_local = dst, rc_sock = next_sock u\<rparr> \<and> replyConn u' (UDPAddr_String dst) = r
    else r = None \<and> u' = u"
proof -
  have "(case listen_packet EnableTransparentSocketOptions env (UDPAddr_String dst) of Listening _ \<Rightarrow> True | _ \<Rightarrow> False) \<longleftrightarrow>
      pk_raw env = None \<and> pk_setsockopt env IP_TRANSPARENT = None \<and> pk_setsockopt env IP_FREEBIND = None \<and>
      pk_bind env (UDPAddr_String dst) = None \<and> pk_isUDP env"
    by (auto simp: listen_packet_def EnableTransparentSocketOptions_def split: option.splits)
  with assms show ?thesis by (auto simp: open_reply_def getReplyConn_def Let_def)
qed

section \<open>The client of the probe\<close>

text \<open>\<open>resolve\<close> and \<open>dial\<close> give the errors of resolving an address and of connecting from one to the other.\<close>

definition client_local :: "probe_config \<Rightarrow> string" where
  "client_local pb = (if To4 (pb_OriginalIP pb) = None then ''[::1]:0'' else ''127.0.0.1:0'')"

definition Client_Run ::
  "(ip \<Rightarrow> string) \<Rightarrow> (string \<Rightarrow> string option) \<Rightarrow> (string \<Rightarrow> string \<Rightarrow> string option) \<Rightarrow> probe_config \<Rightarrow> string option" where
  "Client_Run ip_text resolve dial pb =
     (let raddr = JoinHostPort (ip_text (pb_OriginalIP pb)) (nat_digits (unat (pb_OriginalPort pb))) in
      case resolve ''127.0.0.1:0'' of
        Some e \<Rightarrow> Some e
      | None \<Rightarrow>
          (case (if To4 (pb_OriginalIP pb) = None then resolve ''[::1]:0'' else None) of
             Some e \<Rightarrow> Some e
           | None \<Rightarrow> (case resolve raddr of Some e \<Rightarrow> Some e | None \<Rightarrow> dial (client_local pb) raddr)))"

text \<open>The probe leaves from the loopback address of the family that the host has.\<close>

lemma probe_family:
  "client_local (NewValidator ip_text c port t hostIP) = (if To4 hostIP = None then ''[::1]:0'' else ''127.0.0.1:0'')"
proof -
  have "replicate 12 0 ! 11 \<noteq> v4_in_v6_prefix ! 11" by (simp add: v4_in_v6_prefix_def nth_append)
  then have "replicate 12 0 \<noteq> v4_in_v6_prefix" by metis
  then show ?thesis by (simp add: client_local_def NewValidator_def Let_def To4_def)
qed

text \<open>
  A probe that fails has no effect on the validation but to let it wait: with no connection accepted the
  validation ends by its timer, or without a listener.
\<close>

lemma unanswered_probe:
  assumes "\<And>a cs. listen a = Some cs \<Longrightarrow> cs = []"
  shows "Validator_Run pb listen \<noteq> Inr ()"
  using assms by (fastforce simp: validation_passes)

end
