(* ===== verification/Conn_Pool.thy ===== *)
theory Conn_Pool
  imports Prelude
begin

text \<open>
  The connection pool, \<open>pkg/pool/pool.go\<close> with the factory of \<open>cmd/proxy/tcp_conn.go\<close>. A
  connection is a number; its \<open>Closed\<close> flag, which every holder of the pointer sees, is a set.
  The functions of the configuration appear as whether they are set (\<open>Release\<close> clears them)
  and by their results, which are arguments. Calls run one after another.
\<close>

section \<open>Data\<close>

record pool_config =
  InitialCap :: int
  MaxCap :: int
  MaxIdle :: int
  cfg_Factory :: bool
  cfg_Close :: bool
  cfg_Ping :: bool
  cfg_IdleTimeout :: int

record channelPool =
  idleConnections :: "(nat \<times> int) list option"
  idle_cap :: int
  factory :: bool
  close_set :: bool
  ping :: bool
  idleTimeout :: int
  maxActive :: int
  openedCount :: int
  conn_closed :: "nat set"
  hung_up :: "nat list"
  created :: nat

datatype pool_error =
    InvalidCapacity | InvalidFactory | InvalidClose
  | ErrMaxActiveConnReached | ErrClosed | NilConnection | FactoryFailed | ParamError

section \<open>Operations\<close>

definition NewChannelPool :: "pool_config \<Rightarrow> (pool_error, channelPool) result" where
  "NewChannelPool c =
     (if \<not> (InitialCap c \<le> MaxIdle c \<and> MaxCap c \<ge> MaxIdle c \<and> InitialCap c \<ge> 0) then Inl InvalidCapacity
      else if \<not> cfg_Factory c then Inl InvalidFactory
      else if \<not> cfg_Close c then Inl InvalidClose
      else Inr \<lparr>idleConnections = Some [], idle_cap = MaxIdle c, factory = True, close_set = True, ping = cfg_Ping c,
        idleTimeout = cfg_IdleTimeout c, maxActive = MaxCap c, openedCount = 0, conn_closed = {}, hung_up = [],
        created = 0\<rparr>)"

text \<open>\<open>NewConnPool\<close>: the pool for one host, without a ping and with an idle time of 60 seconds.\<close>

definition NewConnPool :: "int \<Rightarrow> int \<Rightarrow> int \<Rightarrow> int \<Rightarrow> (pool_error, channelPool) result" where
  "NewConnPool port coreSize maxSize maxIdleCount =
     (if port \<le> 0 then Inl ParamError
      else NewChannelPool \<lparr>InitialCap = coreSize, MaxCap = maxSize, MaxIdle = maxIdleCount, cfg_Factory = True,
        cfg_Close = True, cfg_Ping = False, cfg_IdleTimeout = 60\<rparr>)"

text \<open>\<open>Close\<close>: the error of the close function itself is passed on and not modelled.\<close>

definition pool_Close :: "nat option \<Rightarrow> channelPool \<Rightarrow> pool_error option \<times> channelPool" where
  "pool_Close conn c =
     (case conn of
        None \<Rightarrow> (Some NilConnection, c)
      | Some x \<Rightarrow>
          if \<not> close_set c then (None, c)
          else (None, c\<lparr>openedCount := openedCount c - 1, conn_closed := insert x (conn_closed c), hung_up := hung_up c @ [x]\<rparr>))"

text \<open>
  \<open>Get\<close>: the loop takes idle connections, oldest first, until one is usable; an empty channel
  makes it dial. \<open>now\<close> is the time, \<open>alive\<close> the result of \<open>Ping\<close> and \<open>made\<close> that of the factory.
\<close>

definition take_new :: "bool \<Rightarrow> channelPool \<Rightarrow> (pool_error, nat) result \<times> channelPool" where
  "take_new made c =
     (if openedCount c \<ge> maxActive c then (Inl ErrMaxActiveConnReached, c)
      else if \<not> factory c then (Inl ErrClosed, c)
      else if \<not> made then (Inl FactoryFailed, c)
      else (Inr (created c), c\<lparr>openedCount := openedCount c + 1, created := created c + 1\<rparr>))"

fun get_loop ::
  "int \<Rightarrow> (nat \<Rightarrow> bool) \<Rightarrow> bool \<Rightarrow> (nat \<times> int) list \<Rightarrow> channelPool \<Rightarrow> (pool_error, nat) result \<times> channelPool" where
  "get_loop now alive made [] c = take_new made (c\<lparr>idleConnections := Some []\<rparr>)"
| "get_loop now alive made ((x, t) # rest) c =
     (if 0 < idleTimeout c \<and> t + idleTimeout c < now
      then get_loop now alive made rest (snd (pool_Close (Some x) c))
      else if ping c \<and> \<not> alive x then get_loop now alive made rest (snd (pool_Close (Some x) c))
      else if x \<in> conn_closed c then get_loop now alive made rest c
      else (Inr x, c\<lparr>idleConnections := Some rest\<rparr>))"

definition pool_Get :: "int \<Rightarrow> (nat \<Rightarrow> bool) \<Rightarrow> bool \<Rightarrow> channelPool \<Rightarrow> (pool_error, nat) result \<times> channelPool" where
  "pool_Get now alive made c =
     (case idleConnections c of
        None \<Rightarrow> (Inl ErrClosed, c)
      | Some items \<Rightarrow> get_loop now alive made items c)"

definition pool_Put :: "int \<Rightarrow> nat option \<Rightarrow> channelPool \<Rightarrow> pool_error option \<times> channelPool" where
  "pool_Put now conn c =
     (case conn of
        None \<Rightarrow> (Some NilConnection, c)
      | Some x \<Rightarrow>
          (case idleConnections c of
             None \<Rightarrow> pool_Close conn c
           | Some items \<Rightarrow>
               if int (length items) < idle_cap c then (None, c\<lparr>idleConnections := Some (items @ [(x, now)])\<rparr>)
               else pool_Close conn c))"

definition pool_Release :: "channelPool \<Rightarrow> channelPool" where
  "pool_Release c =
     (let c' = c\<lparr>idleConnections := None, factory := False, ping := False, close_set := False\<rparr> in
      case idleConnections c of
        None \<Rightarrow> c'
      | Some items \<Rightarrow> c'\<lparr>hung_up := hung_up c @ map fst items\<rparr>)"

definition pool_Len :: "channelPool \<Rightarrow> nat" where
  "pool_Len c = (case idleConnections c of None \<Rightarrow> 0 | Some items \<Rightarrow> length items)"

section \<open>The limit on open connections\<close>

text \<open>
  Clients that hold \<open>out\<close>: a call of \<open>Put\<close> or \<open>Close\<close> gives up a connection that is held.
\<close>

inductive pool_use :: "channelPool \<Rightarrow> nat set \<Rightarrow> channelPool \<Rightarrow> nat set \<Rightarrow> bool" where
  Got: "pool_Get now alive made c = (Inr x, c') \<Longrightarrow> pool_use c out c' (insert x out)"
| Refused: "pool_Get now alive made c = (Inl e, c') \<Longrightarrow> pool_use c out c' out"
| Given_Back: "x \<in> out \<Longrightarrow> pool_Put now (Some x) c = (e, c') \<Longrightarrow> pool_use c out c' (out - {x})"
| Closed: "x \<in> out \<Longrightarrow> pool_Close (Some x) c = (e, c') \<Longrightarrow> pool_use c out c' (out - {x})"

inductive pool_reach :: "pool_config \<Rightarrow> channelPool \<Rightarrow> nat set \<Rightarrow> bool" for cfg where
  Fresh: "NewChannelPool cfg = Inr c \<Longrightarrow> pool_reach cfg c {}"
| Used: "pool_reach cfg c out \<Longrightarrow> pool_use c out c' out' \<Longrightarrow> pool_reach cfg c' out'"

definition idle_items :: "channelPool \<Rightarrow> (nat \<times> int) list" where
  "idle_items c = (case idleConnections c of None \<Rightarrow> [] | Some items \<Rightarrow> items)"

text \<open>The open connections are the idle ones and those that are held, each counted once.\<close>

definition pool_inv :: "channelPool \<Rightarrow> nat set \<Rightarrow> bool" where
  "pool_inv c out \<longleftrightarrow>
     close_set c \<and> idleConnections c \<noteq> None \<and> finite out \<and>
     distinct (map fst (idle_items c)) \<and> fst ` set (idle_items c) \<inter> out = {} \<and>
     {..<created c} - conn_closed c = fst ` set (idle_items c) \<union> out \<and>
     conn_closed c = set (hung_up c) \<and> conn_closed c \<subseteq> {..<created c} \<and>
     openedCount c = int (length (idle_items c)) + int (card out) \<and>
     int (length (idle_items c)) \<le> idle_cap c \<and> openedCount c \<le> maxActive c \<and> idle_cap c \<le> maxActive c"

lemma pool_inv_new: "NewChannelPool cfg = Inr c \<Longrightarrow> pool_inv c {}"
  by (auto simp: NewChannelPool_def pool_inv_def idle_items_def split: if_splits)

lemma idle_items_Some [simp]: "idle_items (c\<lparr>idleConnections := Some items\<rparr>) = items"
  by (simp add: idle_items_def)

lemma pool_inv_close_held:
  assumes "pool_inv c out" "x \<in> out" "pool_Close (Some x) c = (e, c')"
  shows "pool_inv c' (out - {x})"
proof -
  have c': "c' = c\<lparr>openedCount := openedCount c - 1, conn_closed := insert x (conn_closed c), hung_up := hung_up c @ [x]\<rparr>"
    using assms(1,3) by (simp add: pool_inv_def pool_Close_def)
  have "card (out - {x}) = card out - 1" "0 < card out"
    using assms(1,2) by (auto simp: pool_inv_def card_gt_0_iff)
  moreover have "{..<created c} - insert x (conn_closed c) = fst ` set (idle_items c) \<union> (out - {x})"
    using assms(1,2) unfolding pool_inv_def by blast
  moreover have "x < created c" using assms(1,2) unfolding pool_inv_def by blast
  ultimately show ?thesis using assms(1,2) unfolding c' pool_inv_def idle_items_def by auto
qed

lemma pool_inv_drop:
  assumes "pool_inv (c\<lparr>idleConnections := Some ((x, t) # rest)\<rparr>) out"
  shows "pool_inv ((snd (pool_Close (Some x) c))\<lparr>idleConnections := Some rest\<rparr>) out"
  using assms unfolding pool_inv_def idle_items_def pool_Close_def by auto

lemma pool_inv_take:
  assumes "pool_inv (c\<lparr>idleConnections := Some ((x, t) # rest)\<rparr>) out"
  shows "pool_inv (c\<lparr>idleConnections := Some rest\<rparr>) (insert x out)" "x \<notin> conn_closed c"
proof -
  have "x \<notin> out" "finite out" using assms by (auto simp: pool_inv_def)
  then have "card (insert x out) = card out + 1" by simp
  with assms show "pool_inv (c\<lparr>idleConnections := Some rest\<rparr>) (insert x out)"
    unfolding pool_inv_def idle_items_def by auto
  show "x \<notin> conn_closed c" using assms unfolding pool_inv_def by auto
qed

lemma pool_inv_take_new:
  assumes "pool_inv c out" "idle_items c = []" "take_new made c = (Inr x, c')"
  shows "pool_inv c' (insert x out)"
proof -
  have c': "x = created c" "c' = c\<lparr>openedCount := openedCount c + 1, created := created c + 1\<rparr>" "openedCount c < maxActive c"
    using assms(3) by (auto simp: take_new_def split: if_splits)
  have "created c \<notin> out" using assms(1,2) by (auto simp: pool_inv_def)
  moreover have "finite out" "finite (conn_closed c)" using assms(1) by (auto simp: pool_inv_def)
  ultimately have "card (insert x out) = card out + 1" using c' by simp
  then show ?thesis
    using assms(1,2) c' unfolding pool_inv_def idle_items_def by (auto simp: lessThan_Suc)
qed

lemma get_loop_inv:
  assumes "pool_inv (c\<lparr>idleConnections := Some items\<rparr>) out" "get_loop now alive made items c = (r, c')"
  shows "case r of Inr x \<Rightarrow> pool_inv c' (insert x out) | Inl e \<Rightarrow> pool_inv c' out"
  using assms
proof (induction now alive made items c rule: get_loop.induct)
  case (1 now alive made c)
  then show ?case
    using pool_inv_take_new [of "c\<lparr>idleConnections := Some []\<rparr>" out made _ c']
    by (cases r) (auto simp: take_new_def split: if_splits)
next
  case (2 now alive made x t rest c)
  note taken = pool_inv_take [OF 2(4)]
  note dropped = pool_inv_drop [OF 2(4)]
  show ?case using 2 taken dropped by (auto split: if_splits)
qed

lemma pool_inv_put:
  assumes "pool_inv c out" "x \<in> out" "pool_Put now (Some x) c = (e, c')"
  shows "pool_inv c' (out - {x})"
proof (cases "int (length (idle_items c)) < idle_cap c")
  case True
  have c': "c' = c\<lparr>idleConnections := Some (idle_items c @ [(x, now)])\<rparr>"
    using assms(1,3) True by (auto simp: pool_Put_def pool_inv_def idle_items_def split: option.splits)
  have "card (out - {x}) = card out - 1" "0 < card out"
    using assms(1,2) by (auto simp: pool_inv_def card_gt_0_iff)
  moreover have "{..<created c} - conn_closed c = insert x (fst ` set (idle_items c)) \<union> (out - {x})"
    using assms(1,2) unfolding pool_inv_def by blast
  ultimately show ?thesis using assms(1,2) True unfolding c' pool_inv_def by auto
next
  case False
  then have "pool_Close (Some x) c = (e, c')"
    using assms(1,3) by (auto simp: pool_Put_def pool_inv_def idle_items_def split: option.splits)
  then show ?thesis by (rule pool_inv_close_held [OF assms(1,2)])
qed

lemma pool_inv_get:
  assumes "pool_inv c out" "pool_Get now alive made c = (r, c')"
  shows "case r of Inr x \<Rightarrow> pool_inv c' (insert x out) | Inl e \<Rightarrow> pool_inv c' out"
proof -
  obtain items where items: "idleConnections c = Some items" using assms(1) by (auto simp: pool_inv_def)
  then have "c\<lparr>idleConnections := Some items\<rparr> = c" by (cases c) simp
  with assms items get_loop_inv [of items c out now alive made r c'] show ?thesis
    by (simp add: pool_Get_def)
qed

lemma pool_reach_inv: "pool_reach cfg c out \<Longrightarrow> pool_inv c out"
proof (induction rule: pool_reach.induct)
  case (Fresh c)
  then show ?case by (rule pool_inv_new)
next
  case (Used c out c' out')
  from Used(2) Used(3) show ?case
    by cases (auto dest: pool_inv_get pool_inv_put pool_inv_close_held)
qed

lemma get_loop_limits:
  "maxActive (snd (get_loop now alive made items c)) = maxActive c \<and> idle_cap (snd (get_loop now alive made items c)) = idle_cap c"
  by (induction now alive made items c rule: get_loop.induct) (auto simp: take_new_def pool_Close_def)

lemma pool_Get_limits:
  assumes "pool_Get now alive made c = (r, c')"
  shows "maxActive c' = maxActive c \<and> idle_cap c' = idle_cap c"
  using assms get_loop_limits [of now alive made "the (idleConnections c)" c]
  by (cases "idleConnections c") (auto simp: pool_Get_def)

lemma pool_reach_limits: "pool_reach cfg c out \<Longrightarrow> maxActive c = MaxCap cfg \<and> idle_cap c = MaxIdle cfg"
proof (induction rule: pool_reach.induct)
  case (Fresh c)
  then show ?case by (auto simp: NewChannelPool_def split: if_splits)
next
  case (Used c out c' out')
  from Used(2) have "maxActive c' = maxActive c \<and> idle_cap c' = idle_cap c"
    by cases (auto simp: pool_Put_def pool_Close_def split: option.splits if_splits dest: pool_Get_limits)
  with Used(3) show ?case by simp
qed

text \<open>
  C40. The pool keeps its limit: as long as clients give each connection they hold back once,
  by \<open>Put\<close> or \<open>Close\<close>, the connections that were made and not hung up are exactly the idle and
  the held ones, the counter is their number, and it never exceeds \<open>MaxCap\<close>; at most \<open>MaxIdle\<close>
  of them are idle.
\<close>

theorem pool_limit:
  assumes "pool_reach cfg c out"
  shows "{..<created c} - set (hung_up c) = fst ` set (idle_items c) \<union> out \<and>
    openedCount c = int (card ({..<created c} - set (hung_up c))) \<and>
    openedCount c \<le> MaxCap cfg \<and> int (pool_Len c) \<le> MaxIdle cfg"
proof -
  note inv = pool_reach_inv [OF assms]
  have "card (fst ` set (idle_items c) \<union> out) = length (idle_items c) + card out"
    using inv distinct_card [of "map fst (idle_items c)"] unfolding pool_inv_def by (subst card_Un_disjoint) auto
  moreover have "pool_Len c = length (idle_items c)" by (simp add: pool_Len_def idle_items_def split: option.split)
  moreover have "{..<created c} - set (hung_up c) = fst ` set (idle_items c) \<union> out"
    using inv unfolding pool_inv_def by metis
  ultimately show ?thesis using inv pool_reach_limits [OF assms] unfolding pool_inv_def by simp
qed

definition sample_pool :: pool_config where
  "sample_pool = \<lparr>InitialCap = 0, MaxCap = 2, MaxIdle = 1, cfg_Factory = True, cfg_Close = True, cfg_Ping = False,
     cfg_IdleTimeout = 60\<rparr>"

definition fresh_pool :: channelPool where
  "fresh_pool = \<lparr>idleConnections = Some [], idle_cap = 1, factory = True, close_set = True, ping = False,
     idleTimeout = 60, maxActive = 2, openedCount = 0, conn_closed = {}, hung_up = [], created = 0\<rparr>"

lemma fresh_pool_new: "NewChannelPool sample_pool = Inr fresh_pool"
  by (simp add: NewChannelPool_def sample_pool_def fresh_pool_def)

theorem pool_limit_witness:
  "\<exists>c. pool_reach sample_pool c {0} \<and> openedCount c = 1 \<and> openedCount c = int (card ({..<created c} - set (hung_up c)))"
proof -
  let ?c = "fresh_pool\<lparr>openedCount := 1, created := 1\<rparr>"
  have "pool_Get 0 (\<lambda>_. True) True fresh_pool = (Inr 0, ?c)"
    by (simp add: pool_Get_def fresh_pool_def take_new_def)
  from pool_use.Got [OF this] have "pool_use fresh_pool {} ?c {0}" .
  with pool_reach.Fresh [OF fresh_pool_new] have r: "pool_reach sample_pool ?c {0}" by (rule pool_reach.Used)
  from pool_limit [OF r] have "openedCount ?c = int (card ({..<created ?c} - set (hung_up ?c)))" by blast
  moreover have "openedCount ?c = 1" by simp
  ultimately show ?thesis using r by blast
qed

section \<open>Outside that discipline\<close>

text \<open>
  \<open>Close\<close> counts a connection again each time it is called: after a second \<open>Close\<close> the counter
  is below the number of open connections and the pool dials more than \<open>MaxCap\<close>.
\<close>

lemma double_close_breaks_limit:
  assumes "close_set c"
  shows "openedCount (snd (pool_Close (Some x) (snd (pool_Close (Some x) c)))) = openedCount c - 2"
  using assms by (simp add: pool_Close_def)

text \<open>\<open>Get\<close> does it itself to a connection that was closed while it was idle, once it has timed out.\<close>

lemma get_closes_closed_connection:
  "let c = fresh_pool\<lparr>idleConnections := Some [(0, 0)], openedCount := 1, created := 1\<rparr>;
       closed = snd (pool_Close (Some 0) c)
   in openedCount (snd (pool_Get 100 (\<lambda>_. True) False closed)) = -1"
  by (simp add: fresh_pool_def pool_Close_def pool_Get_def take_new_def)

text \<open>After \<open>Release\<close> a connection that comes back is neither kept nor hung up.\<close>

lemma put_after_release_leaks: "pool_Put now (Some x) (pool_Release c) = (None, pool_Release c)"
  by (simp add: pool_Put_def pool_Release_def pool_Close_def Let_def split: option.splits)

lemma get_after_release: "pool_Get now alive made (pool_Release c) = (Inl ErrClosed, pool_Release c)"
  by (simp add: pool_Get_def pool_Release_def Let_def split: option.splits)

end
