(* ===== verification/Cow.thy ===== *)
theory Cow
  imports Prelude
begin

text \<open>
  The copy-on-write containers, \<open>util/sync/cow\<close>. Writers hold a mutex, copy the current value,
  change the copy and publish it; readers load the published value without a lock. The state is
  the published value together with the one a writer is preparing, and readers may come between
  any two steps of a writer.
\<close>

section \<open>Values\<close>

text \<open>
  An array holds interface values, \<open>None\<close> for nil. The writing operations give the value that is
  published; \<open>None\<close> is an index or slice expression out of range, which panics before anything
  is published.
\<close>

type_synonym 'a cells = "'a option list"

fun array_copy :: "'a cells \<Rightarrow> 'a cells \<Rightarrow> nat \<Rightarrow> 'a cells option" where
  "array_copy dst [] k = Some dst"
| "array_copy dst (v # src) k = (if k < length dst then array_copy (dst[k := v]) src (k + 1) else None)"

definition array_dup :: "'a cells \<Rightarrow> 'a cells option" where
  "array_dup src = array_copy (replicate (length src) None) src 0"

definition NewArray :: "'a cells \<Rightarrow> 'a cells option" where
  "NewArray m = array_dup m"

definition array_Get :: "'a cells \<Rightarrow> int \<Rightarrow> 'a option option" where
  "array_Get m i = (if 0 \<le> i then go_index m (nat i) else None)"

definition array_Set :: "int \<Rightarrow> 'a option \<Rightarrow> 'a cells \<Rightarrow> 'a cells option" where
  "array_Set i val src =
     Option.bind (array_dup src) (\<lambda>dst. if 0 \<le> i \<and> nat i < length dst then Some (dst[nat i := val]) else None)"

definition array_Update :: "'a cells \<Rightarrow> 'a cells \<Rightarrow> 'a cells option" where
  "array_Update m src = Option.bind (array_dup src) (\<lambda>dst. array_copy dst m 0)"

definition array_Remove :: "int \<Rightarrow> 'a cells \<Rightarrow> 'a cells option" where
  "array_Remove i src =
     Option.bind (array_dup src) (\<lambda>dst.
       if i < 0 then None
       else Option.bind (go_slice dst 0 (nat i)) (\<lambda>front.
              Option.bind (go_slice dst (nat i + 1) (length dst)) (\<lambda>back. Some (front @ back))))"

definition array_Reset :: "'a cells \<Rightarrow> 'a cells \<Rightarrow> 'a cells option" where
  "array_Reset m src = array_dup m"

text \<open>The map of strings; \<open>order\<close> is the order in which \<open>range\<close> visits its source.\<close>

fun map_copy :: "(string \<rightharpoonup> string) \<Rightarrow> (string \<times> string) list \<Rightarrow> (string \<rightharpoonup> string)" where
  "map_copy dst [] = dst"
| "map_copy dst ((k, v) # src) = map_copy (dst(k \<mapsto> v)) src"

definition map_dup :: "(string \<times> string) list \<Rightarrow> (string \<rightharpoonup> string)" where
  "map_dup src = map_copy Map.empty src"

definition map_Get :: "(string \<rightharpoonup> string) \<Rightarrow> string \<Rightarrow> string" where
  "map_Get m key = (case m key of None \<Rightarrow> [] | Some v \<Rightarrow> v)"

type_synonym visit = "(string \<rightharpoonup> string) \<Rightarrow> (string \<times> string) list"

definition map_Insert :: "visit \<Rightarrow> string \<Rightarrow> string \<Rightarrow> (string \<rightharpoonup> string) \<Rightarrow> (string \<rightharpoonup> string)" where
  "map_Insert order key val src = (map_dup (order src))(key \<mapsto> val)"

definition map_Update :: "visit \<Rightarrow> (string \<rightharpoonup> string) \<Rightarrow> (string \<rightharpoonup> string) \<Rightarrow> (string \<rightharpoonup> string)" where
  "map_Update order m src = map_copy (map_dup (order src)) (order m)"

definition map_Remove :: "visit \<Rightarrow> string \<Rightarrow> (string \<rightharpoonup> string) \<Rightarrow> (string \<rightharpoonup> string)" where
  "map_Remove order key src = (map_dup (order src))(key := None)"

definition map_Reset :: "visit \<Rightarrow> (string \<rightharpoonup> string) \<Rightarrow> (string \<rightharpoonup> string) \<Rightarrow> (string \<rightharpoonup> string)" where
  "map_Reset order m src = map_dup (order m)"

section \<open>What the operations do\<close>

lemma array_copy_prefix:
  "k + length src \<le> length dst \<Longrightarrow> array_copy dst src k = Some (take k dst @ src @ drop (k + length src) dst)"
proof (induction dst src k rule: array_copy.induct)
  case (2 dst v src k)
  have "take (k + 1) (dst[k := v]) = take k dst @ [v]"
    using 2(2) by (simp add: take_Suc_conv_app_nth)
  with 2 show ?case by (simp add: add.commute)
qed simp

lemma array_dup_id [simp]: "array_dup src = Some src"
  by (simp add: array_dup_def array_copy_prefix)

lemma array_Set_value:
  "array_Set i val src = (if 0 \<le> i \<and> nat i < length src then Some (src[nat i := val]) else None)"
  by (simp add: array_Set_def)

text \<open>\<open>Update\<close> of an array overwrites a beginning and panics when there is too much of it.\<close>

lemma array_Update_value:
  "length m \<le> length src \<Longrightarrow> array_Update m src = Some (m @ drop (length m) src)"
  by (simp add: array_Update_def array_copy_prefix)

lemma array_copy_panic: "length dst < k + length src \<Longrightarrow> k \<le> length dst \<Longrightarrow> array_copy dst src k = None"
  by (induction dst src k rule: array_copy.induct) auto

lemma array_Update_panic: "length src < length m \<Longrightarrow> array_Update m src = None"
  by (simp add: array_Update_def array_copy_panic)

lemma array_Remove_value:
  "array_Remove i src = (if 0 \<le> i \<and> nat i < length src then Some (take (nat i) src @ drop (nat i + 1) src) else None)"
  by (auto simp: array_Remove_def go_slice_def)

text \<open>Whatever order Go visits a map in, its copy is the map.\<close>

definition visits :: "visit \<Rightarrow> bool" where
  "visits order \<longleftrightarrow> (\<forall>m. finite (dom m) \<longrightarrow> map_of (order m) = m \<and> distinct (map fst (order m)))"

lemma map_copy_value: "distinct (map fst src) \<Longrightarrow> map_copy dst src = dst ++ map_of src"
proof (induction dst src rule: map_copy.induct)
  case (2 dst k v src)
  then have d: "distinct (map fst src)" and k: "k \<notin> dom (map_of src)" by (auto simp: dom_map_of_conv_image_fst)
  show ?case using 2(1) [OF d] map_add_upd_left [OF k, of dst v]
    by (simp only: map_copy.simps map_of.simps fst_conv snd_conv map_add_upd)
qed simp

lemma map_dup_id: "visits order \<Longrightarrow> finite (dom m) \<Longrightarrow> map_dup (order m) = m"
  by (simp add: map_dup_def map_copy_value visits_def)

lemma map_Update_value:
  "visits order \<Longrightarrow> finite (dom m) \<Longrightarrow> finite (dom src) \<Longrightarrow> map_Update order m src = src ++ m"
  using map_dup_id [of order src] by (simp add: map_Update_def map_copy_value visits_def)

lemma map_Get_Insert:
  "visits order \<Longrightarrow> finite (dom src) \<Longrightarrow>
   map_Get (map_Insert order key val src) k = (if k = key then val else map_Get src k)"
  by (simp add: map_Get_def map_Insert_def map_dup_id)

lemma map_Get_Remove:
  "visits order \<Longrightarrow> finite (dom src) \<Longrightarrow> map_Get (map_Remove order key src) k = (if k = key then [] else map_Get src k)"
  by (simp add: map_Get_def map_Remove_def map_dup_id)

section \<open>Readers and writers\<close>

text \<open>
  \<open>cow_ops\<close> are the changes of a container. A writer that panics leaves the published value
  alone and unlocks, by the deferred call.
\<close>

datatype 'v cow_writer = NoWriter | Preparing "'v option"

record 'v cow =
  published :: 'v
  writer :: "'v cow_writer"
  history :: "'v list"

inductive cow_step :: "('v \<Rightarrow> 'v option) set \<Rightarrow> 'v cow \<Rightarrow> 'v cow \<Rightarrow> bool" for ops where
  Lock_Copy: "writer c = NoWriter \<Longrightarrow> f \<in> ops \<Longrightarrow> cow_step ops c (c\<lparr>writer := Preparing (f (published c))\<rparr>)"
| Publish: "writer c = Preparing (Some v) \<Longrightarrow> cow_step ops c (c\<lparr>published := v, writer := NoWriter, history := history c @ [v]\<rparr>)"
| Panic: "writer c = Preparing None \<Longrightarrow> cow_step ops c (c\<lparr>writer := NoWriter\<rparr>)"

definition cow_new :: "'v \<Rightarrow> 'v cow" where
  "cow_new v = \<lparr>published = v, writer = NoWriter, history = [v]\<rparr>"

inductive cow_reach :: "('v \<Rightarrow> 'v option) set \<Rightarrow> 'v \<Rightarrow> 'v cow \<Rightarrow> bool" for ops v where
  New: "cow_reach ops v (cow_new v)"
| More: "cow_reach ops v c \<Longrightarrow> cow_step ops c c' \<Longrightarrow> cow_reach ops v c'"

text \<open>
  The values ever published form a chain in which each follows from the one before by one whole
  change: no change is lost and no reader sees half of one.
\<close>

definition chain_of :: "('v \<Rightarrow> 'v option) set \<Rightarrow> 'v list \<Rightarrow> bool" where
  "chain_of ops vs \<longleftrightarrow> (\<forall>i. Suc i < length vs \<longrightarrow> (\<exists>f\<in>ops. f (vs ! i) = Some (vs ! Suc i)))"

lemma chain_snoc:
  "chain_of ops vs \<Longrightarrow> vs \<noteq> [] \<Longrightarrow> f \<in> ops \<Longrightarrow> f (last vs) = Some v \<Longrightarrow> chain_of ops (vs @ [v])"
proof -
  assume a: "chain_of ops vs" "vs \<noteq> []" "f \<in> ops" "f (last vs) = Some v"
  have "\<exists>f\<in>ops. f ((vs @ [v]) ! i) = Some ((vs @ [v]) ! Suc i)" if i: "Suc i < length (vs @ [v])" for i
  proof (cases "Suc i = length vs")
    case True
    then have "i = length vs - 1" by simp
    with True a show ?thesis by (auto simp: nth_append last_conv_nth)
  next
    case False
    with i a(1) show ?thesis by (auto simp: nth_append chain_of_def)
  qed
  then show ?thesis by (simp add: chain_of_def)
qed

lemma cow_chain:
  assumes "cow_reach ops v c"
  shows "chain_of ops (history c) \<and> history c \<noteq> [] \<and> hd (history c) = v \<and> last (history c) = published c \<and>
    (\<forall>w. writer c = Preparing w \<longrightarrow> (\<exists>f\<in>ops. f (published c) = w))"
  using assms
proof (induction rule: cow_reach.induct)
  case New
  then show ?case by (simp add: cow_new_def chain_of_def)
next
  case (More c c')
  from More(2,3) show ?case by cases (auto intro: chain_snoc)
qed


text \<open>
  What every operation keeps, every published value has, and so every reader sees.
\<close>

locale cow_container =
  fixes ops :: "('v \<Rightarrow> 'v option) set" and ok :: "'v \<Rightarrow> bool"
  assumes ops_ok: "f \<in> ops \<Longrightarrow> ok v \<Longrightarrow> f v = Some w \<Longrightarrow> ok w"
begin

lemma published_ok:
  assumes "cow_reach ops v c" "ok v"
  shows "\<forall>w\<in>set (history c). ok w"
proof -
  have chain: "chain_of ops (history c)" and hd: "history c \<noteq> []" "hd (history c) = v"
    using cow_chain [OF assms(1)] by auto
  have "ok (history c ! i)" if "i < length (history c)" for i
    using that
  proof (induction i)
    case 0
    then show ?case using hd assms(2) by (simp add: hd_conv_nth)
  next
    case (Suc i)
    then show ?case using chain ops_ok unfolding chain_of_def by (metis Suc_lessD)
  qed
  then show ?thesis by (metis in_set_conv_nth)
qed

end

definition map_ops :: "visit \<Rightarrow> ((string \<rightharpoonup> string) \<Rightarrow> (string \<rightharpoonup> string) option) set" where
  "map_ops order =
     {f. (\<exists>key val. f = Some \<circ> map_Insert order key val) \<or> (\<exists>key. f = Some \<circ> map_Remove order key) \<or>
         (\<exists>m. finite (dom m) \<and> (f = Some \<circ> map_Update order m \<or> f = Some \<circ> map_Reset order m))}"

lemma finite_map_copy: "finite (dom dst) \<Longrightarrow> finite (dom (map_copy dst src))"
  by (induction dst src rule: map_copy.induct) simp_all

interpretation cow_map: cow_container "map_ops order" "\<lambda>m. finite (dom m)" for order
  by unfold_locales
    (auto simp: map_ops_def map_Insert_def map_Remove_def map_Update_def map_Reset_def map_dup_def finite_map_copy)

text \<open>
  Without \<open>Remove\<close> and \<open>Reset\<close> an array keeps its length, so an index that was good once stays good
  for every reader.
\<close>

definition array_keeping_ops :: "('a cells \<Rightarrow> 'a cells option) set" where
  "array_keeping_ops = {f. (\<exists>i val. f = array_Set i val) \<or> (\<exists>m. f = array_Update m)}"

lemma array_copy_length: "array_copy dst src k = Some r \<Longrightarrow> length r = length dst"
  by (induction dst src k rule: array_copy.induct) (auto split: if_splits)

interpretation cow_array: cow_container array_keeping_ops "\<lambda>m. length m = n" for n
  by unfold_locales (auto simp: array_keeping_ops_def array_Set_value array_Update_def dest: array_copy_length split: if_splits)

lemma array_reader_in_range:
  assumes "cow_reach array_keeping_ops v c" "0 \<le> i" "nat i < length v" "w \<in> set (history c)"
  shows "\<exists>x. array_Get w i = Some x"
  using cow_array.published_ok [OF assms(1) refl] assms by (auto simp: array_Get_def)

text \<open>The published map always has finitely many keys, so that visiting it ends.\<close>

lemma map_readers_finite:
  assumes "cow_reach (map_ops order) m c" "finite (dom m)"
  shows "finite (dom (published c))"
  using cow_map.published_ok [OF assms] cow_chain [OF assms(1)] by (metis last_in_set)

end
