(* ===== verification/Header_Write.thy ===== *)
theory Header_Write
  imports Go_Textproto "HOL-Library.List_Lexorder" "HOL-Library.Char_ord"
begin

text \<open>
  Writing a header in wire format, \<open>pkg/protocol/http/header.go\<close>: keys sorted, values cleaned from line
  ends and outer blanks, each value on a line of its own. A writer accepts a number of strings and
  then fails; the trace callback is a list of its calls.
\<close>

section \<open>Operations\<close>

definition headerNewlineToSpace :: "string \<Rightarrow> string" where
  "headerNewlineToSpace v = map (\<lambda>c. if c = LF \<or> c = CR then CHR '' '' else c) v"

text \<open>\<open>textproto.TrimString\<close>.\<close>

definition is_ascii_space :: "char \<Rightarrow> bool" where
  "is_ascii_space c \<longleftrightarrow> c = CHR '' '' \<or> c = TAB \<or> c = LF \<or> c = CR"

definition TrimString :: "string \<Rightarrow> string" where
  "TrimString s = rev (dropWhile is_ascii_space (rev (dropWhile is_ascii_space s)))"

definition clean_value :: "string \<Rightarrow> string" where
  "clean_value v = TrimString (headerNewlineToSpace v)"

type_synonym keyValues = "string \<times> string list"

text \<open>
  \<open>sortedKeyValues\<close>: the keys of a map are distinct, so that the order of equal keys does not matter.
\<close>

definition sortedKeyValues :: "string set \<Rightarrow> header \<Rightarrow> keyValues list" where
  "sortedKeyValues exclude h = sort_key fst (filter (\<lambda>(k, vv). k \<notin> exclude) h)"

text \<open>
  \<open>write_strings\<close> writes strings until the writer, which takes \<open>n\<close> more of them, fails: what was
  written, and what the writer still takes, \<open>None\<close> after the failure.
\<close>

fun write_strings :: "string list \<Rightarrow> nat \<Rightarrow> string \<times> nat option" where
  "write_strings [] n = ([], Some n)"
| "write_strings (s # ss) 0 = ([], None)"
| "write_strings (s # ss) (Suc n) = (case write_strings ss n of (out, r) \<Rightarrow> (s @ out, r))"

fun write_values :: "string \<Rightarrow> string list \<Rightarrow> nat \<Rightarrow> string \<times> nat option" where
  "write_values key [] n = ([], Some n)"
| "write_values key (v # vs) n =
     (case write_strings [key, '': '', clean_value v, CRLF] n of
        (out, None) \<Rightarrow> (out, None)
      | (out, Some n') \<Rightarrow> (case write_values key vs n' of (out', r) \<Rightarrow> (out @ out', r)))"

fun write_kvs :: "keyValues list \<Rightarrow> nat \<Rightarrow> string \<times> bool \<times> (string \<times> string list) list" where
  "write_kvs [] n = ([], True, [])"
| "write_kvs ((key, vs) # kvs) n =
     (case write_values key vs n of
        (out, None) \<Rightarrow> (out, False, [])
      | (out, Some n') \<Rightarrow>
          (case write_kvs kvs n' of (out', ok, calls) \<Rightarrow> (out @ out', ok, (key, map clean_value vs) # calls)))"

text \<open>\<open>writeSubset\<close>: the text, whether all was written, and the calls of the trace.\<close>

definition writeSubset :: "string set \<Rightarrow> bool \<Rightarrow> header \<Rightarrow> nat \<Rightarrow> string \<times> bool \<times> (string \<times> string list) list" where
  "writeSubset exclude trace h n =
     (case write_kvs (sortedKeyValues exclude h) n of (out, ok, calls) \<Rightarrow> (out, ok, if trace then calls else []))"

definition header_WriteSubset :: "string set \<Rightarrow> header \<Rightarrow> nat \<Rightarrow> string \<times> bool" where
  "header_WriteSubset exclude h n = (case writeSubset exclude False h n of (out, ok, _) \<Rightarrow> (out, ok))"

definition header_Write :: "header \<Rightarrow> nat \<Rightarrow> string \<times> bool" where
  "header_Write h n = (case writeSubset {} False h n of (out, ok, _) \<Rightarrow> (out, ok))"

text \<open>\<open>ParseTime\<close> tries the formats in order and keeps the last error; \<open>parse\<close> is the library's.\<close>

fun try_formats :: "(string \<Rightarrow> string \<Rightarrow> (string, 't) result) \<Rightarrow> string list \<Rightarrow> string \<Rightarrow> (string, 't) result \<Rightarrow> (string, 't) result" where
  "try_formats parse [] text r = r"
| "try_formats parse (layout # ls) text r =
     (case parse layout text of Inr t \<Rightarrow> Inr t | Inl e \<Rightarrow> try_formats parse ls text (Inl e))"

definition timeFormats :: "string list" where
  "timeFormats = [''Mon, 02 Jan 2006 15:04:05 GMT'', ''Monday, 02-Jan-06 15:04:05 MST'', ''Mon Jan _2 15:04:05 2006'']"

definition ParseTime :: "(string \<Rightarrow> string \<Rightarrow> (string, 't) result) \<Rightarrow> string \<Rightarrow> 't \<Rightarrow> (string, 't) result" where
  "ParseTime parse text zero = try_formats parse timeFormats text (Inr zero)"

text \<open>The first format that fits decides; without one it is the error of the last.\<close>

lemma try_formats_first:
  "try_formats parse ls text r =
   (case find (\<lambda>l. \<exists>t. parse l text = Inr t) ls of
      Some l \<Rightarrow> parse l text
    | None \<Rightarrow> if ls = [] then r else parse (last ls) text)"
proof (induction ls arbitrary: r)
  case (Cons l ls)
  show ?case
  proof (cases "parse l text")
    case (Inl e)
    with Cons.IH [of "Inl e"] show ?thesis by (auto split: option.split)
  qed simp
qed simp

section \<open>What is written\<close>

text \<open>The lines of a header: one for each value.\<close>

definition header_fields :: "keyValues list \<Rightarrow> (string \<times> string) list" where
  "header_fields kvs = concat (map (\<lambda>(k, vs). map (\<lambda>v. (k, clean_value v)) vs) kvs)"

lemma write_strings_all: "length ss \<le> n \<Longrightarrow> write_strings ss n = (concat ss, Some (n - length ss))"
  by (induction ss n rule: write_strings.induct) auto

lemma write_values_all:
  "4 * length vs \<le> n \<Longrightarrow> write_values key vs n = (concat (map field_text (map (\<lambda>v. (key, clean_value v)) vs)), Some (n - 4 * length vs))"
proof (induction vs arbitrary: n)
  case (Cons v vs)
  have "write_strings [key, '': '', clean_value v, CRLF] n = (field_text (key, clean_value v), Some (n - 4))"
    using Cons.prems by (subst write_strings_all) (simp_all add: field_text_def)
  then show ?case using Cons.IH [of "n - 4"] Cons.prems by (simp del: write_strings.simps)
qed simp

lemma write_kvs_all:
  "4 * length (header_fields kvs) \<le> n \<Longrightarrow>
   write_kvs kvs n = (concat (map field_text (header_fields kvs)), True, map (\<lambda>(k, vs). (k, map clean_value vs)) kvs)"
proof (induction kvs arbitrary: n)
  case (Cons kv kvs)
  obtain k vs where kv: "kv = (k, vs)" by fastforce
  have "write_values k vs n = (concat (map field_text (map (\<lambda>v. (k, clean_value v)) vs)), Some (n - 4 * length vs))"
    using Cons.prems by (intro write_values_all) (simp add: header_fields_def kv)
  then show ?case using Cons.IH [of "n - 4 * length vs"] Cons.prems by (simp add: kv header_fields_def)
qed (simp add: header_fields_def)

text \<open>A writer that takes everything gets all fields, in the order of their keys.\<close>

lemma header_Write_all:
  assumes "4 * length (header_fields (sort_key fst h)) \<le> n"
  shows "header_Write h n = (concat (map field_text (header_fields (sort_key fst h))), True)"
  using write_kvs_all [OF assms] by (simp add: header_Write_def writeSubset_def sortedKeyValues_def)

text \<open>When the writer fails, a beginning of that text has been written.\<close>

lemma write_strings_prefix: "prefix (fst (write_strings ss n)) (concat ss)"
  by (induction ss n rule: write_strings.induct) (auto split: prod.splits)

lemma write_strings_done: "snd (write_strings ss n) = Some m \<Longrightarrow> fst (write_strings ss n) = concat ss"
  by (induction ss n arbitrary: m rule: write_strings.induct) (auto split: prod.splits)

lemma write_values_prefix:
  "prefix (fst (write_values key vs n)) (concat (map field_text (map (\<lambda>v. (key, clean_value v)) vs))) \<and>
   (\<forall>m. snd (write_values key vs n) = Some m \<longrightarrow> fst (write_values key vs n) = concat (map field_text (map (\<lambda>v. (key, clean_value v)) vs)))"
proof (induction vs arbitrary: n)
  case (Cons v vs)
  let ?ss = "[key, '': '', clean_value v, CRLF]"
  obtain out r where w: "write_strings ?ss n = (out, r)" by fastforce
  have t: "concat ?ss = field_text (key, clean_value v)" by (simp add: field_text_def)
  have p: "prefix out (field_text (key, clean_value v))" using write_strings_prefix [of ?ss n] w t by simp
  show ?case
  proof (cases r)
    case None
    with w p show ?thesis by (simp del: write_strings.simps add: prefix_def) (metis append.assoc)
  next
    case (Some m)
    then have "out = field_text (key, clean_value v)" using write_strings_done [of ?ss n m] w t by simp
    with w Some Cons.IH [of m] show ?thesis by (auto simp del: write_strings.simps split: prod.split)
  qed
qed simp

lemma write_kvs_prefix: "prefix (fst (write_kvs kvs n)) (concat (map field_text (header_fields kvs)))"
proof (induction kvs arbitrary: n)
  case (Cons kv kvs)
  obtain k vs where kv: "kv = (k, vs)" by fastforce
  obtain out r where w: "write_values k vs n = (out, r)" by fastforce
  have "prefix out (concat (map field_text (map (\<lambda>v. (k, clean_value v)) vs)))" using write_values_prefix [of k vs n] w by simp
  moreover have "r = Some m \<Longrightarrow> out = concat (map field_text (map (\<lambda>v. (k, clean_value v)) vs))" for m
    using write_values_prefix [of k vs n] w by simp
  moreover have "prefix out' (concat (map field_text (header_fields kvs)))" if "write_kvs kvs m = (out', x)" for m out' x
    using Cons.IH [of m] that by simp
  ultimately show ?case
    using w by (cases r) (auto simp: kv header_fields_def intro: prefix_order.trans split: prod.split)
qed simp

section \<open>Reading back\<close>

lemma dropWhile_rev_last: "dropWhile P (rev xs) \<noteq> [] \<Longrightarrow> \<not> P (last (rev (dropWhile P (rev xs))))"
  by (simp add: last_rev hd_dropWhile)

lemma TrimString_ends:
  assumes "TrimString s \<noteq> []"
  shows "\<not> is_ascii_space (hd (TrimString s))" "\<not> is_ascii_space (last (TrimString s))" "set (TrimString s) \<subseteq> set s"
proof -
  let ?d = "dropWhile is_ascii_space s"
  have ne: "dropWhile is_ascii_space (rev ?d) \<noteq> []" using assms by (simp add: TrimString_def del: dropWhile_eq_Nil_conv)
  then have ne': "?d \<noteq> []" by force
  show "\<not> is_ascii_space (last (TrimString s))" using dropWhile_rev_last [OF ne] by (simp add: TrimString_def)
  obtain ys where "rev ?d = ys @ dropWhile is_ascii_space (rev ?d)" by (metis takeWhile_dropWhile_id)
  then have d: "?d = TrimString s @ rev ys" by (metis TrimString_def rev_append rev_rev_ident)
  then have "hd (TrimString s) = hd ?d" using assms by (metis hd_append2)
  then show "\<not> is_ascii_space (hd (TrimString s))" using hd_dropWhile [OF ne'] by simp
  show "set (TrimString s) \<subseteq> set s" using set_dropWhile_subset [of is_ascii_space "rev ?d"] set_dropWhile_subset [of is_ascii_space s] by (simp add: TrimString_def)
qed

text \<open>No line end survives the cleaning, so that a value cannot start a line of its own.\<close>

lemma clean_value_no_line_end: "LF \<notin> set (clean_value v)" "CR \<notin> set (clean_value v)"
proof -
  have "LF \<notin> set (headerNewlineToSpace v)" "CR \<notin> set (headerNewlineToSpace v)"
    by (auto simp: headerNewlineToSpace_def LF_def CR_def char_of_def bit_0)
  moreover have "set (clean_value v) \<subseteq> set (headerNewlineToSpace v)"
    using TrimString_ends(3) [of "headerNewlineToSpace v"] by (cases "clean_value v = []") (auto simp: clean_value_def)
  ultimately show "LF \<notin> set (clean_value v)" "CR \<notin> set (clean_value v)" by auto
qed

definition writable :: "keyValues \<Rightarrow> bool" where
  "writable = (\<lambda>(k, vs).
     k \<noteq> [] \<and> list_all validHeaderFieldByte k \<and> canonical_case True k = k \<and>
     (\<forall>v\<in>set vs. clean_value v \<noteq> [] \<and> (\<forall>c\<in>set v. validHeaderValueByte c \<or> c = LF \<or> c = CR)))"

lemma writable_plain:
  assumes "writable (k, vs)" "v \<in> set vs"
  shows "plain_field (k, clean_value v)"
proof -
  let ?c = "clean_value v"
  have ne: "?c \<noteq> []" using assms by (auto simp: writable_def)
  have "set ?c \<subseteq> set (headerNewlineToSpace v)" using TrimString_ends(3) ne by (simp add: clean_value_def)
  moreover have "\<forall>c\<in>set (headerNewlineToSpace v). validHeaderValueByte c"
    using assms by (auto simp: writable_def headerNewlineToSpace_def validHeaderValueByte_def)
  moreover have "\<not> is_blank (hd ?c)" "\<not> is_blank (last ?c)"
    using TrimString_ends(1,2) [of "headerNewlineToSpace v"] ne by (auto simp: clean_value_def is_blank_def is_ascii_space_def)
  ultimately show ?thesis using assms(1) ne by (auto simp: writable_def plain_field_def list_all_iff)
qed

text \<open>Reading lines of any keys, which may repeat.\<close>

definition add_field :: "header \<Rightarrow> string \<times> string \<Rightarrow> header" where
  "add_field h = (\<lambda>(k, v). header_append h k v)"

lemma mime_line_append:
  assumes "plain_field (k, v)"
  shows "mime_line (k @ '': '' @ v) h = Some (add_field h (k, v))"
proof -
  have "CHR '':'' \<notin> set k" using assms field_byte_plain(1) by (auto simp: plain_field_def list_all_iff)
  then have "IndexByte (k @ CHR '':'' # CHR '' '' # v) CHR '':'' = Some (length k)" by (rule IndexByte_append)
  moreover have "dropWhile is_blank (CHR '' '' # v) = v"
    using assms by (cases v) (auto simp: plain_field_def is_blank_def)
  ultimately show ?thesis
    using assms by (simp add: mime_line_def plain_field_def canonicalMIMEHeaderKey_plain validHeaderValueByte_def add_field_def)
qed

lemma fields_start:
  assumes "list_all plain_field fs"
  shows "concat (map field_text fs) @ CRLF @ rest \<noteq> []" "\<not> is_blank (hd (concat (map field_text fs) @ CRLF @ rest))"
proof -
  show "concat (map field_text fs) @ CRLF @ rest \<noteq> []" by (simp add: CRLF_def)
  have "\<not> is_blank (hd (field_text g))" if "plain_field g" for g
    using that field_byte_plain(2) by (cases "fst g") (auto simp: plain_field_def field_text_def)
  moreover have "field_text g \<noteq> []" for g by (simp add: field_text_def split: prod.split)
  ultimately show "\<not> is_blank (hd (concat (map field_text fs) @ CRLF @ rest))"
    using assms control_neq(1) by (cases fs) (auto simp: CRLF_def)
qed

lemma mime_loop_all_fields:
  assumes "list_all plain_field fs" "unread s = concat (map field_text fs) @ CRLF @ rest"
  shows "mime_loop s h = (Inr (foldl add_field h fs), s\<lparr>unread := rest\<rparr>)"
  using assms
proof (induction fs arbitrary: h s)
  case Nil
  then have "ReadLine s = (Inr [], s\<lparr>unread := rest\<rparr>)" using ReadLine_CRLF [of s "[]"] by simp
  then show ?case by (subst mime_loop.simps) (simp add: readContinuedLine_def)
next
  case (Cons f fs)
  obtain k v where f: "f = (k, v)" by (cases f)
  let ?rest = "concat (map field_text fs) @ CRLF @ rest"
  have "list_all plain_field fs" using Cons.prems(1) by simp
  note start = fields_start [OF this, of rest]
  have line: "readContinuedLine s = (Inr (k @ '': '' @ v), s\<lparr>unread := ?rest\<rparr>)"
    using readContinuedLine_plain [of k v s ?rest] Cons.prems start by (simp add: f)
  have "mime_loop (s\<lparr>unread := ?rest\<rparr>) (add_field h (k, v)) =
      (Inr (foldl add_field (add_field h (k, v)) fs), (s\<lparr>unread := ?rest\<rparr>)\<lparr>unread := rest\<rparr>)"
    using Cons.prems by (intro Cons.IH) simp_all
  with line mime_line_append [of k v h] Cons.prems(1) show ?case by (subst mime_loop.simps) (simp add: f)
qed

lemma add_fields_key:
  assumes "k \<notin> fst ` set h"
  shows "foldl add_field (h @ [(k, us)]) (map (\<lambda>v. (k, v)) vs) = h @ [(k, us @ vs)]"
proof (induction vs arbitrary: us)
  case (Cons v vs)
  have "header_put (h @ [(k, us)]) k ws = h @ [(k, ws)]" for ws
    using assms by (induction h) auto
  moreover have "map_of (h @ [(k, us)]) k = Some us" using assms by (simp add: map_add_def map_of_eq_None_iff [THEN iffD2])
  ultimately have "add_field (h @ [(k, us)]) (k, v) = h @ [(k, us @ [v])]" by (simp add: add_field_def header_append_def)
  with Cons.IH [of "us @ [v]"] show ?case by simp
qed simp

lemma add_fields_new:
  assumes "k \<notin> fst ` set h" "vs \<noteq> []"
  shows "foldl add_field h (map (\<lambda>v. (k, v)) vs) = h @ [(k, vs)]"
proof -
  obtain w ws where vs: "vs = w # ws" using assms(2) by (cases vs) auto
  have "add_field h (k, w) = h @ [(k, [w])]"
    using assms(1) by (simp add: add_field_def header_append_def header_put_new map_of_eq_None_iff [THEN iffD2])
  with add_fields_key [OF assms(1), of "[w]" ws] vs show ?thesis by simp
qed

definition cleaned :: "keyValues list \<Rightarrow> header" where
  "cleaned kvs = map (\<lambda>(k, vs). (k, map clean_value vs)) (filter (\<lambda>(k, vs). vs \<noteq> []) kvs)"

lemma add_fields_header:
  assumes "distinct (map fst kvs)" "fst ` set kvs \<inter> fst ` set h = {}"
  shows "foldl add_field h (header_fields kvs) = h @ cleaned kvs"
  using assms
proof (induction kvs arbitrary: h)
  case (Cons kv kvs)
  obtain k vs where kv: "kv = (k, vs)" by fastforce
  have hf: "header_fields (kv # kvs) = map (\<lambda>v. (k, v)) (map clean_value vs) @ header_fields kvs"
    by (simp add: header_fields_def kv comp_def)
  show ?case
  proof (cases "vs = []")
    case True
    with Cons hf show ?thesis by (simp add: kv cleaned_def)
  next
    case False
    have "foldl add_field h (map (\<lambda>v. (k, v)) (map clean_value vs)) = h @ [(k, map clean_value vs)]"
      using Cons.prems False by (intro add_fields_new) (auto simp: kv)
    then show ?thesis
      unfolding hf using Cons.IH [of "h @ [(k, map clean_value vs)]"] Cons.prems False by (auto simp: kv cleaned_def)
  qed
qed (simp add: header_fields_def cleaned_def)

text \<open>
  Writing and reading back: a header with canonical keys is read as it was, in the order of the
  keys, with the values cleaned; nothing that a value contains is read as another field.
\<close>

lemma header_roundtrip:
  assumes "distinct (map fst h)" "list_all writable h" "4 * length (header_fields (sort_key fst h)) \<le> n"
    and "unread s = fst (header_Write h n) @ CRLF @ rest"
  shows "ReadMIMEHeader s = (Inr (cleaned (sort_key fst h)), s\<lparr>unread := rest\<rparr>)"
proof -
  let ?kvs = "sort_key fst h"
  have fs: "list_all plain_field (header_fields ?kvs)"
    using assms(2) writable_plain by (fastforce simp: header_fields_def list_all_iff)
  have u: "unread s = concat (map field_text (header_fields ?kvs)) @ CRLF @ rest"
    using assms(4) header_Write_all [OF assms(3)] by simp
  have d: "distinct (map fst ?kvs)"
    using assms(1) by (metis distinct_map distinct_sort set_sort)
  have "\<not> is_blank (hd (unread s))" unfolding u by (rule fields_start(2) [OF fs])
  then have "ReadMIMEHeader s = mime_loop s []" by (simp add: ReadMIMEHeader_def)
  with mime_loop_all_fields [OF fs u, of "[]"] add_fields_header [OF d, of "[]"] show ?thesis by simp
qed

end
