(* ===== verification/Traffic_Log.thy ===== *)
theory Traffic_Log
  imports Original_Dst Client_Hello
begin

text \<open>
  The line that is logged for a connection, \<open>cmd/proxy/traffic_log.go\<close>: what is known about it is
  collected in a record and printed. Reading the server name only peeks, so it changes nothing.
\<close>

record traffic_metadata =
  tm_direction :: string
  tm_proto :: string
  tm_domain :: string
  tm_targetIP :: string
  tm_targetPort :: string
  tm_remoteAddr :: string
  tm_localAddr :: string

definition splitHostPort :: "string \<Rightarrow> string \<times> string" where
  "splitHostPort addr = (case SplitHostPort addr of Inr (host, port) \<Rightarrow> (host, port) | Inl e \<Rightarrow> (addr, ''-''))"

text \<open>\<open>remote\<close> and \<open>local\<close> are the addresses of the connection.\<close>

definition newTrafficMetadata :: "string \<Rightarrow> string \<Rightarrow> string \<Rightarrow> string \<Rightarrow> traffic_metadata" where
  "newTrafficMetadata direction remote local targetAddr =
     (case splitHostPort targetAddr of (host, port) \<Rightarrow>
        \<lparr>tm_direction = direction, tm_proto = ''tcp'', tm_domain = ''-'', tm_targetIP = host, tm_targetPort = port,
         tm_remoteAddr = remote, tm_localAddr = local\<rparr>)"

definition withProto :: "string \<Rightarrow> traffic_metadata \<Rightarrow> traffic_metadata" where
  "withProto proto m = m\<lparr>tm_proto := proto\<rparr>"

definition withDomain :: "string \<Rightarrow> traffic_metadata \<Rightarrow> traffic_metadata" where
  "withDomain domain m = (if domain \<noteq> [] then m\<lparr>tm_domain := domain\<rparr> else m)"

definition tm_log :: "traffic_metadata \<Rightarrow> string" where
  "tm_log m = ''traffic direction='' @ tm_direction m @ '' proto='' @ tm_proto m @ '' domain='' @ tm_domain m @
     '' target_ip='' @ tm_targetIP m @ '' target_port='' @ tm_targetPort m @ '' remote_addr='' @ tm_remoteAddr m @
     '' local_addr='' @ tm_localAddr m"

definition with_request_port :: "request \<Rightarrow> traffic_metadata \<Rightarrow> traffic_metadata" where
  "with_request_port req m = (if 0 < r_Port req then m\<lparr>tm_targetPort := Itoa (r_Port req)\<rparr> else m)"

definition logHTTPRequest :: "string \<Rightarrow> string \<Rightarrow> string \<Rightarrow> string \<Rightarrow> request \<Rightarrow> traffic_metadata" where
  "logHTTPRequest direction remote local targetAddr req =
     (let meta = withDomain (TargetDomain req) (withProto ''http'' (newTrafficMetadata direction remote local targetAddr));
          meta' = (if Method req = ''CONNECT'' then withProto ''connect'' meta else meta)
      in with_request_port req meta')"

definition logTCPConnection :: "string \<Rightarrow> string \<Rightarrow> string \<Rightarrow> string \<Rightarrow> traffic_metadata" where
  "logTCPConnection direction remote local targetAddr = newTrafficMetadata direction remote local targetAddr"

definition logTLSConnection :: "string \<Rightarrow> string \<Rightarrow> string \<Rightarrow> string \<Rightarrow> reader \<Rightarrow> traffic_metadata" where
  "logTLSConnection direction remote local targetAddr reader =
     (let meta = newTrafficMetadata direction remote local targetAddr in
      case PeekClientHelloServerName reader of
        (serverName, True, None) \<Rightarrow> withDomain serverName (withProto ''tls'' meta)
      | _ \<Rightarrow> meta)"

definition logUpgradedConnection :: "string \<Rightarrow> string \<Rightarrow> string \<Rightarrow> string \<Rightarrow> request \<Rightarrow> string \<Rightarrow> traffic_metadata" where
  "logUpgradedConnection direction remote local targetAddr req upgradeType =
     (let meta = withDomain (TargetDomain req) (newTrafficMetadata direction remote local targetAddr);
          meta' = withProto (if EqualFold upgradeType ''websocket'' then ''websocket'' else upgradeType) meta
      in with_request_port req meta')"

text \<open>The log of a redirected connection names the address and the port that the kernel reported.\<close>

lemma logged_target:
  assumes "GetOriginalDst nilConn nilAddr fileOk (Some m) cn = Inr (raw, dst)"
  shows "tm_targetIP (logTCPConnection direction remote local dst) = dotted (sockaddr_ip m) \<and>
    tm_targetPort (logTCPConnection direction remote local dst) = nat_digits (unat (sockaddr_port m))"
proof -
  have "dst = host_text (sockaddr_ip m) (sockaddr_port m)"
    using assms by (auto simp: GetOriginalDst_def split: if_splits option.splits bool.splits)
  then show ?thesis
    by (simp add: logTCPConnection_def newTrafficMetadata_def splitHostPort_def SplitHostPort_host_text del: dotted.simps)
qed

text \<open>A TLS connection is logged under the server name of its hello, when there is one.\<close>

lemma logged_server_name:
  assumes "PeekClientHelloServerName reader = (name, True, None)" "name \<noteq> []"
  shows "tm_proto (logTLSConnection d r l t reader) = ''tls'' \<and> tm_domain (logTLSConnection d r l t reader) = name"
  using assms by (simp add: logTLSConnection_def withDomain_def withProto_def)

text \<open>
  The domain is printed as it came: a name with a blank or a line feed makes further fields, so
  the line does not determine what was logged.
\<close>

lemma log_line_ambiguous:
  "\<exists>m m'. m \<noteq> m' \<and> tm_log m = tm_log m'"
proof -
  let ?m = "\<lparr>tm_direction = ''outbound'', tm_proto = ''tls'', tm_domain = ''a target_ip=b'', tm_targetIP = ''c'', tm_targetPort = ''1'',
     tm_remoteAddr = ''r'', tm_localAddr = ''l''\<rparr>"
  let ?m' = "?m\<lparr>tm_domain := ''a'', tm_targetIP := ''b target_ip=c''\<rparr>"
  have "?m \<noteq> ?m'" "tm_log ?m = tm_log ?m'" by (simp_all add: tm_log_def)
  then show ?thesis by blast
qed

end
