(* ===== verification/Log_Options.thy ===== *)
theory Log_Options
  imports Go_Strings
begin

text \<open>
  Options of the logger, \<open>pkg/log/options.go\<close>: levels and their order, the lists of scoped levels
  that are kept as comma separated text, and the reading and writing of single entries in them.
\<close>

section \<open>Levels\<close>

datatype level = NoneLevel | FatalLevel | ErrorLevel | WarnLevel | InfoLevel | DebugLevel

fun level_rank :: "level \<Rightarrow> nat" where
  "level_rank NoneLevel = 0"
| "level_rank FatalLevel = 1"
| "level_rank ErrorLevel = 2"
| "level_rank WarnLevel = 3"
| "level_rank InfoLevel = 4"
| "level_rank DebugLevel = 5"

instantiation level :: linorder
begin

definition less_eq_level :: "level \<Rightarrow> level \<Rightarrow> bool" where
  "less_eq_level a b \<longleftrightarrow> level_rank a \<le> level_rank b"

definition less_level :: "level \<Rightarrow> level \<Rightarrow> bool" where
  "less_level a b \<longleftrightarrow> level_rank a < level_rank b"

instance
proof
  fix a b :: level
  show "a \<le> b \<Longrightarrow> b \<le> a \<Longrightarrow> a = b" by (cases a; cases b) (simp_all add: less_eq_level_def)
qed (auto simp: less_eq_level_def less_level_def)

end

fun levelToString :: "level \<Rightarrow> string" where
  "levelToString DebugLevel = ''debug''"
| "levelToString InfoLevel = ''info''"
| "levelToString WarnLevel = ''warn''"
| "levelToString ErrorLevel = ''error''"
| "levelToString FatalLevel = ''fatal''"
| "levelToString NoneLevel = ''none''"

definition stringToLevel :: "string \<rightharpoonup> level" where
  "stringToLevel = map_of [(''debug'', DebugLevel), (''info'', InfoLevel), (''warn'', WarnLevel),
     (''error'', ErrorLevel), (''fatal'', FatalLevel), (''none'', NoneLevel)]"

lemma stringToLevel_levelToString [simp]: "stringToLevel (levelToString l) = Some l"
  by (cases l) (simp_all add: stringToLevel_def)

lemma levelToString_no_sep [simp]: "CHR '':'' \<notin> set (levelToString l)" "CHR '','' \<notin> set (levelToString l)"
  by (cases l; simp)+

section \<open>Options\<close>

definition DefaultScopeName :: string where "DefaultScopeName = ''default''"
definition OverrideScopeName :: string where "OverrideScopeName = ''all''"

record log_options =
  lo_OutputPaths :: "string list"
  lo_ErrorOutputPaths :: "string list"
  lo_RotateOutputPath :: string
  lo_RotationMaxSize :: int
  lo_RotationMaxAge :: int
  lo_RotationMaxBackups :: int
  lo_JSONEncoding :: bool
  lo_LogGrpc :: bool
  lo_outputLevels :: string
  lo_logCallers :: string
  lo_stackTraceLevels :: string
  lo_useStackdriverFormat :: bool
  lo_tee :: "(string \<times> string \<times> string \<times> string) option"
  lo_uds :: "(string \<times> string) option"

definition DefaultOptions :: log_options where
  "DefaultOptions = \<lparr>lo_OutputPaths = [''stdout''], lo_ErrorOutputPaths = [''stderr''], lo_RotateOutputPath = [],
     lo_RotationMaxSize = 100 * 1024 * 1024, lo_RotationMaxAge = 30, lo_RotationMaxBackups = 1000,
     lo_JSONEncoding = False, lo_LogGrpc = False,
     lo_outputLevels = DefaultScopeName @ '':'' @ levelToString InfoLevel, lo_logCallers = [],
     lo_stackTraceLevels = DefaultScopeName @ '':'' @ levelToString NoneLevel,
     lo_useStackdriverFormat = False, lo_tee = None, lo_uds = None\<rparr>"

definition WithStackdriverLoggingFormat :: "log_options \<Rightarrow> log_options" where
  "WithStackdriverLoggingFormat opts = opts\<lparr>lo_useStackdriverFormat := True\<rparr>"

text \<open>Target project, quota project, name of the log and the monitored resource.\<close>

definition WithTeeToStackdriver :: "string \<Rightarrow> string \<Rightarrow> string \<Rightarrow> log_options \<Rightarrow> log_options" where
  "WithTeeToStackdriver project logName mr opts = opts\<lparr>lo_tee := Some (project, project, logName, mr)\<rparr>"

definition WithTeeToStackdriverWithQuotaProject ::
  "string \<Rightarrow> string \<Rightarrow> string \<Rightarrow> string \<Rightarrow> log_options \<Rightarrow> log_options" where
  "WithTeeToStackdriverWithQuotaProject project quotaProject logName mr opts =
     opts\<lparr>lo_tee := Some (project, quotaProject, logName, mr)\<rparr>"

definition WithTeeToUDS :: "string \<Rightarrow> string \<Rightarrow> log_options \<Rightarrow> log_options" where
  "WithTeeToUDS addr path opts = opts\<lparr>lo_uds := Some (addr, path)\<rparr>"

section \<open>Scoped levels\<close>

datatype level_error = InvalidFormat string | InvalidLevel string | NoLevelDefined string

definition convertScopedLevel :: "string \<Rightarrow> (level_error, string \<times> level) result" where
  "convertScopedLevel sl =
     (case (case split_on CHR '':'' sl of
              [l] \<Rightarrow> Some (DefaultScopeName, l)
            | [s, l] \<Rightarrow> Some (s, l)
            | _ \<Rightarrow> None) of
        None \<Rightarrow> Inl (InvalidFormat sl)
      | Some (s, l) \<Rightarrow>
          (case stringToLevel l of None \<Rightarrow> Inl (InvalidLevel sl) | Some lvl \<Rightarrow> Inr (s, lvl)))"

definition plain_entry :: "string \<Rightarrow> bool" where
  "plain_entry ol \<longleftrightarrow> CHR '':'' \<notin> set ol"

definition scope_entry :: "string \<Rightarrow> string \<Rightarrow> bool" where
  "scope_entry scope ol \<longleftrightarrow> HasPrefix ol (scope @ '':'')"

text \<open>\<open>levels[i] = sl\<close> at the first entry that satisfies a condition.\<close>

fun replace_first :: "('a \<Rightarrow> bool) \<Rightarrow> 'a \<Rightarrow> 'a list \<Rightarrow> 'a list option" where
  "replace_first P y [] = None"
| "replace_first P y (x # xs) = (if P x then Some (y # xs) else map_option ((#) x) (replace_first P y xs))"

definition or_else :: "'a option \<Rightarrow> 'a option \<Rightarrow> 'a option" where
  "or_else a b = (case a of None \<Rightarrow> b | Some x \<Rightarrow> Some x)"

definition set_scope_level :: "string \<Rightarrow> level \<Rightarrow> string \<Rightarrow> string" where
  "set_scope_level scope lvl arg =
     (let sl = scope @ '':'' @ levelToString lvl;
          levels = split_on CHR '','' arg;
          found = or_else (if scope = DefaultScopeName then replace_first plain_entry sl levels else None)
                    (replace_first (scope_entry scope) sl levels)
      in join_with '','' (case found of Some ls \<Rightarrow> ls | None \<Rightarrow> levels @ [sl]))"

definition get_scope_level :: "string \<Rightarrow> string \<Rightarrow> (level_error, level) result" where
  "get_scope_level scope arg =
     (let levels = split_on CHR '','' arg;
          found = or_else (if scope = DefaultScopeName then find plain_entry levels else None)
                    (find (scope_entry scope) levels)
      in case found of
           Some ol \<Rightarrow> and_then (convertScopedLevel ol) (\<lambda>(s, l). Inr l)
         | None \<Rightarrow> Inl (NoLevelDefined scope))"

definition SetOutputLevel :: "string \<Rightarrow> level \<Rightarrow> log_options \<Rightarrow> log_options" where
  "SetOutputLevel scope lvl opts = opts\<lparr>lo_outputLevels := set_scope_level scope lvl (lo_outputLevels opts)\<rparr>"

definition GetOutputLevel :: "string \<Rightarrow> log_options \<Rightarrow> (level_error, level) result" where
  "GetOutputLevel scope opts = get_scope_level scope (lo_outputLevels opts)"

definition SetStackTraceLevel :: "string \<Rightarrow> level \<Rightarrow> log_options \<Rightarrow> log_options" where
  "SetStackTraceLevel scope lvl opts = opts\<lparr>lo_stackTraceLevels := set_scope_level scope lvl (lo_stackTraceLevels opts)\<rparr>"

definition GetStackTraceLevel :: "string \<Rightarrow> log_options \<Rightarrow> (level_error, level) result" where
  "GetStackTraceLevel scope opts = get_scope_level scope (lo_stackTraceLevels opts)"

definition SetLogCallers :: "string \<Rightarrow> bool \<Rightarrow> log_options \<Rightarrow> log_options" where
  "SetLogCallers scope include opts =
     (let scopes = map (\<lambda>s. if s = scope then [] else s) (split_on CHR '','' (lo_logCallers opts));
          scopes' = (if include
                     then (case replace_first (\<lambda>s. s = []) scope scopes of Some ss \<Rightarrow> ss | None \<Rightarrow> scopes @ [scope])
                     else scopes)
      in opts\<lparr>lo_logCallers := join_with '','' scopes'\<rparr>)"

definition GetLogCallers :: "string \<Rightarrow> log_options \<Rightarrow> bool" where
  "GetLogCallers scope opts \<longleftrightarrow> scope \<in> set (split_on CHR '','' (lo_logCallers opts))"

section \<open>Reading back what was set\<close>

lemma replace_first_None: "replace_first P y xs = None \<longleftrightarrow> (\<forall>x\<in>set xs. \<not> P x)"
  by (induction xs) auto

lemma replace_first_Some:
  "replace_first P y xs = Some ys \<Longrightarrow>
   \<exists>pre x post. xs = pre @ x # post \<and> P x \<and> (\<forall>z\<in>set pre. \<not> P z) \<and> ys = pre @ y # post"
proof (induction xs arbitrary: ys)
  case (Cons x xs)
  show ?case
  proof (cases "P x")
    case True
    with Cons.prems show ?thesis by (intro exI [of _ "[]"]) auto
  next
    case False
    then obtain zs where zs: "replace_first P y xs = Some zs" "ys = x # zs" using Cons.prems by auto
    from Cons.IH [OF zs(1)] obtain pre z post where "xs = pre @ z # post" "P z" "\<forall>w\<in>set pre. \<not> P w" "zs = pre @ y # post"
      by blast
    with zs(2) False show ?thesis by (intro exI [of _ "x # pre"]) auto
  qed
qed simp

lemma replace_first_length: "replace_first P y xs = Some ys \<Longrightarrow> length ys = length xs"
  by (induction xs arbitrary: ys) (auto split: if_splits)

lemma find_append: "find P (xs @ ys) = (case find P xs of None \<Rightarrow> find P ys | Some x \<Rightarrow> Some x)"
  by (induction xs) auto

lemma convertScopedLevel_entry:
  assumes "CHR '':'' \<notin> set scope"
  shows "convertScopedLevel (scope @ '':'' @ levelToString l) = Inr (scope, l)"
  using assms by (simp add: convertScopedLevel_def split_on_append split_on_atom)

lemma takeWhile_scope: "CHR '':'' \<notin> set s \<Longrightarrow> takeWhile (\<lambda>c. c \<noteq> CHR '':'') (s @ CHR '':'' # r) = s"
  by (induction s) auto

lemma scope_entry_other:
  assumes "CHR '':'' \<notin> set scope" "CHR '':'' \<notin> set scope2" "scope_entry scope ol"
  shows "scope_entry scope2 ol \<longleftrightarrow> scope2 = scope"
proof -
  obtain r where r: "ol = scope @ CHR '':'' # r"
    using assms(3) by (auto simp: scope_entry_def HasPrefix_def prefix_def)
  have "scope2 = scope" if e: "scope_entry scope2 ol"
  proof -
    obtain r2 where r2: "ol = scope2 @ CHR '':'' # r2"
      using e by (auto simp: scope_entry_def HasPrefix_def prefix_def)
    have "takeWhile (\<lambda>c. c \<noteq> CHR '':'') ol = scope" unfolding r by (rule takeWhile_scope [OF assms(1)])
    moreover have "takeWhile (\<lambda>c. c \<noteq> CHR '':'') ol = scope2" unfolding r2 by (rule takeWhile_scope [OF assms(2)])
    ultimately show ?thesis by simp
  qed
  with assms(3) show ?thesis by auto
qed

text \<open>The entries after a change: the old ones with one of them replaced, or the new one at the end.\<close>

definition changed_entries :: "string \<Rightarrow> string \<Rightarrow> string list \<Rightarrow> string list" where
  "changed_entries scope sl levels =
     (case or_else (if scope = DefaultScopeName then replace_first plain_entry sl levels else None)
             (replace_first (scope_entry scope) sl levels) of
        Some ls \<Rightarrow> ls | None \<Rightarrow> levels @ [sl])"

lemma changed_entries_cases:
  obtains (replaced) pre x post where "levels = pre @ x # post" "changed_entries scope sl levels = pre @ sl # post"
      "scope = DefaultScopeName \<and> plain_entry x \<or> scope_entry scope x \<and> (\<forall>z\<in>set pre. \<not> scope_entry scope z)"
    | (appended) "changed_entries scope sl levels = levels @ [sl]" "\<forall>z\<in>set levels. \<not> scope_entry scope z"
proof (cases "if scope = DefaultScopeName then replace_first plain_entry sl levels else None")
  case (Some ls)
  then have "scope = DefaultScopeName" "replace_first plain_entry sl levels = Some ls" by (simp_all split: if_splits)
  moreover have "changed_entries scope sl levels = ls" using Some by (simp add: changed_entries_def or_else_def)
  ultimately show thesis using replaced by (blast dest: replace_first_Some)
next
  case None
  then have c: "changed_entries scope sl levels =
      (case replace_first (scope_entry scope) sl levels of Some ls \<Rightarrow> ls | None \<Rightarrow> levels @ [sl])"
    by (simp add: changed_entries_def or_else_def)
  show thesis
  proof (cases "replace_first (scope_entry scope) sl levels")
    case (Some ls)
    with c have "changed_entries scope sl levels = ls" by simp
    with Some replaced show thesis by (blast dest: replace_first_Some)
  next
    case None
    with c appended show thesis by (simp add: replace_first_None)
  qed
qed

lemma split_set_scope_level:
  assumes "CHR '','' \<notin> set scope"
  shows "split_on CHR '','' (set_scope_level scope l arg) =
    changed_entries scope (scope @ '':'' @ levelToString l) (split_on CHR '','' arg)"
proof -
  let ?sl = "scope @ '':'' @ levelToString l" and ?levels = "split_on CHR '','' arg"
  let ?ce = "changed_entries scope ?sl ?levels"
  have eq: "set_scope_level scope l arg = join_with '','' ?ce"
    by (simp add: set_scope_level_def changed_entries_def Let_def)
  have sl: "CHR '','' \<notin> set ?sl" using assms by simp
  have old: "\<forall>p\<in>set ?levels. CHR '','' \<notin> set p" using split_on_no_sep by blast
  have "?ce \<noteq> [] \<and> (\<forall>p\<in>set ?ce. CHR '','' \<notin> set p)"
    by (rule changed_entries_cases [of ?levels scope ?sl]) (use sl old in auto)
  then show ?thesis unfolding eq by (intro join_split_on) auto
qed

lemma scope_entry_self: "scope_entry scope (scope @ '':'' @ r)"
  by (simp add: scope_entry_def HasPrefix_def prefix_def)

lemma plain_scope_entry: "scope_entry scope x \<Longrightarrow> \<not> plain_entry x"
  by (auto simp: scope_entry_def plain_entry_def HasPrefix_def prefix_def)

text \<open>
  Setting the level of a scope does not change what another scope reads.
\<close>

lemma get_set_other:
  assumes "CHR '':'' \<notin> set scope" "CHR '','' \<notin> set scope" "CHR '':'' \<notin> set scope2" "scope2 \<noteq> scope"
  shows "get_scope_level scope2 (set_scope_level scope l arg) = get_scope_level scope2 arg"
proof -
  let ?sl = "scope @ '':'' @ levelToString l" and ?levels = "split_on CHR '','' arg"
  have n1: "\<not> scope_entry scope2 ?sl" using scope_entry_other [OF assms(1,3) scope_entry_self] assms(4) by simp
  have n2: "\<not> plain_entry ?sl" by (rule plain_scope_entry [OF scope_entry_self])
  have "find (scope_entry scope2) (changed_entries scope ?sl ?levels) = find (scope_entry scope2) ?levels \<and>
      (scope2 = DefaultScopeName \<longrightarrow> find plain_entry (changed_entries scope ?sl ?levels) = find plain_entry ?levels)"
  proof (rule changed_entries_cases [of ?levels scope ?sl])
    fix pre x post
    assume r: "?levels = pre @ x # post" "changed_entries scope ?sl ?levels = pre @ ?sl # post"
      "scope = DefaultScopeName \<and> plain_entry x \<or> scope_entry scope x \<and> (\<forall>z\<in>set pre. \<not> scope_entry scope z)"
    have "\<not> scope_entry scope2 x"
      using r(3) scope_entry_other [OF assms(1,3)] plain_scope_entry assms(4) by blast
    moreover have "scope2 = DefaultScopeName \<Longrightarrow> \<not> plain_entry x" using r(3) plain_scope_entry assms(4) by blast
    ultimately show ?thesis using n1 n2 r(1,2) by (auto simp: find_append split: option.split)
  next
    assume "changed_entries scope ?sl ?levels = ?levels @ [?sl]"
    then show ?thesis using n1 n2 by (auto simp: find_append split: option.split)
  qed
  then show ?thesis by (simp add: get_scope_level_def Let_def split_set_scope_level [OF assms(2)])
qed

text \<open>
  Reading the scope itself gives the level that was set, except in one case: the default scope,
  when its level was listed both without a name and with one, or without a name twice.
\<close>

definition one_default :: "string list \<Rightarrow> bool" where
  "one_default levels \<longleftrightarrow> length (filter (\<lambda>ol. plain_entry ol \<or> scope_entry DefaultScopeName ol) levels) \<le> 1"

lemma get_set_same:
  assumes "CHR '':'' \<notin> set scope" "CHR '','' \<notin> set scope"
    and "scope = DefaultScopeName \<longrightarrow> one_default (split_on CHR '','' arg)"
  shows "get_scope_level scope (set_scope_level scope l arg) = Inr l"
proof -
  let ?sl = "scope @ '':'' @ levelToString l" and ?levels = "split_on CHR '','' arg"
  let ?ce = "changed_entries scope ?sl ?levels"
  have n2: "\<not> plain_entry ?sl" by (rule plain_scope_entry [OF scope_entry_self])
  have "find (scope_entry scope) ?ce = Some ?sl \<and> (scope = DefaultScopeName \<longrightarrow> find plain_entry ?ce = None)"
  proof (rule changed_entries_cases [of ?levels scope ?sl])
    fix pre x post
    assume r: "?levels = pre @ x # post" "?ce = pre @ ?sl # post"
      "scope = DefaultScopeName \<and> plain_entry x \<or> scope_entry scope x \<and> (\<forall>z\<in>set pre. \<not> scope_entry scope z)"
    have d: "\<forall>z\<in>set pre \<union> set post. \<not> plain_entry z \<and> \<not> scope_entry scope z" if "scope = DefaultScopeName"
    proof -
      have "plain_entry x \<or> scope_entry DefaultScopeName x" using r(3) that by auto
      then have "filter (\<lambda>ol. plain_entry ol \<or> scope_entry DefaultScopeName ol) (pre @ post) = []"
        using assms(3) that r(1) by (auto simp: one_default_def)
      then show ?thesis using that by (auto simp: filter_empty_conv)
    qed
    then have "find (scope_entry scope) pre = None" using r(3) by (auto simp: find_None_iff)
    then have "find (scope_entry scope) ?ce = Some ?sl"
      using scope_entry_self [of scope "levelToString l"] r(2) by (simp add: find_append)
    moreover have "scope = DefaultScopeName \<Longrightarrow> find plain_entry ?ce = None"
      using d n2 r(2) by (auto simp: find_None_iff)
    ultimately show ?thesis by blast
  next
    assume a: "?ce = ?levels @ [?sl]" "\<forall>z\<in>set ?levels. \<not> scope_entry scope z"
    have "\<not> plain_entry z" if "scope = DefaultScopeName" "z \<in> set ?levels" for z
    proof
      assume "plain_entry z"
      then have "replace_first plain_entry ?sl ?levels \<noteq> None" using that(2) by (auto simp: replace_first_None)
      then have "?ce = the (replace_first plain_entry ?sl ?levels)"
        using that(1) by (auto simp: changed_entries_def or_else_def)
      moreover have "length (the (replace_first plain_entry ?sl ?levels)) = length ?levels"
        using \<open>replace_first plain_entry ?sl ?levels \<noteq> None\<close> by (auto dest: replace_first_length)
      ultimately show False using a(1) by simp
    qed
    then have "scope = DefaultScopeName \<Longrightarrow> find plain_entry ?levels = None" by (auto simp: find_None_iff)
    moreover have "find (scope_entry scope) ?levels = None" using a(2) by (auto simp: find_None_iff)
    ultimately show ?thesis
      using n2 scope_entry_self [of scope "levelToString l"] unfolding a(1) by (auto simp: find_append)
  qed
  then show ?thesis
    using convertScopedLevel_entry [OF assms(1)]
    unfolding get_scope_level_def or_else_def Let_def split_set_scope_level [OF assms(2)]
    by (cases "scope = DefaultScopeName") auto
qed

text \<open>The exception: the level that is read is not the one that was set.\<close>

lemma get_set_default_differs:
  "get_scope_level ''default'' (set_scope_level ''default'' DebugLevel ''default:info,warn'') = Inr InfoLevel"
  by (simp add: get_scope_level_def set_scope_level_def DefaultScopeName_def plain_entry_def scope_entry_def
      HasPrefix_def or_else_def convertScopedLevel_def stringToLevel_def Let_def)

text \<open>
  Levels of scopes are kept apart: in options whose default scope is listed once at most,
  reading a scope after a level was set gives that level for the same scope, and what was read
  before for any other one.
\<close>

theorem scope_levels_roundtrip:
  assumes "CHR '':'' \<notin> set scope" "CHR '','' \<notin> set scope" "CHR '':'' \<notin> set scope2"
    and "one_default (split_on CHR '','' (lo_outputLevels opts))"
  shows "GetOutputLevel scope2 (SetOutputLevel scope l opts) =
    (if scope2 = scope then Inr l else GetOutputLevel scope2 opts)"
  using assms get_set_other get_set_same by (simp add: GetOutputLevel_def SetOutputLevel_def)

lemma scope_levels_roundtrip_witness:
  "GetOutputLevel ''ads'' (SetOutputLevel ''ads'' DebugLevel DefaultOptions) = Inr DebugLevel \<and>
   GetOutputLevel ''default'' (SetOutputLevel ''ads'' DebugLevel DefaultOptions) = GetOutputLevel ''default'' DefaultOptions"
proof -
  have "one_default (split_on CHR '','' (lo_outputLevels DefaultOptions))"
    by (simp add: one_default_def DefaultOptions_def DefaultScopeName_def)
  from scope_levels_roundtrip [OF _ _ _ this, of "''ads''" "''ads''" DebugLevel]
    scope_levels_roundtrip [OF _ _ _ this, of "''ads''" "''default''" DebugLevel]
  show ?thesis by simp
qed

text \<open>Callers.\<close>

lemma replace_first_set:
  "replace_first (\<lambda>s. s = []) y xs = Some ys \<Longrightarrow> set ys \<subseteq> insert y (set xs) \<and> y \<in> set ys \<and> (\<forall>z\<in>set xs. z \<noteq> [] \<longrightarrow> z \<in> set ys)"
  by (drule replace_first_Some) auto

lemma log_callers_roundtrip:
  assumes "CHR '','' \<notin> set scope" "scope \<noteq> []" "scope2 \<noteq> []"
  shows "GetLogCallers scope2 (SetLogCallers scope include opts) \<longleftrightarrow>
    (if scope2 = scope then include else GetLogCallers scope2 opts)"
proof -
  let ?old = "split_on CHR '','' (lo_logCallers opts)"
  let ?scopes = "map (\<lambda>s. if s = scope then [] else s) ?old"
  let ?new = "if include then (case replace_first (\<lambda>s. s = []) scope ?scopes of Some ss \<Rightarrow> ss | None \<Rightarrow> ?scopes @ [scope]) else ?scopes"
  have rf: "scope \<in> set ss \<and> set ss \<subseteq> insert scope (set ?scopes) \<and> (\<forall>z\<in>set ?scopes. z \<noteq> [] \<longrightarrow> z \<in> set ss)"
    if "replace_first (\<lambda>s. s = []) scope ?scopes = Some ss" for ss
    using replace_first_set [OF that] by blast
  have old: "\<forall>p\<in>set ?old. CHR '','' \<notin> set p" using split_on_no_sep by blast
  then have sc: "\<forall>p\<in>set ?scopes. CHR '','' \<notin> set p" "\<forall>z. z \<noteq> [] \<longrightarrow> z \<in> set ?scopes \<longleftrightarrow> z \<in> set ?old \<and> z \<noteq> scope" by auto
  have new: "?new \<noteq> [] \<and> (\<forall>p\<in>set ?new. CHR '','' \<notin> set p) \<and>
      (scope2 \<in> set ?new \<longleftrightarrow> (if scope2 = scope then include else scope2 \<in> set ?old))"
  proof (cases "include")
    case False
    with sc assms(2,3) show ?thesis by (auto split: if_splits)
  next
    case True
    show ?thesis
    proof (cases "replace_first (\<lambda>s. s = []) scope ?scopes")
      case None
      with True sc assms show ?thesis by auto
    next
      case (Some ss)
      note ss = rf [OF Some]
      have "ss \<noteq> []" "\<forall>p\<in>set ss. CHR '','' \<notin> set p" using ss sc(1) assms(1) by auto
      moreover have "scope2 \<in> set ss \<longleftrightarrow> scope2 = scope \<or> scope2 \<in> set ?old"
        using ss sc(2) assms(3) by blast
      ultimately show ?thesis using True Some by simp
    qed
  qed
  then have "split_on CHR '','' (join_with '','' ?new) = ?new" by (intro join_split_on) auto
  moreover note new
  ultimately show ?thesis by (simp add: GetLogCallers_def SetLogCallers_def Let_def)
qed

end
