(* ===== verification/Log_Scope.thy ===== *)
theory Log_Scope
  imports Log_Options
begin

text \<open>
  Logging scopes: \<open>pkg/log/scope.go\<close>, the part of \<open>config.go\<close> that applies options to scopes, and
  the handler of \<open>zapcore_handler.go\<close> that turns a call into an entry. The sinks and encoders below
  the entry belong to a library. Formatting functions are arguments.

  The keys of the labels are a Go slice. Copies of a scope share its array, so slices are
  references into a heap of arrays here.
\<close>

section \<open>Slices of keys\<close>

record slice =
  sl_arr :: nat
  sl_len :: nat
  sl_cap :: nat

record key_heap =
  kh_next :: nat
  kh_cell :: "nat \<Rightarrow> nat \<Rightarrow> string"

definition slice_keys :: "key_heap \<Rightarrow> slice \<Rightarrow> string list" where
  "slice_keys h sl = map (kh_cell h (sl_arr sl)) [0..<sl_len sl]"

definition write_cell :: "nat \<Rightarrow> nat \<Rightarrow> string \<Rightarrow> key_heap \<Rightarrow> key_heap" where
  "write_cell a i x h = h\<lparr>kh_cell := (kh_cell h)(a := (kh_cell h a)(i := x))\<rparr>"

text \<open>\<open>append\<close>: in place when there is room, else into a new array with the capacity that \<open>grow\<close> gives.\<close>

definition append_key :: "(nat \<Rightarrow> nat) \<Rightarrow> string \<Rightarrow> slice \<times> key_heap \<Rightarrow> slice \<times> key_heap" where
  "append_key grow key = (\<lambda>(sl, h).
     if sl_len sl < sl_cap sl
     then (sl\<lparr>sl_len := sl_len sl + 1\<rparr>, write_cell (sl_arr sl) (sl_len sl) key h)
     else let a = kh_next h;
              h' = h\<lparr>kh_next := a + 1, kh_cell := (kh_cell h)(a := kh_cell h (sl_arr sl))\<rparr>
          in (\<lparr>sl_arr = a, sl_len = sl_len sl + 1, sl_cap = grow (sl_cap sl)\<rparr>, write_cell a (sl_len sl) key h'))"

section \<open>Scopes\<close>

record scope =
  sc_name :: string
  sc_nameToEmit :: string
  sc_description :: string
  sc_callerSkip :: int
  sc_outputLevel :: level
  sc_stackTraceLevel :: level
  sc_logCallers :: bool
  sc_labelKeys :: slice
  sc_labels :: "string \<rightharpoonup> string"

type_synonym scopes = "string \<rightharpoonup> scope"

text \<open>\<open>None\<close> is the panic on a name that cannot be written in the options.\<close>

definition RegisterScope :: "string \<Rightarrow> string \<Rightarrow> int \<Rightarrow> scopes \<Rightarrow> (scope \<times> scopes) option" where
  "RegisterScope name description callerSkip scopes =
     (if list_ex (\<lambda>c. c \<in> {CHR '':'', CHR '','', CHR ''.''}) name then None
      else
        let s = (case scopes name of
                   Some s \<Rightarrow> s
                 | None \<Rightarrow> \<lparr>sc_name = name, sc_nameToEmit = (if name \<noteq> DefaultScopeName then name else []),
                     sc_description = description, sc_callerSkip = callerSkip, sc_outputLevel = InfoLevel,
                     sc_stackTraceLevel = NoneLevel, sc_logCallers = False,
                     sc_labelKeys = \<lparr>sl_arr = 0, sl_len = 0, sl_cap = 0\<rparr>, sc_labels = Map.empty\<rparr>);
            s' = s\<lparr>sc_labels := Map.empty\<rparr>
        in Some (s', scopes(name \<mapsto> s')))"

definition FindScope :: "string \<Rightarrow> scopes \<Rightarrow> scope option" where
  "FindScope name scopes = scopes name"

datatype label_arg = LString string | LOther string string

definition label_text :: "label_arg \<Rightarrow> string" where
  "label_text a = (case a of LString s \<Rightarrow> s | LOther v t \<Rightarrow> v)"

text \<open>The loop of \<open>WithLabels\<close> over pairs; a key that is not a string ends it with an error label.\<close>

fun label_loop :: "(nat \<Rightarrow> nat) \<Rightarrow> label_arg list \<Rightarrow> scope \<times> key_heap \<Rightarrow> scope \<times> key_heap" where
  "label_loop grow (LString key # v # rest) (s, h) =
     (case append_key grow key (sc_labelKeys s, h) of
        (ks, h') \<Rightarrow> label_loop grow rest (s\<lparr>sc_labels := (sc_labels s)(key \<mapsto> label_text v), sc_labelKeys := ks\<rparr>, h'))"
| "label_loop grow (LOther v t # _ # rest) (s, h) =
     (s\<lparr>sc_labels := (sc_labels s)(''WithLabels error'' \<mapsto>
          ''label name '' @ v @ '' must be a string, got '' @ t @ '' '')\<rparr>, h)"
| "label_loop grow [_] p = p"
| "label_loop grow [] p = p"

definition WithLabels :: "(nat \<Rightarrow> nat) \<Rightarrow> label_arg list \<Rightarrow> scope \<times> key_heap \<Rightarrow> scope \<times> key_heap" where
  "WithLabels grow kvlist = (\<lambda>(s, h).
     if length kvlist mod 2 \<noteq> 0
     then (s\<lparr>sc_labels := (sc_labels s)(''WithLabels error'' \<mapsto>
             ''even number of parameters required, got '' @ nat_digits (length kvlist))\<rparr>, h)
     else label_loop grow kvlist (s, h))"

section \<open>Calls\<close>

record structured_error =
  se_MoreInfo :: string
  se_Impact :: string
  se_Action :: string
  se_LikelyCause :: string
  se_Err :: string

datatype log_arg = ErrorArg structured_error | OtherArg string

text \<open>\<open>None\<close> is the panic of a call without arguments.\<close>

definition getErrorStruct :: "log_arg list \<Rightarrow> (structured_error option \<times> nat) option" where
  "getErrorStruct args =
     (case args of
        [] \<Rightarrow> None
      | ErrorArg e # _ \<Rightarrow> Some (Some e, 1)
      | OtherArg _ # _ \<Rightarrow> Some (None, 0))"

record log_entry =
  le_Message :: string
  le_Level :: level
  le_LoggerName :: string
  le_Caller :: bool
  le_Stack :: bool
  le_Fields :: "(string \<times> string) list"

definition key_value :: "string \<Rightarrow> string \<Rightarrow> string" where
  "key_value key v = (if key = [] \<or> v = [] then [] else key @ ''='' @ v @ '' '')"

definition key_field :: "string \<Rightarrow> string \<Rightarrow> (string \<times> string) list" where
  "key_field key v = (if key = [] \<or> v = [] then [] else [(key, v)])"

definition error_parts :: "structured_error \<Rightarrow> (string \<times> string) list" where
  "error_parts e = [(''moreInfo'', se_MoreInfo e), (''impact'', se_Impact e), (''action'', se_Action e),
     (''likelyCause'', se_LikelyCause e), (''err'', se_Err e)]"

text \<open>A label that is in the list of keys and not in the map prints as a nil value.\<close>

definition label_value :: "scope \<Rightarrow> string \<Rightarrow> string" where
  "label_value s k = (case sc_labels s k of None \<Rightarrow> ''<nil>'' | Some v \<Rightarrow> v)"

definition handler_text ::
  "bool \<Rightarrow> key_heap \<Rightarrow> scope \<Rightarrow> structured_error option \<Rightarrow> string \<Rightarrow> string \<times> (string \<times> string) list" where
  "handler_text useJSON h s ie msg =
     (let keys = slice_keys h (sc_labelKeys s) in
      if useJSON then
        (if ie = None then msg else [],
         (case ie of None \<Rightarrow> [] | Some e \<Rightarrow> key_field ''message'' msg @ concat (map (\<lambda>(k, v). key_field k v) (error_parts e))) @
         map (\<lambda>k. (k, label_value s k)) keys)
      else
        (msg @ (if ie \<noteq> None \<or> keys \<noteq> [] then [char_of (9 :: nat)] else []) @
         (case ie of None \<Rightarrow> [] | Some e \<Rightarrow> concat (map (\<lambda>(k, v). key_value k v) (error_parts e))) @
         join_with '' '' (map (\<lambda>k. k @ ''='' @ label_value s k) keys), []))"

text \<open>Whether a stack is added; scopes other than the default one treat the lower levels as errors.\<close>

definition dumpStack :: "bool \<Rightarrow> level \<Rightarrow> scope \<Rightarrow> bool" where
  "dumpStack is_default lvl s =
     ((if is_default then lvl else if lvl = FatalLevel then FatalLevel else ErrorLevel) \<le> sc_stackTraceLevel s)"

definition emit :: "bool \<Rightarrow> bool \<Rightarrow> key_heap \<Rightarrow> level \<Rightarrow> scope \<Rightarrow> structured_error option \<Rightarrow> string \<Rightarrow> log_entry" where
  "emit useJSON is_default h lvl s ie msg =
     (case handler_text useJSON h s ie msg of (text, fs) \<Rightarrow>
        \<lparr>le_Message = text, le_Level = lvl, le_LoggerName = sc_nameToEmit s, le_Caller = sc_logCallers s,
         le_Stack = dumpStack is_default lvl s, le_Fields = fs\<rparr>)"

datatype log_outcome = Silent | LogPanic | Written log_entry | WrittenExit log_entry

definition write_entry :: "log_entry \<Rightarrow> log_outcome" where
  "write_entry e = (if le_Level e = FatalLevel then WrittenExit e else Written e)"

record log_world =
  lw_JSON :: bool
  lw_default :: bool
  lw_heap :: key_heap
  lw_Sprint :: "log_arg list \<Rightarrow> string"
  lw_Sprintf :: "string \<Rightarrow> log_arg list \<Rightarrow> string"

definition log_at :: "log_world \<Rightarrow> level \<Rightarrow> scope \<Rightarrow> log_arg list \<Rightarrow> log_outcome" where
  "log_at w lvl s args =
     (if lvl \<le> sc_outputLevel s
      then (case getErrorStruct args of
              None \<Rightarrow> LogPanic
            | Some (ie, firstIdx) \<Rightarrow>
                write_entry (emit (lw_JSON w) (lw_default w) (lw_heap w) lvl s ie (lw_Sprint w (drop firstIdx args))))
      else Silent)"

definition logf_at :: "log_world \<Rightarrow> level \<Rightarrow> scope \<Rightarrow> log_arg list \<Rightarrow> log_outcome" where
  "logf_at w lvl s args =
     (if lvl \<le> sc_outputLevel s
      then (case getErrorStruct args of
              None \<Rightarrow> LogPanic
            | Some (ie, firstIdx) \<Rightarrow>
                (case go_index args firstIdx of
                   None \<Rightarrow> LogPanic
                 | Some a \<Rightarrow>
                     let msg = lw_Sprint w [a];
                         msg' = (if 1 < length args then lw_Sprintf w msg (drop (firstIdx + 1) args) else msg)
                     in write_entry (emit (lw_JSON w) (lw_default w) (lw_heap w) lvl s ie msg')))
      else Silent)"

definition Scope_Fatal :: "log_world \<Rightarrow> scope \<Rightarrow> log_arg list \<Rightarrow> log_outcome" where "Scope_Fatal w = log_at w FatalLevel"
definition Scope_Fatalf :: "log_world \<Rightarrow> scope \<Rightarrow> log_arg list \<Rightarrow> log_outcome" where "Scope_Fatalf w = logf_at w FatalLevel"
definition Scope_Error :: "log_world \<Rightarrow> scope \<Rightarrow> log_arg list \<Rightarrow> log_outcome" where "Scope_Error w = log_at w ErrorLevel"
definition Scope_Errorf :: "log_world \<Rightarrow> scope \<Rightarrow> log_arg list \<Rightarrow> log_outcome" where "Scope_Errorf w = logf_at w ErrorLevel"
definition Scope_Warn :: "log_world \<Rightarrow> scope \<Rightarrow> log_arg list \<Rightarrow> log_outcome" where "Scope_Warn w = log_at w WarnLevel"
definition Scope_Warnf :: "log_world \<Rightarrow> scope \<Rightarrow> log_arg list \<Rightarrow> log_outcome" where "Scope_Warnf w = logf_at w WarnLevel"
definition Scope_Info :: "log_world \<Rightarrow> scope \<Rightarrow> log_arg list \<Rightarrow> log_outcome" where "Scope_Info w = log_at w InfoLevel"
definition Scope_Infof :: "log_world \<Rightarrow> scope \<Rightarrow> log_arg list \<Rightarrow> log_outcome" where "Scope_Infof w = logf_at w InfoLevel"
definition Scope_Debug :: "log_world \<Rightarrow> scope \<Rightarrow> log_arg list \<Rightarrow> log_outcome" where "Scope_Debug w = log_at w DebugLevel"
definition Scope_Debugf :: "log_world \<Rightarrow> scope \<Rightarrow> log_arg list \<Rightarrow> log_outcome" where "Scope_Debugf w = logf_at w DebugLevel"

definition FatalEnabled :: "scope \<Rightarrow> bool" where "FatalEnabled s \<longleftrightarrow> FatalLevel \<le> sc_outputLevel s"
definition ErrorEnabled :: "scope \<Rightarrow> bool" where "ErrorEnabled s \<longleftrightarrow> ErrorLevel \<le> sc_outputLevel s"
definition WarnEnabled :: "scope \<Rightarrow> bool" where "WarnEnabled s \<longleftrightarrow> WarnLevel \<le> sc_outputLevel s"
definition InfoEnabled :: "scope \<Rightarrow> bool" where "InfoEnabled s \<longleftrightarrow> InfoLevel \<le> sc_outputLevel s"
definition DebugEnabled :: "scope \<Rightarrow> bool" where "DebugEnabled s \<longleftrightarrow> DebugLevel \<le> sc_outputLevel s"

section \<open>Applying options\<close>

type_synonym level_setter = "level \<Rightarrow> scope \<Rightarrow> scope"

definition set_all :: "(scope \<Rightarrow> scope) \<Rightarrow> string set \<Rightarrow> scopes \<Rightarrow> scopes" where
  "set_all f names scopes = (\<lambda>n. if n \<in> names then map_option f (scopes n) else scopes n)"

text \<open>
  \<open>processLevels\<close> over the entries; \<open>names\<close> are the scopes of the snapshot. What was set before an
  error stays set. The boolean is the variable \<open>logGrpc\<close>.
\<close>

fun processLevels ::
  "string set \<Rightarrow> level_setter \<Rightarrow> string list \<Rightarrow> scopes \<times> bool \<Rightarrow> level_error option \<times> scopes \<times> bool" where
  "processLevels names setter [] (scopes, grpc) = (None, scopes, grpc)"
| "processLevels names setter (sl # sls) (scopes, grpc) =
     (case convertScopedLevel sl of
        Inl e \<Rightarrow> (Some e, scopes, grpc)
      | Inr (s, l) \<Rightarrow>
          if s \<in> names then processLevels names setter sls (set_all (setter l) {s} scopes, grpc)
          else if s = OverrideScopeName then (None, set_all (setter l) names scopes, grpc)
          else if s = ''grpc'' then
            (case RegisterScope ''grpc'' [] 3 scopes of
               None \<Rightarrow> (None, scopes, grpc)
             | Some (_, scopes') \<Rightarrow> (None, set_all (setter l) {''grpc''} scopes', True))
          else processLevels names setter sls (scopes, grpc))"

text \<open>The loop over the scopes that log their callers; the boolean tells an early return.\<close>

fun caller_loop :: "string set \<Rightarrow> string list \<Rightarrow> scopes \<Rightarrow> scopes \<times> bool" where
  "caller_loop names [] scopes = (scopes, False)"
| "caller_loop names (s # ss) scopes =
     (if s = [] then caller_loop names ss scopes
      else if s = OverrideScopeName then (set_all (sc_logCallers_update (\<lambda>_. True)) names scopes, True)
      else if s \<in> names then caller_loop names ss (set_all (sc_logCallers_update (\<lambda>_. True)) {s} scopes)
      else caller_loop names ss scopes)"

definition updateScopes ::
  "log_options \<Rightarrow> scopes \<times> bool \<Rightarrow> level_error option \<times> (scopes \<times> bool) \<times> log_options" where
  "updateScopes opts = (\<lambda>(scopes, grpc).
     let names = dom scopes in
     case processLevels names (\<lambda>l. sc_outputLevel_update (\<lambda>_. l)) (split_on CHR '','' (lo_outputLevels opts)) (scopes, grpc) of
       (Some e, s1, g1) \<Rightarrow> (Some e, (s1, g1), opts)
     | (None, s1, g1) \<Rightarrow>
         (case processLevels names (\<lambda>l. sc_stackTraceLevel_update (\<lambda>_. l)) (split_on CHR '','' (lo_stackTraceLevels opts)) (s1, g1) of
            (Some e, s2, g2) \<Rightarrow> (Some e, (s2, g2), opts)
          | (None, s2, g2) \<Rightarrow>
              (case caller_loop names (split_on CHR '','' (lo_logCallers opts)) s2 of
                 (s3, returned) \<Rightarrow>
                   (None, (s3, g2), if \<not> returned \<and> g2 then opts\<lparr>lo_LogGrpc := True\<rparr> else opts))))"

section \<open>Levels decide\<close>

text \<open>
  A call is silent exactly when its level is above that of the scope, whatever it says; and it
  ends the process exactly when it is written at the fatal level.
\<close>

lemma log_at_silent: "log_at w lvl s args = Silent \<longleftrightarrow> sc_outputLevel s < lvl"
  by (auto simp: log_at_def write_entry_def not_le split: option.split prod.split)

lemma log_at_level:
  "log_at w lvl s args = Written e \<or> log_at w lvl s args = WrittenExit e \<Longrightarrow>
   le_Level e = lvl \<and> le_LoggerName e = sc_nameToEmit s \<and> lvl \<le> sc_outputLevel s"
  by (auto simp: log_at_def write_entry_def emit_def split: option.splits prod.splits if_splits)

lemma fatal_ends:
  assumes "args \<noteq> []" "FatalLevel \<le> sc_outputLevel s"
  shows "\<exists>e. Scope_Fatal w s args = WrittenExit e"
  using assms
  by (auto simp: Scope_Fatal_def log_at_def write_entry_def emit_def getErrorStruct_def
      split: option.split prod.split list.split log_arg.split)

lemma others_go_on: "lvl \<noteq> FatalLevel \<Longrightarrow> log_at w lvl s args \<noteq> WrittenExit e"
  by (auto simp: log_at_def write_entry_def emit_def split: option.split prod.split)

text \<open>A scope whose output is switched off does not end the process even at the fatal level.\<close>

lemma silenced_fatal_goes_on: "sc_outputLevel s = NoneLevel \<Longrightarrow> Scope_Fatal w s args = Silent"
  by (simp add: Scope_Fatal_def log_at_silent less_level_def)

section \<open>What options do to scopes\<close>

lemma set_all_dom [simp]: "dom (set_all f names scopes) = dom scopes"
  by (auto simp: set_all_def dom_def)

lemma default_levels:
  assumes "scopes ''default'' = Some s"
  shows "\<exists>s'. fst (snd (updateScopes DefaultOptions (scopes, False))) =
      (scopes(''default'' \<mapsto> s'), False) \<and> fst (updateScopes DefaultOptions (scopes, False)) = None \<and>
      sc_outputLevel s' = InfoLevel \<and> sc_stackTraceLevel s' = NoneLevel"
proof -
  have l: "split_on CHR '','' (lo_outputLevels DefaultOptions) = [''default:info'']"
    "split_on CHR '','' (lo_stackTraceLevels DefaultOptions) = [''default:none'']"
    "split_on CHR '','' (lo_logCallers DefaultOptions) = [[]]"
    by (simp_all add: DefaultOptions_def DefaultScopeName_def)
  have c: "convertScopedLevel ''default:info'' = Inr (''default'', InfoLevel)"
    "convertScopedLevel ''default:none'' = Inr (''default'', NoneLevel)"
    by (simp_all add: convertScopedLevel_def stringToLevel_def)
  have d: "''default'' \<in> dom scopes" using assms by blast
  have u: "set_all f {''default''} sc = sc(''default'' \<mapsto> f x)" if "sc ''default'' = Some x" for f sc x
    using that by (auto simp: set_all_def fun_eq_iff)
  show ?thesis
    by (intro exI [of _ "s\<lparr>sc_outputLevel := InfoLevel, sc_stackTraceLevel := NoneLevel\<rparr>"])
      (use assms d in \<open>simp add: updateScopes_def Let_def l c u\<close>)
qed

text \<open>
  With the default options, which are the only ones the agent uses, the calls that report a
  fatal error end the process.
\<close>

lemma default_fatal_ends:
  assumes "scopes ''default'' = Some s" "args \<noteq> []"
    and "fst (snd (updateScopes DefaultOptions (scopes, False))) = (scopes', g)" "scopes' ''default'' = Some s'"
  shows "\<exists>e. Scope_Fatal w s' args = WrittenExit e"
proof -
  from default_levels [of scopes s, OF assms(1)] assms(3,4) have "sc_outputLevel s' = InfoLevel" by auto
  then show ?thesis using fatal_ends [OF assms(2)] by (simp add: less_eq_level_def)
qed

text \<open>Entries for unknown scopes have no effect, and no error is raised for them.\<close>

lemma unknown_scope_ignored:
  assumes "CHR '':'' \<notin> set s" "s \<notin> names" "s \<noteq> OverrideScopeName" "s \<noteq> ''grpc''"
  shows "processLevels names setter ((s @ '':'' @ levelToString l) # sls) st = processLevels names setter sls st"
  using assms by (cases st) (simp add: convertScopedLevel_entry [simplified])

text \<open>An entry behind \<open>all\<close> or behind the first mention of an unregistered \<open>grpc\<close> is not looked at.\<close>

lemma behind_override_ignored:
  assumes "OverrideScopeName \<notin> names"
  shows "processLevels names setter ((OverrideScopeName @ '':'' @ levelToString l) # sls) (scopes, g) =
    (None, set_all (setter l) names scopes, g)"
  using assms convertScopedLevel_entry [of OverrideScopeName l]
  by (simp add: OverrideScopeName_def)

section \<open>Labels\<close>

text \<open>A slice that belongs to the heap, with its capacity in bounds.\<close>

definition slice_ok :: "key_heap \<Rightarrow> slice \<Rightarrow> bool" where
  "slice_ok h sl \<longleftrightarrow> sl_len sl \<le> sl_cap sl \<and> sl_arr sl < kh_next h"

lemma append_key_keys:
  assumes "append_key grow key (sl, h) = (sl', h')" "slice_ok h sl" "\<And>n. n < grow n"
  shows "slice_keys h' sl' = slice_keys h sl @ [key] \<and> slice_ok h' sl' \<and> kh_next h \<le> kh_next h'"
  using assms
  by (auto simp: append_key_def slice_keys_def write_cell_def slice_ok_def Let_def less_Suc_eq_le
      Suc_le_eq split: if_splits)

text \<open>Appending never changes what is seen through the slice that was appended to.\<close>

lemma append_key_parent:
  assumes "append_key grow key (sl, h) = (sl', h')" "slice_ok h sl"
  shows "slice_keys h' sl = slice_keys h sl"
  using assms
  by (auto simp: append_key_def slice_keys_def write_cell_def slice_ok_def Let_def split: if_splits)

text \<open>The keys and values of a list of pairs with string keys.\<close>

fun label_pairs :: "label_arg list \<Rightarrow> (string \<times> string) list option" where
  "label_pairs [] = Some []"
| "label_pairs (LString k # v # rest) = map_option ((#) (k, label_text v)) (label_pairs rest)"
| "label_pairs _ = None"

lemma label_loop_labels:
  assumes "label_loop grow kvs (s, h) = (s', h')" "label_pairs kvs = Some ps" "slice_ok h (sc_labelKeys s)" "\<And>n. n < grow n"
  shows "slice_keys h' (sc_labelKeys s') = slice_keys h (sc_labelKeys s) @ map fst ps \<and>
    sc_labels s' = sc_labels s ++ map_of (rev ps)"
  using assms
proof (induction grow kvs "(s, h)" arbitrary: s h ps rule: label_loop.induct)
  case (1 grow key v rest s h)
  obtain ks h1 where a: "append_key grow key (sc_labelKeys s, h) = (ks, h1)" by fastforce
  obtain qs where q: "label_pairs rest = Some qs" "ps = (key, label_text v) # qs" using 1(3) by auto
  have k: "slice_keys h1 ks = slice_keys h (sc_labelKeys s) @ [key]" "slice_ok h1 ks"
    using append_key_keys [OF a] 1(4,5) by auto
  let ?s = "s\<lparr>sc_labels := (sc_labels s)(key \<mapsto> label_text v), sc_labelKeys := ks\<rparr>"
  have "label_loop grow rest (?s, h1) = (s', h')" using 1(2) a by simp
  from 1(1) [OF a [symmetric] this q(1)] 1(5) k q(2) show ?case by (simp add: map_add_assoc [symmetric] map_add_upd)
qed simp_all

text \<open>
  A scope with labels logs its parent's labels and then its own, in order.
\<close>

lemma WithLabels_labels:
  assumes "WithLabels grow kvs (s, h) = (s', h')" "label_pairs kvs = Some ps" "slice_ok h (sc_labelKeys s)" "\<And>n. n < grow n"
  shows "slice_keys h' (sc_labelKeys s') = slice_keys h (sc_labelKeys s) @ map fst ps"
proof -
  have "even (length kvs)" using assms(2) by (induction kvs arbitrary: ps rule: label_pairs.induct) auto
  then have "label_loop grow kvs (s, h) = (s', h')" using assms(1) by (simp add: WithLabels_def even_iff_mod_2_eq_zero)
  from label_loop_labels [OF this assms(2-4)] show ?thesis by blast
qed

text \<open>
  Two scopes made from one parent can share an array: with three keys in an array of four, the
  key of the first becomes the key of the second, and its own value is no longer printed.
\<close>

definition shared_parent :: "scope \<times> key_heap" where
  "shared_parent = WithLabels (\<lambda>n. max 1 (2 * n))
     [LString ''a'', LString ''1'', LString ''b'', LString ''2'', LString ''c'', LString ''3'']
     (\<lparr>sc_name = ''s'', sc_nameToEmit = ''s'', sc_description = [], sc_callerSkip = 0, sc_outputLevel = InfoLevel,
       sc_stackTraceLevel = NoneLevel, sc_logCallers = False, sc_labelKeys = \<lparr>sl_arr = 0, sl_len = 0, sl_cap = 0\<rparr>,
       sc_labels = Map.empty\<rparr>, \<lparr>kh_next = 1, kh_cell = (\<lambda>_ _. [])\<rparr>)"

lemma siblings_share_keys:
  "let (s, h) = shared_parent;
       (x, h1) = WithLabels (\<lambda>n. max 1 (2 * n)) [LString ''x'', LString ''4''] (s, h);
       (y, h2) = WithLabels (\<lambda>n. max 1 (2 * n)) [LString ''y'', LString ''5''] (s, h1)
   in slice_keys h1 (sc_labelKeys x) = [''a'', ''b'', ''c'', ''x''] \<and>
      slice_keys h2 (sc_labelKeys x) = [''a'', ''b'', ''c'', ''y''] \<and> label_value x ''y'' = ''<nil>''"
  by (simp add: shared_parent_def WithLabels_def append_key_def write_cell_def slice_keys_def Let_def label_text_def
      label_value_def upt_rec)

section \<open>Dates\<close>

text \<open>\<open>formatDate\<close> on the fields of a UTC time.\<close>

definition digit_at :: "nat \<Rightarrow> nat \<Rightarrow> char" where
  "digit_at n d = char_of ((n div d) mod 10 + 48)"

definition formatDate :: "nat \<Rightarrow> nat \<Rightarrow> nat \<Rightarrow> nat \<Rightarrow> nat \<Rightarrow> nat \<Rightarrow> nat \<Rightarrow> string" where
  "formatDate year month day hour minute second nanos =
     (let micros = nanos div 1000 in
      [digit_at year 1000, digit_at year 100, digit_at year 10, digit_at year 1, CHR ''-'',
       digit_at month 10, digit_at month 1, CHR ''-'', digit_at day 10, digit_at day 1, CHR ''T'',
       digit_at hour 10, digit_at hour 1, CHR '':'', digit_at minute 10, digit_at minute 1, CHR '':'',
       digit_at second 10, digit_at second 1, CHR ''.'',
       digit_at micros 100000, digit_at micros 10000, digit_at micros 1000, digit_at micros 100,
       digit_at micros 10, digit_at micros 1, CHR ''Z''])"

lemma digit_at_val: "digit_val (digit_at n d) = (n div d) mod 10"
  by (simp add: digit_at_def digit_char)

lemma dec_val_acc: "dec_val a xs = a * 10 ^ length xs + dec_val 0 xs"
proof (induction xs arbitrary: a)
  case (Cons x xs)
  show ?case using Cons [of "10 * a + digit_val x"] Cons [of "digit_val x"] by (simp add: algebra_simps)
qed simp

lemma decimal_digits: "dec_val 0 (map (\<lambda>i. digit_at n (10 ^ i)) (rev [0..<k])) = n mod 10 ^ k"
proof (induction k)
  case (Suc k)
  have "dec_val 0 (map (\<lambda>i. digit_at n (10 ^ i)) (rev [0..<Suc k])) = (n div 10 ^ k mod 10) * 10 ^ k + n mod 10 ^ k"
    by (simp add: dec_val_acc [of "_ mod 10"] digit_at_val Suc)
  also have "\<dots> = n mod (10 ^ k * 10)" by (simp add: mod_mult2_eq)
  finally show ?case by (simp add: mult.commute)
qed simp

lemma digits2: "n < 100 \<Longrightarrow> dec_val 0 [digit_at n 10, digit_at n 1] = n"
  using decimal_digits [of n 2] by (simp add: upt_rec numeral_2_eq_2 del: dec_val.simps)

lemma digits4: "n < 10000 \<Longrightarrow> dec_val 0 [digit_at n 1000, digit_at n 100, digit_at n 10, digit_at n 1] = n"
  using decimal_digits [of n 4] by (simp add: upt_rec del: dec_val.simps)

lemma digits6:
  "n < 1000000 \<Longrightarrow> dec_val 0 [digit_at n 100000, digit_at n 10000, digit_at n 1000, digit_at n 100, digit_at n 10, digit_at n 1] = n"
  using decimal_digits [of n 6] by (simp add: upt_rec del: dec_val.simps)

text \<open>A time stamp can be read back to the microsecond, for years of four digits.\<close>

lemma formatDate_readable:
  assumes "year < 10000" "month < 100" "day < 100" "hour < 100" "minute < 100" "second < 100" "nanos < 1000000000"
  shows "let s = formatDate year month day hour minute second nanos; f = (\<lambda>i n. dec_val 0 (take n (drop i s))) in
    length s = 27 \<and> f 0 4 = year \<and> f 5 2 = month \<and> f 8 2 = day \<and> f 11 2 = hour \<and> f 14 2 = minute \<and> f 17 2 = second \<and>
    f 20 6 = nanos div 1000"
proof -
  have "nanos div 1000 < 1000000" using assms(7) by simp
  then show ?thesis
    using assms digits2 digits4 digits6 by (simp add: formatDate_def Let_def del: dec_val.simps One_nat_def)
qed

end
