(* ===== verification/Log_Sinks.thy ===== *)
theory Log_Sinks
  imports Log_Scope
begin

text \<open>
  The two remote sinks of the logger, \<open>pkg/log/uds.go\<close> and \<open>pkg/log/stackdriver.go\<close>: cores beside the
  base core, with their own minimum level, the buffer of the first and the conversion of fields of
  the second. The base core, the encoder, the HTTP client and the client of the service are
  arguments.
\<close>

section \<open>Levels of the library\<close>

text \<open>
  \<open>zapcore.Level\<close>: \<open>Debug\<close> is \<open>-1\<close>, and \<open>Info\<close>, the zero value, is \<open>0\<close>. \<open>none\<close> of \<open>config.go\<close> is above
  all of them.
\<close>

type_synonym zap_level = int

fun levelToZap :: "level \<Rightarrow> zap_level" where
  "levelToZap DebugLevel = -1"
| "levelToZap InfoLevel = 0"
| "levelToZap WarnLevel = 1"
| "levelToZap ErrorLevel = 2"
| "levelToZap FatalLevel = 5"
| "levelToZap NoneLevel = 100"

definition zap_levels :: "zap_level list" where
  "zap_levels = [-1, 0, 1, 2, 3, 4, 5]"

definition toLevel :: "zap_level \<rightharpoonup> level" where
  "toLevel = map_of [(5, FatalLevel), (2, ErrorLevel), (1, WarnLevel), (0, InfoLevel), (-1, DebugLevel)]"

definition toZapLevel :: "level \<rightharpoonup> zap_level" where
  "toZapLevel = map_of [(FatalLevel, 5), (ErrorLevel, 2), (WarnLevel, 1), (InfoLevel, 0), (DebugLevel, -1)]"

text \<open>The two tables are inverse to each other, and turn the order of levels round.\<close>

lemma toLevel_toZapLevel: "toZapLevel l = Some z \<longleftrightarrow> toLevel z = Some l"
  by (cases l) (auto simp: toZapLevel_def toLevel_def)

lemma levelToZap_antimono: "a \<le> b \<longleftrightarrow> levelToZap b \<le> levelToZap a"
  by (cases a; cases b) (simp_all add: less_eq_level_def)

text \<open>The loop that both sinks use to find the lowest level the base core takes; \<open>0\<close> is the unset field.\<close>

definition lowest_enabled :: "(zap_level \<Rightarrow> bool) \<Rightarrow> zap_level" where
  "lowest_enabled base = (case find base zap_levels of Some l \<Rightarrow> l | None \<Rightarrow> 0)"

text \<open>A base core that takes all levels from one of them on.\<close>

lemma lowest_enabled_threshold:
  assumes "m \<in> set zap_levels" "\<And>l. l \<in> set zap_levels \<Longrightarrow> base l \<longleftrightarrow> m \<le> l"
  shows "lowest_enabled base = m"
proof -
  have "find base zap_levels = find (\<lambda>l. m \<le> l) zap_levels"
    using assms(2) by (intro find_cong) auto
  with assms(1) show ?thesis by (auto simp: lowest_enabled_def zap_levels_def)
qed

lemma lowest_enabled_none: "(\<And>l. l \<in> set zap_levels \<Longrightarrow> \<not> base l) \<Longrightarrow> lowest_enabled base = 0"
  by (simp add: lowest_enabled_def zap_levels_def)

section \<open>Sink on a socket\<close>

text \<open>\<open>uc_enc\<close> tells whether there is an encoder; \<open>uc_buffers\<close> holds the encoded entries.\<close>

record udsCore =
  uc_address :: string
  uc_minimumLevel :: zap_level
  uc_url :: string
  uc_enc :: bool
  uc_buffers :: "string list"

definition teeToUDSServer :: "(zap_level \<Rightarrow> bool) \<Rightarrow> string \<Rightarrow> string \<Rightarrow> udsCore" where
  "teeToUDSServer base address path =
     \<lparr>uc_address = address, uc_minimumLevel = lowest_enabled base, uc_url = ''http://unix'' @ path, uc_enc = True,
      uc_buffers = []\<rparr>"

definition uds_Enabled :: "udsCore \<Rightarrow> zap_level \<Rightarrow> bool" where
  "uds_Enabled u l \<longleftrightarrow> uc_minimumLevel u \<le> l"

definition uds_With :: "udsCore \<Rightarrow> udsCore" where
  "uds_With u = \<lparr>uc_address = uc_address u, uc_minimumLevel = uc_minimumLevel u, uc_url = [], uc_enc = False, uc_buffers = []\<rparr>"

text \<open>The cores that were added to a checked entry.\<close>

definition uds_Check :: "udsCore \<Rightarrow> zap_level \<Rightarrow> udsCore list \<Rightarrow> udsCore list" where
  "uds_Check u l ce = (if uds_Enabled u l then ce @ [u] else ce)"

datatype uds_error = EncodeFailed string | MarshalFailed string | PostFailed string string | NotOK string int

text \<open>\<open>None\<close> is the nil pointer of a core without encoder.\<close>

definition uds_Write :: "(log_entry \<Rightarrow> (string, string) result) \<Rightarrow> log_entry \<Rightarrow> udsCore \<Rightarrow> (uds_error option \<times> udsCore) option" where
  "uds_Write encode entry u =
     (if \<not> uc_enc u then None
      else Some (case encode entry of
             Inl e \<Rightarrow> (Some (EncodeFailed e), u)
           | Inr b \<Rightarrow> (None, u\<lparr>uc_buffers := uc_buffers u @ [b]\<rparr>)))"

definition logsFromBuffer :: "udsCore \<Rightarrow> string list \<times> udsCore" where
  "logsFromBuffer u = (uc_buffers u, u\<lparr>uc_buffers := []\<rparr>)"

text \<open>\<open>post\<close> gives the answer to a request: an error, or a status code.\<close>

definition uds_Sync ::
  "(string list \<Rightarrow> (string, string) result) \<Rightarrow> (string \<Rightarrow> string \<Rightarrow> (string, int) result) \<Rightarrow> udsCore \<Rightarrow> uds_error option \<times> udsCore" where
  "uds_Sync marshal post u =
     (case logsFromBuffer u of (logs, u') \<Rightarrow>
        (case marshal logs of
           Inl e \<Rightarrow> (Some (MarshalFailed e), u')
         | Inr msg \<Rightarrow>
             (case post (uc_url u) msg of
                Inl e \<Rightarrow> (Some (PostFailed (uc_url u) e), u')
              | Inr status \<Rightarrow> (if status \<noteq> 200 then Some (NotOK (uc_url u) status) else None, u'))))"

subsection \<open>Histories of the sink\<close>

text \<open>
  A core is used by many goroutines; \<open>Write\<close> and \<open>logsFromBuffer\<close> hold the mutex, so a history is a
  sequence of them. The labels are the encoded entry that was appended and the batch that was
  taken for sending.
\<close>

datatype uds_event = Wrote string | Took "string list"

inductive uds_step :: "udsCore \<Rightarrow> uds_event \<Rightarrow> udsCore \<Rightarrow> bool" where
  Write: "uds_Write encode entry u = Some (None, u') \<Longrightarrow> encode entry = Inr b \<Longrightarrow> uds_step u (Wrote b) u'"
| Sync: "logsFromBuffer u = (logs, u') \<Longrightarrow> uds_step u (Took logs) u'"

inductive uds_run :: "udsCore \<Rightarrow> uds_event list \<Rightarrow> udsCore \<Rightarrow> bool" where
  stop: "uds_run u [] u"
| step: "uds_run u es u' \<Longrightarrow> uds_step u' e u'' \<Longrightarrow> uds_run u (es @ [e]) u''"

inductive_simps uds_step_Wrote: "uds_step u (Wrote b) u'"
inductive_simps uds_step_Took: "uds_step u (Took logs) u'"

fun written :: "uds_event list \<Rightarrow> string list" where
  "written [] = []"
| "written (Wrote b # es) = b # written es"
| "written (Took bs # es) = written es"

fun taken :: "uds_event list \<Rightarrow> string list" where
  "taken [] = []"
| "taken (Wrote b # es) = taken es"
| "taken (Took bs # es) = bs @ taken es"

lemma written_append [simp]: "written (es @ es') = written es @ written es'"
  by (induction es rule: written.induct) simp_all

lemma taken_append [simp]: "taken (es @ es') = taken es @ taken es'"
  by (induction es rule: taken.induct) simp_all

text \<open>
  No entry is sent twice or out of order, however writes and syncs interleave: what was taken for
  sending, followed by the buffer, is what was written.
\<close>

lemma uds_exactly_once:
  "uds_run u es u' \<Longrightarrow> uc_buffers u = [] \<Longrightarrow> taken es @ uc_buffers u' = written es"
proof (induction rule: uds_run.induct)
  case (step u es u' e u'')
  then show ?case
    by (cases e) (auto simp: uds_step_Wrote uds_step_Took uds_Write_def logsFromBuffer_def split: if_splits)
qed simp

lemma uds_Sync_takes: "uds_step u (Took (uc_buffers u)) (snd (uds_Sync marshal post u))"
  by (auto simp: uds_step_Took uds_Sync_def logsFromBuffer_def split: sum.split)

text \<open>The buffer is emptied before the request is made: entries of a sync that fails are lost.\<close>

lemma failed_sync_loses:
  "uds_Sync marshal post u = (Some e, u') \<Longrightarrow> uc_buffers u' = []"
  by (auto simp: uds_Sync_def logsFromBuffer_def split: sum.splits)

text \<open>A core made by \<open>With\<close> cannot write: it has no encoder.\<close>

lemma uds_With_panics: "uds_Write encode entry (uds_With u) = None"
  by (simp add: uds_Write_def uds_With_def)

section \<open>Sink in the cloud\<close>

datatype severity = Default | Debug | Info | Warning | Error | Critical

definition stackdriverSeverityMapping :: "zap_level \<rightharpoonup> severity" where
  "stackdriverSeverityMapping = map_of [(-1, Debug), (0, Info), (1, Warning), (2, Error), (3, Critical), (5, Critical), (4, Critical)]"

text \<open>\<open>encodeStackdriverLevel\<close>: a level that is not in the table has the zero value, \<open>Default\<close>.\<close>

definition severity_of :: "zap_level \<Rightarrow> severity" where
  "severity_of l = (case stackdriverSeverityMapping l of Some s \<Rightarrow> s | None \<Rightarrow> Default)"

text \<open>
  The content of \<open>Field.Interface\<close>: a time, a value with a \<open>String\<close> method, an error, or anything else.
\<close>

datatype iface = ITime int | IStringer string | IError string | IOther string

datatype field_type =
    ArrayMarshalerType | ObjectMarshalerType | BinaryType | BoolType | ByteStringType
  | Complex128Type | Complex64Type | DurationType | Float64Type | Float32Type
  | Int64Type | Int32Type | Int16Type | Int8Type | StringType | TimeType
  | Uint64Type | Uint32Type | Uint16Type | Uint8Type | UintptrType
  | ReflectType | StringerType | ErrorType | SkipType | OtherType

record zap_field =
  zf_Key :: string
  zf_Type :: field_type
  zf_Integer :: "64 word"
  zf_String :: string
  zf_Interface :: iface

text \<open>Values of a payload; \<open>VFloat True i\<close> is \<open>float64(i)\<close> of an integer and \<open>VFloat False i\<close> is \<open>float32(i)\<close>.\<close>

datatype sd_value =
    VIface iface | VBool bool | VString string | VTime int | VFloat bool int
  | VInt64 "64 word" | VInt32 "32 word" | VInt16 "16 word" | VInt8 "8 word"
  | VUint64 "64 word" | VUint32 "32 word" | VUint16 "16 word" | VUint8 "8 word"

text \<open>
  The cases of \<open>clone\<close> for one field. \<open>Inl\<close> is the panic of a type assertion, \<open>Inr None\<close> a field that
  is skipped. \<open>sprint\<close> and \<open>duration\<close> are the texts of the standard library.
\<close>

definition field_value :: "(iface \<Rightarrow> string) \<Rightarrow> (int \<Rightarrow> string) \<Rightarrow> zap_field \<Rightarrow> (unit, sd_value option) result" where
  "field_value sprint duration f =
     (let i = zf_Integer f; v = zf_Interface f in
      case zf_Type f of
        ArrayMarshalerType \<Rightarrow> Inr (Some (VIface v))
      | ObjectMarshalerType \<Rightarrow> Inr (Some (VIface v))
      | BinaryType \<Rightarrow> Inr (Some (VIface v))
      | BoolType \<Rightarrow> Inr (Some (VBool (i = 1)))
      | ByteStringType \<Rightarrow> Inr (Some (VString (zf_String f)))
      | Complex128Type \<Rightarrow> Inr (Some (VString (sprint v)))
      | Complex64Type \<Rightarrow> Inr (Some (VString (sprint v)))
      | DurationType \<Rightarrow> Inr (Some (VString (duration (sint i))))
      | Float64Type \<Rightarrow> Inr (Some (VFloat True (sint i)))
      | Float32Type \<Rightarrow> Inr (Some (VFloat False (sint i)))
      | Int64Type \<Rightarrow> Inr (Some (VInt64 i))
      | Int32Type \<Rightarrow> Inr (Some (VInt32 (ucast i)))
      | Int16Type \<Rightarrow> Inr (Some (VInt16 (ucast i)))
      | Int8Type \<Rightarrow> Inr (Some (VInt8 (ucast i)))
      | StringType \<Rightarrow> Inr (Some (VString (zf_String f)))
      | TimeType \<Rightarrow> (case v of ITime t \<Rightarrow> Inr (Some (VTime t)) | _ \<Rightarrow> Inl ())
      | Uint64Type \<Rightarrow> Inr (Some (VUint64 i))
      | Uint32Type \<Rightarrow> Inr (Some (VUint32 (ucast i)))
      | Uint16Type \<Rightarrow> Inr (Some (VUint16 (ucast i)))
      | Uint8Type \<Rightarrow> Inr (Some (VUint8 (ucast i)))
      | UintptrType \<Rightarrow> Inr (Some (VUint64 i))
      | ReflectType \<Rightarrow> Inr (Some (VIface v))
      | StringerType \<Rightarrow> (case v of IStringer s \<Rightarrow> Inr (Some (VString s)) | ITime t \<Rightarrow> Inr (Some (VString (sprint v))) | _ \<Rightarrow> Inl ())
      | ErrorType \<Rightarrow> (case v of IError s \<Rightarrow> Inr (Some (VString s)) | _ \<Rightarrow> Inl ())
      | SkipType \<Rightarrow> Inr None
      | OtherType \<Rightarrow> Inr (Some (VIface v)))"

type_synonym payload = "string \<rightharpoonup> sd_value"

fun clone :: "(iface \<Rightarrow> string) \<Rightarrow> (int \<Rightarrow> string) \<Rightarrow> payload \<Rightarrow> zap_field list \<Rightarrow> (unit, payload) result" where
  "clone sprint duration orig [] = Inr orig"
| "clone sprint duration orig (f # fs) =
     and_then (field_value sprint duration f) (\<lambda>v.
       clone sprint duration (case v of None \<Rightarrow> orig | Some x \<Rightarrow> orig(zf_Key f \<mapsto> x)) fs)"

record stackdriverCore =
  sd_minimumLevel :: zap_level
  sd_fields :: payload

datatype tee_error = NoProject | ClientFailed string

definition teeToStackdriver ::
  "(string \<Rightarrow> string \<Rightarrow> string option) \<Rightarrow> (zap_level \<Rightarrow> bool) \<Rightarrow> string \<Rightarrow> string \<Rightarrow> (tee_error, stackdriverCore) result" where
  "teeToStackdriver newClient base project quotaProject =
     (if project = [] then Inl NoProject
      else (case newClient project quotaProject of
              Some e \<Rightarrow> Inl (ClientFailed e)
            | None \<Rightarrow> Inr \<lparr>sd_minimumLevel = lowest_enabled base, sd_fields = Map.empty\<rparr>))"

definition sd_Enabled :: "stackdriverCore \<Rightarrow> zap_level \<Rightarrow> bool" where
  "sd_Enabled sc l \<longleftrightarrow> sd_minimumLevel sc \<le> l"

definition sd_With ::
  "(iface \<Rightarrow> string) \<Rightarrow> (int \<Rightarrow> string) \<Rightarrow> zap_field list \<Rightarrow> stackdriverCore \<Rightarrow> (unit, stackdriverCore) result" where
  "sd_With sprint duration fs sc =
     and_then (clone sprint duration (sd_fields sc) fs) (\<lambda>p. Inr (sc\<lparr>sd_fields := p\<rparr>))"

definition sd_Check :: "stackdriverCore \<Rightarrow> zap_level \<Rightarrow> stackdriverCore list \<Rightarrow> stackdriverCore list" where
  "sd_Check sc l ce = (if sd_Enabled sc l then ce @ [sc] else ce)"

definition sd_Sync :: "string option \<Rightarrow> string option" where
  "sd_Sync flush = map_option (\<lambda>e. ''error writing logs to Stackdriver: '' @ e) flush"

record sd_entry =
  se_Timestamp :: int
  se_Severity :: severity
  se_Payload :: payload

definition sd_Write ::
  "(iface \<Rightarrow> string) \<Rightarrow> (int \<Rightarrow> string) \<Rightarrow> int \<Rightarrow> zap_level \<Rightarrow> string \<Rightarrow> string \<Rightarrow> zap_field list \<Rightarrow> stackdriverCore \<Rightarrow> (unit, sd_entry) result" where
  "sd_Write sprint duration time lvl loggerName msg fs sc =
     and_then (clone sprint duration (sd_fields sc) fs) (\<lambda>p.
       Inr \<lparr>se_Timestamp = time, se_Severity = severity_of lvl,
            se_Payload = p(''logger'' \<mapsto> VString loggerName, ''message'' \<mapsto> VString msg)\<rparr>)"

subsection \<open>Properties\<close>

lemma severity_table: "severity_of l \<noteq> Default \<longleftrightarrow> l \<in> set zap_levels"
  by (simp add: severity_of_def stackdriverSeverityMapping_def zap_levels_def)

text \<open>The severities keep the order of the levels of scopes apart: no two levels share one.\<close>

lemma severity_inj: "toZapLevel a = Some x \<Longrightarrow> toZapLevel b = Some y \<Longrightarrow> severity_of x = severity_of y \<Longrightarrow> a = b"
  by (cases a; cases b) (simp_all add: toZapLevel_def severity_of_def stackdriverSeverityMapping_def)

text \<open>Fields that the conversion drops or stops at.\<close>

definition converts :: "zap_field \<Rightarrow> bool" where
  "converts f \<longleftrightarrow>
     (case zf_Type f of
        TimeType \<Rightarrow> (case zf_Interface f of ITime _ \<Rightarrow> True | _ \<Rightarrow> False)
      | StringerType \<Rightarrow> (case zf_Interface f of IStringer _ \<Rightarrow> True | ITime _ \<Rightarrow> True | _ \<Rightarrow> False)
      | ErrorType \<Rightarrow> (case zf_Interface f of IError _ \<Rightarrow> True | _ \<Rightarrow> False)
      | _ \<Rightarrow> True)"

lemma field_value_total: "(\<exists>v. field_value sprint duration f = Inr v) \<longleftrightarrow> converts f"
  by (auto simp: field_value_def converts_def Let_def split: field_type.splits iface.splits)

lemma field_value_skip: "field_value sprint duration f = Inr None \<longleftrightarrow> zf_Type f = SkipType"
  by (auto simp: field_value_def Let_def split: field_type.splits iface.splits)

text \<open>
  The payload of an entry: a key has the value of the last field with that key that is not
  skipped, or the value it had; there is no payload exactly when a field does not convert.
\<close>

lemma clone_lookup:
  "clone sprint duration orig fs = Inr p \<Longrightarrow>
   p k = (case find (\<lambda>f. zf_Key f = k \<and> zf_Type f \<noteq> SkipType) (rev fs) of
            None \<Rightarrow> orig k
          | Some f \<Rightarrow> (case field_value sprint duration f of Inr v \<Rightarrow> v | Inl _ \<Rightarrow> None))"
proof (induction fs arbitrary: orig)
  case (Cons f fs)
  let ?P = "\<lambda>f. zf_Key f = k \<and> zf_Type f \<noteq> SkipType"
  obtain v where v: "field_value sprint duration f = Inr v"
      "clone sprint duration (case v of None \<Rightarrow> orig | Some x \<Rightarrow> orig(zf_Key f \<mapsto> x)) fs = Inr p"
    using Cons.prems by (auto simp: and_then_eq_Inr)
  from Cons.IH [OF v(2)] v(1) field_value_skip [of sprint duration f] show ?case
    by (auto simp: find_append split: option.splits)
qed simp

lemma clone_panics: "(\<exists>p. clone sprint duration orig fs = Inr p) \<longleftrightarrow> (\<forall>f\<in>set fs. converts f)"
proof (induction fs arbitrary: orig)
  case (Cons f fs)
  show ?case
  proof (cases "field_value sprint duration f")
    case (Inl u)
    then show ?thesis using field_value_total [of sprint duration f] by auto
  next
    case (Inr v)
    then have "converts f" using field_value_total [of sprint duration f] by auto
    with Inr Cons.IH show ?thesis by simp
  qed
qed simp

text \<open>The name of the logger and the message win over fields with these names.\<close>

lemma sd_Write_reserved:
  assumes "sd_Write sprint duration time lvl name msg fs sc = Inr e"
  shows "se_Payload e ''logger'' = Some (VString name)" "se_Payload e ''message'' = Some (VString msg)"
  using assms by (auto simp: sd_Write_def and_then_eq_Inr)

text \<open>
  Numbers. The library keeps an integer of a smaller width sign-extended, or zero-extended when it
  is unsigned, in the field of 64 bits; the conversion gives the number back.
\<close>

lemma narrow_wide [simp]:
  "ucast (scast (x :: 32 word) :: 64 word) = x" "ucast (ucast (y :: 16 word) :: 64 word) = y"
  by (rule bit_word_eqI; simp add: bit_simps)+

lemma clone_int32:
  assumes "zf_Type f = Int32Type" "zf_Integer f = scast (x :: 32 word)"
  shows "field_value sprint duration f = Inr (Some (VInt32 x))"
  using assms by (simp add: field_value_def Let_def)

lemma clone_uint16:
  assumes "zf_Type f = Uint16Type" "zf_Integer f = ucast (x :: 16 word)"
  shows "field_value sprint duration f = Inr (Some (VUint16 x))"
  using assms by (simp add: field_value_def Let_def)

text \<open>
  A floating point number is kept by its bits. The conversion takes the bits for an integer: for
  \<open>1.5\<close>, whose bits are \<open>3ff8000000000000\<close>, it gives a number above \<open>4 * 10^18\<close>.
\<close>

lemma clone_float_bits:
  assumes "zf_Type f = Float64Type" "zf_Integer f = 0x3ff8000000000000"
  shows "field_value sprint duration f = Inr (Some (VFloat True 4609434218613702656))"
  using assms by (simp add: field_value_def Let_def)

text \<open>A time field holds its location in \<open>Interface\<close>, which is not a time: the conversion panics.\<close>

lemma clone_time_panics:
  "zf_Type f = TimeType \<Longrightarrow> zf_Interface f = IOther loc \<Longrightarrow> clone sprint duration orig (f # fs) = Inl ()"
  by (simp add: field_value_def Let_def)

end
