(* ===== verification/Log_Config.thy ===== *)
theory Log_Config
  imports Log_Sinks "HOL-Library.List_Lexorder" "HOL-Library.Char_ord" "HOL-Library.Multiset"
begin

text \<open>
  Configuring the logger: \<open>Configure\<close> and \<open>prepZap\<close> of \<open>pkg/log/config.go\<close>, the functions of the default
  scope (\<open>default.go\<close>), the flags (\<open>options.go\<close>), and the adapters that bring other loggers into this
  one (\<open>logr.go\<close>, \<open>klog.go\<close>). What it takes to open a path or to make a client is an argument; encoders
  and sinks are values that say how they were made.
\<close>

section \<open>The default scope\<close>

text \<open>A scope is registered once; the variable \<open>defaultScope\<close> is what is registered under its name.\<close>

definition registerDefaultScope :: "scopes \<Rightarrow> (scope \<times> scopes) option" where
  "registerDefaultScope scopes = RegisterScope DefaultScopeName ''Unscoped logging messages.'' 1 scopes"

definition defaultScope :: "scopes \<Rightarrow> scope" where
  "defaultScope scopes = fst (the (registerDefaultScope scopes))"

lemma defaultScope_registered:
  "scopes DefaultScopeName = Some s \<Longrightarrow> defaultScope scopes = s\<lparr>sc_labels := Map.empty\<rparr>"
  "registerDefaultScope scopes \<noteq> None"
  by (simp_all add: defaultScope_def registerDefaultScope_def RegisterScope_def DefaultScopeName_def Let_def)

definition Scope_Fatala :: "log_world \<Rightarrow> scope \<Rightarrow> log_arg list \<Rightarrow> log_outcome" where "Scope_Fatala w s args = Scope_Fatal w s args"
definition Scope_Errora :: "log_world \<Rightarrow> scope \<Rightarrow> log_arg list \<Rightarrow> log_outcome" where "Scope_Errora w s args = Scope_Error w s args"
definition Scope_Warna :: "log_world \<Rightarrow> scope \<Rightarrow> log_arg list \<Rightarrow> log_outcome" where "Scope_Warna w s args = Scope_Warn w s args"
definition Scope_Infoa :: "log_world \<Rightarrow> scope \<Rightarrow> log_arg list \<Rightarrow> log_outcome" where "Scope_Infoa w s args = Scope_Info w s args"
definition Scope_Debuga :: "log_world \<Rightarrow> scope \<Rightarrow> log_arg list \<Rightarrow> log_outcome" where "Scope_Debuga w s args = Scope_Debug w s args"

definition default_world :: "log_world \<Rightarrow> log_world" where
  "default_world w = w\<lparr>lw_default := True\<rparr>"

definition log_Fatal :: "log_world \<Rightarrow> scopes \<Rightarrow> log_arg list \<Rightarrow> log_outcome" where
  "log_Fatal w scopes args = Scope_Fatal (default_world w) (defaultScope scopes) args"
definition log_Fatala :: "log_world \<Rightarrow> scopes \<Rightarrow> log_arg list \<Rightarrow> log_outcome" where
  "log_Fatala w scopes args = Scope_Fatala (default_world w) (defaultScope scopes) args"
definition log_Fatalf :: "log_world \<Rightarrow> scopes \<Rightarrow> log_arg list \<Rightarrow> log_outcome" where
  "log_Fatalf w scopes args = Scope_Fatalf (default_world w) (defaultScope scopes) args"
definition log_FatalEnabled :: "scopes \<Rightarrow> bool" where "log_FatalEnabled scopes = FatalEnabled (defaultScope scopes)"
definition log_Error :: "log_world \<Rightarrow> scopes \<Rightarrow> log_arg list \<Rightarrow> log_outcome" where
  "log_Error w scopes args = Scope_Error (default_world w) (defaultScope scopes) args"
definition log_Errora :: "log_world \<Rightarrow> scopes \<Rightarrow> log_arg list \<Rightarrow> log_outcome" where
  "log_Errora w scopes args = Scope_Errora (default_world w) (defaultScope scopes) args"
definition log_Errorf :: "log_world \<Rightarrow> scopes \<Rightarrow> log_arg list \<Rightarrow> log_outcome" where
  "log_Errorf w scopes args = Scope_Errorf (default_world w) (defaultScope scopes) args"
definition log_ErrorEnabled :: "scopes \<Rightarrow> bool" where "log_ErrorEnabled scopes = ErrorEnabled (defaultScope scopes)"
definition log_Warn :: "log_world \<Rightarrow> scopes \<Rightarrow> log_arg list \<Rightarrow> log_outcome" where
  "log_Warn w scopes args = Scope_Warn (default_world w) (defaultScope scopes) args"
definition log_Warna :: "log_world \<Rightarrow> scopes \<Rightarrow> log_arg list \<Rightarrow> log_outcome" where
  "log_Warna w scopes args = Scope_Warna (default_world w) (defaultScope scopes) args"
definition log_Warnf :: "log_world \<Rightarrow> scopes \<Rightarrow> log_arg list \<Rightarrow> log_outcome" where
  "log_Warnf w scopes args = Scope_Warnf (default_world w) (defaultScope scopes) args"
definition log_WarnEnabled :: "scopes \<Rightarrow> bool" where "log_WarnEnabled scopes = WarnEnabled (defaultScope scopes)"
definition log_Info :: "log_world \<Rightarrow> scopes \<Rightarrow> log_arg list \<Rightarrow> log_outcome" where
  "log_Info w scopes args = Scope_Info (default_world w) (defaultScope scopes) args"
definition log_Infoa :: "log_world \<Rightarrow> scopes \<Rightarrow> log_arg list \<Rightarrow> log_outcome" where
  "log_Infoa w scopes args = Scope_Infoa (default_world w) (defaultScope scopes) args"
definition log_Infof :: "log_world \<Rightarrow> scopes \<Rightarrow> log_arg list \<Rightarrow> log_outcome" where
  "log_Infof w scopes args = Scope_Infof (default_world w) (defaultScope scopes) args"
definition log_InfoEnabled :: "scopes \<Rightarrow> bool" where "log_InfoEnabled scopes = InfoEnabled (defaultScope scopes)"
definition log_Debug :: "log_world \<Rightarrow> scopes \<Rightarrow> log_arg list \<Rightarrow> log_outcome" where
  "log_Debug w scopes args = Scope_Debug (default_world w) (defaultScope scopes) args"
definition log_Debuga :: "log_world \<Rightarrow> scopes \<Rightarrow> log_arg list \<Rightarrow> log_outcome" where
  "log_Debuga w scopes args = Scope_Debuga (default_world w) (defaultScope scopes) args"
definition log_Debugf :: "log_world \<Rightarrow> scopes \<Rightarrow> log_arg list \<Rightarrow> log_outcome" where
  "log_Debugf w scopes args = Scope_Debugf (default_world w) (defaultScope scopes) args"
definition log_DebugEnabled :: "scopes \<Rightarrow> bool" where "log_DebugEnabled scopes = DebugEnabled (defaultScope scopes)"
definition log_WithLabels :: "(nat \<Rightarrow> nat) \<Rightarrow> label_arg list \<Rightarrow> scopes \<Rightarrow> key_heap \<Rightarrow> scope \<times> key_heap" where
  "log_WithLabels grow kvlist scopes h = WithLabels grow kvlist (defaultScope scopes, h)"

section \<open>Encoders, sinks and cores\<close>

record encoder_config =
  ec_TimeKey :: string
  ec_LevelKey :: string
  ec_NameKey :: string
  ec_CallerKey :: string
  ec_MessageKey :: string
  ec_StacktraceKey :: string
  ec_EncodeLevel :: string
  ec_EncodeCaller :: string
  ec_EncodeDuration :: string
  ec_EncodeTime :: string

definition defaultEncoderConfig :: encoder_config where
  "defaultEncoderConfig = \<lparr>ec_TimeKey = ''time'', ec_LevelKey = ''level'', ec_NameKey = ''scope'', ec_CallerKey = ''caller'',
     ec_MessageKey = ''msg'', ec_StacktraceKey = ''stack'', ec_EncodeLevel = ''LowercaseLevelEncoder'',
     ec_EncodeCaller = ''ShortCallerEncoder'', ec_EncodeDuration = ''StringDurationEncoder'', ec_EncodeTime = ''formatDate''\<rparr>"

definition stackdriverEncoderConfig :: encoder_config where
  "stackdriverEncoderConfig = \<lparr>ec_TimeKey = ''timestamp'', ec_LevelKey = ''severity'', ec_NameKey = ''logger'', ec_CallerKey = ''caller'',
     ec_MessageKey = ''message'', ec_StacktraceKey = ''stacktrace'', ec_EncodeLevel = ''encodeStackdriverLevel'',
     ec_EncodeCaller = ''ShortCallerEncoder'', ec_EncodeDuration = ''SecondsDurationEncoder'',
     ec_EncodeTime = ''RFC3339NanoTimeEncoder''\<rparr>"

datatype encoder = JSONEncoder encoder_config | ConsoleEncoder encoder_config

datatype sink = NilSink | Opened "string list" | Rotater string int int int | MultiSink sink sink

datatype enabler = FromDebug | ByDefaultScope

text \<open>A core of \<open>NewCore\<close>, and a tee of a core and one of the remote sinks.\<close>

datatype zcore = IoCore encoder sink enabler | TeeSd zcore stackdriverCore | TeeUds zcore udsCore

text \<open>The function \<open>enabler\<close> for what other loggers send through this one.\<close>

definition capture_enabler :: "scope \<Rightarrow> zap_level \<Rightarrow> bool" where
  "capture_enabler ds l =
     (if l = 2 then ErrorEnabled ds
      else if l = 1 then WarnEnabled ds
      else if l = 0 then InfoEnabled ds
      else DebugEnabled ds)"

fun core_Enabled :: "scope \<Rightarrow> zcore \<Rightarrow> zap_level \<Rightarrow> bool" where
  "core_Enabled ds (IoCore enc snk FromDebug) l \<longleftrightarrow> -1 \<le> l"
| "core_Enabled ds (IoCore enc snk ByDefaultScope) l \<longleftrightarrow> capture_enabler ds l"
| "core_Enabled ds (TeeSd c sc) l \<longleftrightarrow> core_Enabled ds c l \<or> sd_Enabled sc l"
| "core_Enabled ds (TeeUds c u) l \<longleftrightarrow> core_Enabled ds c l \<or> uds_Enabled u l"

definition rotater_sink :: "log_options \<Rightarrow> sink" where
  "rotater_sink opts =
     (if lo_RotateOutputPath opts = [] then NilSink
      else Rotater (lo_RotateOutputPath opts) (lo_RotationMaxSize opts) (lo_RotationMaxBackups opts) (lo_RotationMaxAge opts))"

definition join_sinks :: "sink \<Rightarrow> sink \<Rightarrow> sink" where
  "join_sinks rotater out =
     (if rotater \<noteq> NilSink \<and> out \<noteq> NilSink then MultiSink out rotater
      else if rotater \<noteq> NilSink then rotater
      else out)"

definition options_encoder :: "log_options \<Rightarrow> encoder" where
  "options_encoder opts =
     (if lo_useStackdriverFormat opts then JSONEncoder stackdriverEncoderConfig
      else if lo_JSONEncoding opts then JSONEncoder defaultEncoderConfig
      else ConsoleEncoder defaultEncoderConfig)"

definition options_JSON :: "log_options \<Rightarrow> bool" where
  "options_JSON opts \<longleftrightarrow> lo_useStackdriverFormat opts \<or> lo_JSONEncoding opts"

text \<open>
  \<open>prepZap\<close>: the two cores and the sink for errors. The variable \<open>useJSON\<close> is set before anything can
  fail, see \<open>Configure\<close>; \<open>zopen\<close> gives the error of opening a list of paths.
\<close>

definition prepZap :: "(string list \<Rightarrow> string option) \<Rightarrow> log_options \<Rightarrow> (string, zcore \<times> zcore \<times> sink) result" where
  "prepZap zopen opts =
     (let enc = options_encoder opts; rotaterSink = rotater_sink opts in
      case zopen (lo_ErrorOutputPaths opts) of
        Some e \<Rightarrow> Inl e
      | None \<Rightarrow>
          (case (if lo_OutputPaths opts = [] then None else zopen (lo_OutputPaths opts)) of
             Some e \<Rightarrow> Inl e
           | None \<Rightarrow>
               let outputSink = (if lo_OutputPaths opts = [] then NilSink else Opened (lo_OutputPaths opts));
                   snk = join_sinks rotaterSink outputSink
               in Inr (IoCore enc snk FromDebug, IoCore enc snk ByDefaultScope, Opened (lo_ErrorOutputPaths opts))))"

section \<open>Adapter for klog\<close>

text \<open>
  The flag set of klog: \<open>None\<close> before \<open>InitFlags\<close>, else the text of the flag \<open>v\<close>.
\<close>

definition klogVerboseFlag :: "string option \<Rightarrow> string" where
  "klogVerboseFlag flags = (case flags of None \<Rightarrow> ''0'' | Some v \<Rightarrow> v)"

definition klogVerbose :: "string option \<Rightarrow> bool \<times> string option" where
  "klogVerbose flags = (klogVerboseFlag flags \<noteq> ''0'', Some (klogVerboseFlag flags))"

text \<open>Setting a flag that does not exist yet is an error, which is dropped.\<close>

definition EnableKlogWithVerbosity :: "int \<Rightarrow> string option \<Rightarrow> string option" where
  "EnableKlogWithVerbosity v flags = map_option (\<lambda>_. Itoa v) flags"

section \<open>Configure\<close>

record log_system =
  ls_scopes :: scopes
  ls_logGrpc :: bool
  ls_useJSON :: bool
  ls_core :: "zcore option"
  ls_errorSink :: sink
  ls_closers :: nat
  ls_capture :: "zcore option"
  ls_captureCaller :: bool
  ls_captureStack :: "zap_level option"
  ls_grpcCaptured :: bool
  ls_klogSet :: bool
  ls_klogFlags :: "string option"

datatype config_error = OpenError string | LevelError level_error | TeeError tee_error

record config_env =
  ce_open :: "string list \<Rightarrow> string option"
  ce_newClient :: "string \<Rightarrow> string \<Rightarrow> string option"

text \<open>Both cores get a tee to the cloud; the first error ends \<open>Configure\<close>.\<close>

definition tee_cloud :: "config_env \<Rightarrow> log_options \<Rightarrow> scope \<Rightarrow> zcore \<Rightarrow> zcore \<Rightarrow> (tee_error, zcore \<times> zcore \<times> nat) result" where
  "tee_cloud env opts ds core captureCore =
     (case lo_tee opts of
        None \<Rightarrow> Inr (core, captureCore, 0)
      | Some (project, quota, _, _) \<Rightarrow>
          and_then (teeToStackdriver (ce_newClient env) (core_Enabled ds core) project quota) (\<lambda>sc.
          and_then (teeToStackdriver (ce_newClient env) (core_Enabled ds captureCore) project quota) (\<lambda>sc'.
            Inr (TeeSd core sc, TeeSd captureCore sc', 2))))"

definition tee_uds :: "log_options \<Rightarrow> scope \<Rightarrow> zcore \<Rightarrow> zcore" where
  "tee_uds opts ds core =
     (case lo_uds opts of
        None \<Rightarrow> core
      | Some (address, path) \<Rightarrow> TeeUds core (teeToUDSServer (core_Enabled ds core) address path))"

definition Configure :: "config_env \<Rightarrow> log_options \<Rightarrow> log_system \<Rightarrow> config_error option \<times> log_system" where
  "Configure env opts st =
     (let st1 = st\<lparr>ls_useJSON := options_JSON opts\<rparr> in
      case prepZap (ce_open env) opts of
        Inl e \<Rightarrow> (Some (OpenError e), st1)
      | Inr (core, captureCore, errSink) \<Rightarrow>
          (case updateScopes opts (ls_scopes st, ls_logGrpc st) of
             (Some e, (sc, g), _) \<Rightarrow> (Some (LevelError e), st1\<lparr>ls_scopes := sc, ls_logGrpc := g\<rparr>)
           | (None, (sc, g), opts') \<Rightarrow>
               let st2 = st1\<lparr>ls_scopes := sc, ls_logGrpc := g\<rparr>; ds = defaultScope sc in
               (case tee_cloud env opts' ds core captureCore of
                  Inl e \<Rightarrow> (Some (TeeError e), st2)
                | Inr (core1, capture1, closers) \<Rightarrow>
                    let (verbose, flags) = klogVerbose (ls_klogFlags st);
                        sc' = (if verbose then set_all (sc_outputLevel_update (\<lambda>_. DebugLevel)) {''klog''} sc else sc)
                    in (None, st2\<lparr>ls_core := Some (tee_uds opts' ds core1), ls_errorSink := errSink, ls_closers := closers,
                          ls_capture := Some (tee_uds opts' ds capture1),
                          ls_captureCaller := sc_logCallers ds,
                          ls_captureStack := (if sc_stackTraceLevel ds = NoneLevel then None
                                              else Some (levelToZap (sc_stackTraceLevel ds))),
                          ls_grpcCaptured := (lo_LogGrpc opts' \<or> ls_grpcCaptured st),
                          ls_klogSet := True, ls_klogFlags := flags, ls_scopes := sc'\<rparr>))))"

section \<open>Writing, syncing and closing\<close>

datatype delivered = ToSink sink log_entry | ToCloud log_entry

text \<open>
  A write goes to every part of a core, whatever level it has: what reached a sink or the cloud at
  once, and the core with what it buffers. \<open>None\<close> is a panic.
\<close>

fun core_Write :: "(log_entry \<Rightarrow> (string, string) result) \<Rightarrow> log_entry \<Rightarrow> zcore \<Rightarrow> (delivered list \<times> zcore) option" where
  "core_Write encode e (IoCore enc snk en) = Some ([ToSink snk e], IoCore enc snk en)"
| "core_Write encode e (TeeSd c sc) =
     (case core_Write encode e c of None \<Rightarrow> None | Some (ds, c') \<Rightarrow> Some (ds @ [ToCloud e], TeeSd c' sc))"
| "core_Write encode e (TeeUds c u) =
     (case core_Write encode e c of
        None \<Rightarrow> None
      | Some (ds, c') \<Rightarrow> (case uds_Write encode e u of None \<Rightarrow> None | Some (_, u') \<Rightarrow> Some (ds, TeeUds c' u')))"

text \<open>The function \<open>write\<close> of the table, and whether the process ends.\<close>

definition pt_write ::
  "(log_entry \<Rightarrow> (string, string) result) \<Rightarrow> log_entry \<Rightarrow> log_system \<Rightarrow> (delivered list \<times> bool \<times> log_system) option" where
  "pt_write encode e st =
     (case ls_core st of
        None \<Rightarrow> None
      | Some c \<Rightarrow>
          (case core_Write encode e c of
             None \<Rightarrow> None
           | Some (ds, c') \<Rightarrow> Some (ds, le_Level e = FatalLevel, st\<lparr>ls_core := Some c'\<rparr>)))"

text \<open>Syncing a tee syncs both parts; the entries that are sent are those of the buffer.\<close>

fun core_Sync ::
  "(string list \<Rightarrow> (string, string) result) \<Rightarrow> (string \<Rightarrow> string \<Rightarrow> (string, int) result) \<Rightarrow> zcore \<Rightarrow> uds_error list \<times> zcore" where
  "core_Sync marshal post (IoCore enc snk en) = ([], IoCore enc snk en)"
| "core_Sync marshal post (TeeSd c sc) = (case core_Sync marshal post c of (es, c') \<Rightarrow> (es, TeeSd c' sc))"
| "core_Sync marshal post (TeeUds c u) =
     (case core_Sync marshal post c of
        (es, c') \<Rightarrow> (case uds_Sync marshal post u of (e, u') \<Rightarrow> (es @ (case e of None \<Rightarrow> [] | Some x \<Rightarrow> [x]), TeeUds c' u')))"

text \<open>\<open>Close\<close>: the sync is best effort; the clients are closed up to the first that fails.\<close>

fun run_closers :: "string option list \<Rightarrow> string option" where
  "run_closers [] = None"
| "run_closers (None # rs) = run_closers rs"
| "run_closers (Some e # rs) = Some e"

definition log_Close ::
  "(string list \<Rightarrow> (string, string) result) \<Rightarrow> (string \<Rightarrow> string \<Rightarrow> (string, int) result) \<Rightarrow> string option list \<Rightarrow> log_system \<Rightarrow> string option \<times> log_system" where
  "log_Close marshal post results st =
     (run_closers (take (ls_closers st) results),
      st\<lparr>ls_core := map_option (\<lambda>c. snd (core_Sync marshal post c)) (ls_core st)\<rparr>)"

subsection \<open>Properties\<close>

text \<open>
  When configuring fails, the functions that write are those from before, so that logging goes on.
\<close>

lemma Configure_failure_keeps_table:
  assumes "Configure env opts st = (Some e, st')"
  shows "ls_core st' = ls_core st \<and> ls_errorSink st' = ls_errorSink st \<and> ls_capture st' = ls_capture st \<and> ls_closers st' = ls_closers st"
  using assms
  by (auto simp: Configure_def Let_def split: sum.splits prod.splits option.splits)

text \<open>The format of messages is changed even then: entries are made for JSON and encoded for the console.\<close>

lemma Configure_sets_format: "ls_useJSON (snd (Configure env opts st)) = options_JSON opts"
  by (simp add: Configure_def Let_def split: sum.splits prod.splits option.splits)

definition encodes_JSON :: "encoder \<Rightarrow> bool" where
  "encodes_JSON e = (case e of JSONEncoder _ \<Rightarrow> True | ConsoleEncoder _ \<Rightarrow> False)"

fun core_encoder :: "zcore \<Rightarrow> encoder" where
  "core_encoder (IoCore enc _ _) = enc"
| "core_encoder (TeeSd c _) = core_encoder c"
| "core_encoder (TeeUds c _) = core_encoder c"

lemma core_encoder_tee_uds [simp]: "core_encoder (tee_uds opts ds c) = core_encoder c"
  by (simp add: tee_uds_def split: option.split prod.split)

lemma tee_cloud_encoder:
  "tee_cloud env opts ds c c' = Inr (c1, c1', n) \<Longrightarrow> core_encoder c1 = core_encoder c"
  by (auto simp: tee_cloud_def and_then_eq_Inr split: option.splits prod.splits)

lemma prepZap_encoder:
  "prepZap zopen opts = Inr (c, c', es) \<Longrightarrow> core_encoder c = options_encoder opts"
  by (auto simp: prepZap_def Let_def split: option.splits)

lemma options_encoder_JSON: "encodes_JSON (options_encoder opts) = options_JSON opts"
  by (simp add: options_encoder_def encodes_JSON_def options_JSON_def)

definition format_fits :: "log_system \<Rightarrow> bool" where
  "format_fits st \<longleftrightarrow> (\<exists>c. ls_core st = Some c \<and> encodes_JSON (core_encoder c) = ls_useJSON st)"

lemma Configure_format_fits:
  assumes "Configure env opts st = (None, st')"
  shows "format_fits st'"
proof -
  have "ls_useJSON st' = options_JSON opts" using Configure_sets_format [of env opts st] assms by simp
  moreover obtain c where "ls_core st' = Some c" "core_encoder c = options_encoder opts"
    using assms
    by (auto simp: Configure_def Let_def dest!: prepZap_encoder tee_cloud_encoder split: sum.splits prod.splits option.splits)
  ultimately show ?thesis by (simp add: format_fits_def options_encoder_JSON)
qed

lemma failed_Configure_breaks_format:
  assumes "format_fits st" "Configure env opts st = (Some e, st')" "options_JSON opts \<noteq> ls_useJSON st"
  shows "\<not> format_fits st'"
  using assms Configure_failure_keeps_table [OF assms(2)] Configure_sets_format [of env opts st]
  by (auto simp: format_fits_def)

text \<open>The levels of what is captured: levels above an error are let through only when debugging is on.\<close>

lemma captured_levels:
  "capture_enabler ds (levelToZap l) \<longleftrightarrow>
   (if l \<in> {ErrorLevel, WarnLevel, InfoLevel} then l \<le> sc_outputLevel ds else sc_outputLevel ds = DebugLevel)"
  by (cases l; cases "sc_outputLevel ds")
    (simp_all add: capture_enabler_def ErrorEnabled_def WarnEnabled_def InfoEnabled_def DebugEnabled_def less_eq_level_def)

text \<open>
  The remote sinks of captured entries start at the level of the default scope; when the default
  scope is silent they start at \<open>Info\<close>.
\<close>

lemma capture_sink_level:
  assumes "sc_outputLevel ds \<in> {ErrorLevel, WarnLevel, InfoLevel, DebugLevel}"
  shows "lowest_enabled (capture_enabler ds) = levelToZap (sc_outputLevel ds)"
  using assms
  by (auto simp: lowest_enabled_def zap_levels_def capture_enabler_def ErrorEnabled_def WarnEnabled_def InfoEnabled_def
      DebugEnabled_def less_eq_level_def)

lemma silent_capture_sink_level:
  assumes "sc_outputLevel ds \<in> {NoneLevel, FatalLevel}"
  shows "lowest_enabled (capture_enabler ds) = levelToZap InfoLevel"
  using assms
  by (auto simp: lowest_enabled_def zap_levels_def capture_enabler_def ErrorEnabled_def WarnEnabled_def InfoEnabled_def
      DebugEnabled_def less_eq_level_def)

text \<open>
  A fatal entry ends the process right after it was written: in the sink on a socket it is in the
  buffer then and is never sent.
\<close>

lemma fatal_entry_unsent:
  assumes "ls_core st = Some (TeeUds (IoCore enc snk en) u)" "uc_enc u" "encode e = Inr b" "le_Level e = FatalLevel"
  shows "\<exists>st'. pt_write encode e st = Some ([ToSink snk e], True, st') \<and>
    ls_core st' = Some (TeeUds (IoCore enc snk en) (u\<lparr>uc_buffers := uc_buffers u @ [b]\<rparr>))"
  using assms by (simp add: pt_write_def uds_Write_def)

text \<open>Cores that \<open>Configure\<close> made have an encoder in every sink, so that no write panics.\<close>

fun can_write :: "zcore \<Rightarrow> bool" where
  "can_write (IoCore _ _ _) \<longleftrightarrow> True"
| "can_write (TeeSd c _) \<longleftrightarrow> can_write c"
| "can_write (TeeUds c u) \<longleftrightarrow> can_write c \<and> uc_enc u"

lemma core_Write_total: "can_write c \<Longrightarrow> \<exists>ds c'. core_Write encode e c = Some (ds, c') \<and> can_write c'"
proof (induction c)
  case (TeeUds c u)
  then show ?case by (cases "encode e") (auto simp: uds_Write_def)
qed auto

lemma Configure_can_write:
  assumes "Configure env opts st = (None, st')"
  shows "\<exists>c. ls_core st' = Some c \<and> can_write c"
  using assms
  by (auto simp: Configure_def prepZap_def tee_cloud_def tee_uds_def teeToUDSServer_def and_then_eq_Inr Let_def
      split: sum.splits prod.splits option.splits)

text \<open>
  After a successful \<open>Configure\<close> every sequence of writes is delivered: each entry reaches the sink
  that the options name, in order, until one of them ends the process.
\<close>

fun write_all :: "(log_entry \<Rightarrow> (string, string) result) \<Rightarrow> log_entry list \<Rightarrow> log_system \<Rightarrow> (delivered list \<times> log_system) option" where
  "write_all encode [] st = Some ([], st)"
| "write_all encode (e # es) st =
     (case pt_write encode e st of
        None \<Rightarrow> None
      | Some (ds, ended, st') \<Rightarrow>
          if ended then Some (ds, st')
          else map_option (\<lambda>(ds', st''). (ds @ ds', st'')) (write_all encode es st'))"

fun core_sink :: "zcore \<Rightarrow> sink" where
  "core_sink (IoCore _ snk _) = snk"
| "core_sink (TeeSd c _) = core_sink c"
| "core_sink (TeeUds c _) = core_sink c"

definition to_sink :: "sink \<Rightarrow> delivered list \<Rightarrow> log_entry list" where
  "to_sink snk ds = concat (map (\<lambda>d. case d of ToSink s e \<Rightarrow> if s = snk then [e] else [] | ToCloud _ \<Rightarrow> []) ds)"

lemma to_sink_append [simp]: "to_sink snk (ds @ ds') = to_sink snk ds @ to_sink snk ds'"
  by (simp add: to_sink_def)

lemma core_Write_sink:
  "core_Write encode e c = Some (ds, c') \<Longrightarrow> to_sink (core_sink c) ds = [e] \<and> core_sink c' = core_sink c"
  by (induction c arbitrary: ds c') (auto simp: to_sink_def split: option.splits prod.splits)

fun until_fatal :: "log_entry list \<Rightarrow> log_entry list" where
  "until_fatal [] = []"
| "until_fatal (e # es) = (if le_Level e = FatalLevel then [e] else e # until_fatal es)"

lemma write_all_delivers:
  assumes "ls_core st = Some c" "can_write c"
  shows "\<exists>ds st'. write_all encode es st = Some (ds, st') \<and> to_sink (core_sink c) ds = until_fatal es"
  using assms
proof (induction es arbitrary: st c)
  case Nil
  then show ?case by (simp add: to_sink_def)
next
  case (Cons e es)
  obtain ds c' where w: "core_Write encode e c = Some (ds, c')" "can_write c'"
    using core_Write_total [OF Cons.prems(2)] by blast
  note s = core_Write_sink [OF w(1)]
  let ?st = "st\<lparr>ls_core := Some c'\<rparr>"
  obtain ds' st' where r: "write_all encode es ?st = Some (ds', st')" "to_sink (core_sink c') ds' = until_fatal es"
    using Cons.IH [of ?st c'] w(2) by auto
  from Cons.prems(1) w(1) s r show ?case by (simp add: pt_write_def)
qed

lemma configured_writes:
  assumes "Configure env opts st = (None, st')"
  shows "\<exists>ds st''. write_all encode es st' = Some (ds, st'') \<and>
    to_sink (join_sinks (rotater_sink opts) (if lo_OutputPaths opts = [] then NilSink else Opened (lo_OutputPaths opts))) ds =
      until_fatal es"
proof -
  obtain c where c: "ls_core st' = Some c" "can_write c" using Configure_can_write [OF assms] by blast
  have "core_sink c = join_sinks (rotater_sink opts) (if lo_OutputPaths opts = [] then NilSink else Opened (lo_OutputPaths opts))"
    using assms c(1)
    by (auto simp: Configure_def prepZap_def tee_cloud_def tee_uds_def and_then_eq_Inr Let_def
        split: sum.splits prod.splits option.splits)
  with write_all_delivers [OF c, of encode es] show ?thesis by simp
qed

section \<open>Adapter for logr\<close>

text \<open>The sink that libraries log through is a scope.\<close>

record zapLogger =
  zl_l :: scope

definition NewLogrAdapter :: "scope \<Rightarrow> zapLogger" where
  "NewLogrAdapter s = \<lparr>zl_l = s\<rparr>"

definition debugLevelThreshold :: int where "debugLevelThreshold = 3"

definition zl_Enabled :: "int \<Rightarrow> zapLogger \<Rightarrow> bool" where
  "zl_Enabled lvl zl = (if debugLevelThreshold < lvl then DebugEnabled (zl_l zl) else InfoEnabled (zl_l zl))"

definition trimNewline :: "string \<Rightarrow> string" where
  "trimNewline msg = (if msg = [] then msg else if last msg = CHR 0x0A then butlast msg else msg)"

definition zl_Info ::
  "(nat \<Rightarrow> nat) \<Rightarrow> log_world \<Rightarrow> int \<Rightarrow> string \<Rightarrow> label_arg list \<Rightarrow> zapLogger \<Rightarrow> log_outcome" where
  "zl_Info grow w lvl msg kvs zl =
     (case WithLabels grow kvs (zl_l zl, lw_heap w) of (s, h) \<Rightarrow>
        if debugLevelThreshold < lvl then Scope_Debug (w\<lparr>lw_heap := h\<rparr>) s [OtherArg (trimNewline msg)]
        else Scope_Info (w\<lparr>lw_heap := h\<rparr>) s [OtherArg (trimNewline msg)])"

definition zl_Error ::
  "(nat \<Rightarrow> nat) \<Rightarrow> log_world \<Rightarrow> string option \<Rightarrow> string \<Rightarrow> label_arg list \<Rightarrow> zapLogger \<Rightarrow> log_outcome" where
  "zl_Error grow w err msg kvs zl =
     (if ErrorEnabled (zl_l zl)
      then (case WithLabels grow kvs (zl_l zl, lw_heap w) of (s, h) \<Rightarrow>
              Scope_Error (w\<lparr>lw_heap := h\<rparr>) s
                [OtherArg (case err of None \<Rightarrow> trimNewline msg | Some e \<Rightarrow> e @ '': '' @ msg)])
      else Silent)"

definition zl_V :: "int \<Rightarrow> zapLogger \<Rightarrow> zapLogger" where
  "zl_V lvl zl = \<lparr>zl_l = zl_l zl\<rparr>"

definition zl_WithValues :: "(nat \<Rightarrow> nat) \<Rightarrow> label_arg list \<Rightarrow> zapLogger \<times> key_heap \<Rightarrow> zapLogger \<times> key_heap" where
  "zl_WithValues grow kvs = (\<lambda>(zl, h). case WithLabels grow kvs (zl_l zl, h) of (s, h') \<Rightarrow> (NewLogrAdapter s, h'))"

definition zl_WithName :: "string \<Rightarrow> zapLogger \<Rightarrow> zapLogger" where
  "zl_WithName name zl = zl"

lemma label_loop_level: "label_loop grow kvs (s, h) = (s', h') \<Longrightarrow> sc_outputLevel s' = sc_outputLevel s \<and> sc_nameToEmit s' = sc_nameToEmit s"
proof (induction grow kvs "(s, h)" arbitrary: s h rule: label_loop.induct)
  case (1 grow key v rest s h)
  obtain ks h1 where a: "append_key grow key (sc_labelKeys s, h) = (ks, h1)" by fastforce
  from 1(1) [OF a [symmetric]] 1(2) a show ?case by simp
qed auto

lemma WithLabels_level: "WithLabels grow kvs (s, h) = (s', h') \<Longrightarrow> sc_outputLevel s' = sc_outputLevel s \<and> sc_nameToEmit s' = sc_nameToEmit s"
  by (auto simp: WithLabels_def dest: label_loop_level split: if_splits)

text \<open>
  A library that asks \<open>Enabled\<close> first loses nothing and one that does not ask writes nothing more:
  a message is written exactly at the levels that are enabled, at debug level above the threshold
  and as information below it, under the name of the scope.
\<close>

lemma zl_Info_silent: "zl_Info grow w lvl msg kvs zl = Silent \<longleftrightarrow> \<not> zl_Enabled lvl zl"
proof -
  obtain s h where s: "WithLabels grow kvs (zl_l zl, lw_heap w) = (s, h)" by fastforce
  from WithLabels_level [OF s] show ?thesis
    by (auto simp: zl_Info_def s zl_Enabled_def Scope_Debug_def Scope_Info_def log_at_silent DebugEnabled_def InfoEnabled_def not_le)
qed

lemma zl_Info_written:
  assumes "zl_Enabled lvl zl"
  shows "\<exists>e. zl_Info grow w lvl msg kvs zl = Written e \<and> le_LoggerName e = sc_nameToEmit (zl_l zl) \<and>
    le_Level e = (if debugLevelThreshold < lvl then DebugLevel else InfoLevel)"
proof -
  obtain s h where s: "WithLabels grow kvs (zl_l zl, lw_heap w) = (s, h)" by fastforce
  from WithLabels_level [OF s] assms show ?thesis
    by (cases "debugLevelThreshold < lvl")
      (simp_all add: zl_Info_def s zl_Enabled_def Scope_Debug_def Scope_Info_def log_at_def getErrorStruct_def write_entry_def
        emit_def DebugEnabled_def InfoEnabled_def split: prod.split)
qed

lemma zl_Error_silent: "zl_Error grow w err msg kvs zl = Silent \<longleftrightarrow> \<not> ErrorEnabled (zl_l zl)"
proof -
  obtain s h where s: "WithLabels grow kvs (zl_l zl, lw_heap w) = (s, h)" by fastforce
  from WithLabels_level [OF s] show ?thesis
    by (auto simp: zl_Error_def s Scope_Error_def log_at_silent ErrorEnabled_def not_le)
qed

lemma trimNewline_cases: "msg = trimNewline msg \<or> msg = trimNewline msg @ [CHR 0x0A]"
  by (metis append_butlast_last_id trimNewline_def)

text \<open>The verbosity of klog: setting it before the flags exist does nothing.\<close>

lemma verbosity_needs_flags: "EnableKlogWithVerbosity v None = None"
  by (simp add: EnableKlogWithVerbosity_def)

lemma klog_debugs:
  assumes "Configure env opts st = (None, st')" "ls_klogFlags st = Some v" "v \<noteq> ''0''" "ls_scopes st' ''klog'' = Some s"
  shows "sc_outputLevel s = DebugLevel"
  using assms
  by (auto simp: Configure_def klogVerbose_def klogVerboseFlag_def set_all_def Let_def split: sum.splits prod.splits option.splits)

section \<open>Flags\<close>

datatype log_flag =
    StringArrayFlag string "string list"
  | StringFlag string string string
  | IntFlag string int
  | BoolFlag string bool

definition levelListString :: string where
  "levelListString = ''['' @ join_with '', '' (map levelToString [DebugLevel, InfoLevel, WarnLevel, ErrorLevel, FatalLevel, NoneLevel]) @ '']''"

text \<open>
  \<open>AttachFlags\<close>: the flags in the order they are registered, with their defaults and, where it depends
  on the scopes, the part of the usage text that does. \<open>names\<close> are the scopes in the order Go visits
  the map.
\<close>

definition scope_choices :: "string list \<Rightarrow> string" where
  "scope_choices names = join_with '', '' (sort (names @ [OverrideScopeName]))"

definition AttachFlags :: "string list \<Rightarrow> log_options \<Rightarrow> log_flag list" where
  "AttachFlags names opts =
     [StringArrayFlag ''log_target'' (lo_OutputPaths opts),
      StringFlag ''log_rotate'' (lo_RotateOutputPath opts) [],
      IntFlag ''log_rotate_max_age'' (lo_RotationMaxAge opts),
      IntFlag ''log_rotate_max_size'' (lo_RotationMaxSize opts),
      IntFlag ''log_rotate_max_backups'' (lo_RotationMaxBackups opts),
      BoolFlag ''log_as_json'' (lo_JSONEncoding opts)] @
     (if 1 < length names
      then [StringFlag ''log_output_level'' (lo_outputLevels opts) (''['' @ scope_choices names @ ''] and level can be one of '' @ levelListString),
            StringFlag ''log_stacktrace_level'' (lo_stackTraceLevels opts) (''['' @ scope_choices names @ ''] and level can be one of '' @ levelListString),
            StringFlag ''log_caller'' (lo_logCallers opts) (''['' @ scope_choices names @ '']'')]
      else [StringFlag ''log_output_level'' (lo_outputLevels opts) levelListString,
            StringFlag ''log_stacktrace_level'' (lo_stackTraceLevels opts) levelListString,
            StringFlag ''log_caller'' (lo_logCallers opts) ''[default]''])"

text \<open>The help text does not depend on the order of the map.\<close>

lemma AttachFlags_order:
  assumes "mset names = mset names'"
  shows "AttachFlags names opts = AttachFlags names' opts"
proof -
  have "sort (names @ [OverrideScopeName]) = sort (names' @ [OverrideScopeName])"
    using assms by (intro properties_for_sort) (simp_all add: sorted_sort)
  moreover have "length names = length names'" using assms by (metis size_mset)
  ultimately show ?thesis by (simp add: AttachFlags_def scope_choices_def)
qed

section \<open>The start\<close>

text \<open>
  The package configures itself with the defaults before anything else runs. With the standard
  streams this cannot fail, and everything up to information goes to the console.
\<close>

definition fresh_system :: "scopes \<Rightarrow> log_system" where
  "fresh_system scopes = \<lparr>ls_scopes = scopes, ls_logGrpc = False, ls_useJSON = False, ls_core = None, ls_errorSink = NilSink,
     ls_closers = 0, ls_capture = None, ls_captureCaller = False, ls_captureStack = None, ls_grpcCaptured = False,
     ls_klogSet = False, ls_klogFlags = None\<rparr>"

definition log_init :: "config_env \<Rightarrow> scopes \<Rightarrow> log_system" where
  "log_init env scopes = snd (Configure env DefaultOptions (fresh_system scopes))"

lemma log_init_console:
  assumes "scopes ''default'' = Some s" "ce_open env [''stdout''] = None" "ce_open env [''stderr''] = None"
  shows "ls_core (log_init env scopes) = Some (IoCore (ConsoleEncoder defaultEncoderConfig) (Opened [''stdout'']) FromDebug) \<and>
    ls_klogSet (log_init env scopes)"
proof -
  obtain sc where u: "updateScopes DefaultOptions (scopes, False) = (None, (sc, False), DefaultOptions)"
    using assms(1)
    by (simp add: updateScopes_def DefaultOptions_def DefaultScopeName_def convertScopedLevel_def stringToLevel_def dom_def Let_def)
  let ?c = "\<lambda>en. IoCore (ConsoleEncoder defaultEncoderConfig) (Opened [''stdout'']) en"
  have p: "prepZap (ce_open env) DefaultOptions = Inr (?c FromDebug, ?c ByDefaultScope, Opened [''stderr''])"
    using assms(2,3) by (simp add: prepZap_def DefaultOptions_def join_sinks_def rotater_sink_def options_encoder_def Let_def)
  have "lo_tee DefaultOptions = None" "lo_uds DefaultOptions = None" by (simp_all add: DefaultOptions_def)
  then show ?thesis
    by (simp add: log_init_def Configure_def fresh_system_def p u tee_cloud_def tee_uds_def klogVerbose_def Let_def)
qed

end
