(* ===== verification/Env_Var.thy ===== *)
theory Env_Var
  imports Go_Strings "HOL-Library.List_Lexorder"
begin

text \<open>
  Typed environment variables, \<open>pkg/env/var.go\<close>: the registry of descriptions and the lookups
  that fall back to a default. The registry is a map that the operations return updated. The
  environment is an argument, and so are the codecs of floating point numbers and durations,
  whose values are a type variable.
\<close>

section \<open>The registry\<close>

datatype var_type = STRING | BOOL | INT' | FLOAT | DURATION

record var =
  v_Name :: string
  v_DefaultValue :: string
  v_Description :: string
  v_Hidden :: bool
  v_Deprecated :: bool
  v_Type :: var_type

type_synonym registry = "string \<rightharpoonup> var"

text \<open>The boolean tells whether the warning about different metadata is logged.\<close>

definition RegisterVar :: "var \<Rightarrow> registry \<Rightarrow> registry \<times> bool" where
  "RegisterVar v vars =
     (case vars (v_Name v) of
        Some old \<Rightarrow>
          (if v_Description v \<noteq> [] then vars(v_Name v \<mapsto> v) else vars,
           v_Description old \<noteq> v_Description v \<or> v_DefaultValue old \<noteq> v_DefaultValue v \<or> v_Type old \<noteq> v_Type v \<or>
           v_Deprecated old \<noteq> v_Deprecated v \<or> v_Hidden old \<noteq> v_Hidden v)
      | None \<Rightarrow> (vars(v_Name v \<mapsto> v), False))"

definition zero_var :: var where
  "zero_var = \<lparr>v_Name = [], v_DefaultValue = [], v_Description = [], v_Hidden = False, v_Deprecated = False, v_Type = STRING\<rparr>"

definition getVar :: "string \<Rightarrow> registry \<Rightarrow> var" where
  "getVar name vars = (case vars name of None \<Rightarrow> zero_var | Some v \<Rightarrow> v)"

definition new_var :: "string \<Rightarrow> string \<Rightarrow> string \<Rightarrow> var_type \<Rightarrow> var" where
  "new_var name d description t =
     \<lparr>v_Name = name, v_DefaultValue = d, v_Description = description, v_Hidden = False, v_Deprecated = False, v_Type = t\<rparr>"

definition FormatBool :: "bool \<Rightarrow> string" where
  "FormatBool b = (if b then ''true'' else ''false'')"

definition ParseBool :: "string \<Rightarrow> bool option" where
  "ParseBool s =
     (if s \<in> {''1'', ''t'', ''T'', ''true'', ''TRUE'', ''True''} then Some True
      else if s \<in> {''0'', ''f'', ''F'', ''false'', ''FALSE'', ''False''} then Some False
      else None)"

definition RegisterStringVar :: "string \<Rightarrow> string \<Rightarrow> string \<Rightarrow> registry \<Rightarrow> var \<times> registry" where
  "RegisterStringVar name defaultValue description vars =
     (let vars' = fst (RegisterVar (new_var name defaultValue description STRING) vars) in (getVar name vars', vars'))"

definition RegisterBoolVar :: "string \<Rightarrow> bool \<Rightarrow> string \<Rightarrow> registry \<Rightarrow> var \<times> registry" where
  "RegisterBoolVar name defaultValue description vars =
     (let vars' = fst (RegisterVar (new_var name (FormatBool defaultValue) description BOOL) vars) in (getVar name vars', vars'))"

definition RegisterIntVar :: "string \<Rightarrow> int \<Rightarrow> string \<Rightarrow> registry \<Rightarrow> var \<times> registry" where
  "RegisterIntVar name defaultValue description vars =
     (let vars' = fst (RegisterVar (new_var name (Itoa defaultValue) description INT') vars) in (getVar name vars', vars'))"

text \<open>\<open>RegisterFloatVar\<close> returns its own variable and not the registered one.\<close>

definition RegisterFloatVar :: "('f \<Rightarrow> string) \<Rightarrow> string \<Rightarrow> 'f \<Rightarrow> string \<Rightarrow> registry \<Rightarrow> var \<times> registry" where
  "RegisterFloatVar FormatFloat name defaultValue description vars =
     (let v = new_var name (FormatFloat defaultValue) description FLOAT in (v, fst (RegisterVar v vars)))"

definition RegisterDurationVar :: "('d \<Rightarrow> string) \<Rightarrow> string \<Rightarrow> 'd \<Rightarrow> string \<Rightarrow> registry \<Rightarrow> var \<times> registry" where
  "RegisterDurationVar DurationString name defaultValue description vars =
     (let vars' = fst (RegisterVar (new_var name (DurationString defaultValue) description DURATION) vars)
      in (getVar name vars', vars'))"

text \<open>\<open>VarDescriptions\<close>: the values in the order a map is visited, sorted by name.\<close>

definition string_key :: "string \<Rightarrow> nat list" where
  "string_key s = map of_char s"

definition VarDescriptions :: "(registry \<Rightarrow> var list) \<Rightarrow> registry \<Rightarrow> var list" where
  "VarDescriptions order vars = sort_key (string_key \<circ> v_Name) (order vars)"

section \<open>Lookups\<close>

type_synonym environment = "string \<rightharpoonup> string"

definition env_text :: "environment \<Rightarrow> var \<Rightarrow> string \<times> bool" where
  "env_text env v = (case env (v_Name v) of None \<Rightarrow> (v_DefaultValue v, False) | Some s \<Rightarrow> (s, True))"

definition StringVar_Lookup :: "environment \<Rightarrow> var \<Rightarrow> string \<times> bool" where
  "StringVar_Lookup env v = env_text env v"

text \<open>
  The lookups of the other types: a value that does not parse is replaced by the default, and a
  default that does not parse by what the parser returns with its error.
\<close>

definition parsed_Lookup :: "(string \<Rightarrow> 'a option) \<Rightarrow> (string \<Rightarrow> 'a) \<Rightarrow> environment \<Rightarrow> var \<Rightarrow> 'a \<times> bool" where
  "parsed_Lookup parse on_error env v =
     (case env_text env v of (result, ok) \<Rightarrow>
        (case parse result of
           Some x \<Rightarrow> x
         | None \<Rightarrow> (case parse (v_DefaultValue v) of Some x \<Rightarrow> x | None \<Rightarrow> on_error (v_DefaultValue v)), ok))"

definition BoolVar_Lookup :: "environment \<Rightarrow> var \<Rightarrow> bool \<times> bool" where
  "BoolVar_Lookup = parsed_Lookup ParseBool (\<lambda>_. False)"

text \<open>\<open>Atoi\<close> returns the nearest number with a range error, and 0 with a syntax error.\<close>

definition Atoi_on_error :: "string \<Rightarrow> int" where
  "Atoi_on_error s =
     (let neg = (case s of c # _ \<Rightarrow> c = CHR ''-'' | [] \<Rightarrow> False);
          ds = (case s of c # cs \<Rightarrow> if c = CHR ''-'' \<or> c = CHR ''+'' then cs else s | [] \<Rightarrow> [])
      in if ds \<noteq> [] \<and> list_all is_digit ds then (if neg then - (2 ^ 63) else 2 ^ 63 - 1) else 0)"

definition IntVar_Lookup :: "environment \<Rightarrow> var \<Rightarrow> int \<times> bool" where
  "IntVar_Lookup = parsed_Lookup Atoi Atoi_on_error"

definition FloatVar_Lookup :: "(string \<Rightarrow> 'f option) \<Rightarrow> (string \<Rightarrow> 'f) \<Rightarrow> environment \<Rightarrow> var \<Rightarrow> 'f \<times> bool" where
  "FloatVar_Lookup ParseFloat on_error = parsed_Lookup ParseFloat on_error"

definition DurationVar_Lookup :: "(string \<Rightarrow> 'd option) \<Rightarrow> 'd \<Rightarrow> environment \<Rightarrow> var \<Rightarrow> 'd \<times> bool" where
  "DurationVar_Lookup ParseDuration zero = parsed_Lookup ParseDuration (\<lambda>_. zero)"

definition StringVar_Get :: "environment \<Rightarrow> var \<Rightarrow> string" where "StringVar_Get env v = fst (StringVar_Lookup env v)"
definition BoolVar_Get :: "environment \<Rightarrow> var \<Rightarrow> bool" where "BoolVar_Get env v = fst (BoolVar_Lookup env v)"
definition IntVar_Get :: "environment \<Rightarrow> var \<Rightarrow> int" where "IntVar_Get env v = fst (IntVar_Lookup env v)"
definition FloatVar_Get :: "(string \<Rightarrow> 'f option) \<Rightarrow> (string \<Rightarrow> 'f) \<Rightarrow> environment \<Rightarrow> var \<Rightarrow> 'f" where
  "FloatVar_Get parse on_error env v = fst (FloatVar_Lookup parse on_error env v)"
definition DurationVar_Get :: "(string \<Rightarrow> 'd option) \<Rightarrow> 'd \<Rightarrow> environment \<Rightarrow> var \<Rightarrow> 'd" where
  "DurationVar_Get parse zero env v = fst (DurationVar_Lookup parse zero env v)"

section \<open>A typed variable\<close>

text \<open>
  What a kind of variable promises when its codec reads back what it prints: the value of the
  environment when it parses, and the default of the registration otherwise. The locale is
  stated for a printer, a parser and a kind; the interpretations are the kinds of the code.
\<close>

locale typed_var =
  fixes print :: "'a \<Rightarrow> string" and parse :: "string \<Rightarrow> 'a option" and on_error :: "string \<Rightarrow> 'a" and good :: "'a \<Rightarrow> bool"
  assumes parse_print: "good x \<Longrightarrow> parse (print x) = Some x"
begin

lemma lookup_value:
  assumes "v_DefaultValue v = print d" "good d"
  shows "parsed_Lookup parse on_error env v =
    (case env (v_Name v) of
       None \<Rightarrow> (d, False)
     | Some s \<Rightarrow> (case parse s of None \<Rightarrow> d | Some x \<Rightarrow> x, True))"
  using parse_print [OF assms(2)] assms(1)
  by (auto simp: parsed_Lookup_def env_text_def split: option.splits)

end

interpretation bool_var: typed_var FormatBool ParseBool "\<lambda>_. False" "\<lambda>_. True"
  by unfold_locales (simp add: FormatBool_def ParseBool_def)

interpretation int_var: typed_var Itoa Atoi Atoi_on_error "\<lambda>i. - (2 ^ 63) \<le> i \<and> i < 2 ^ 63"
  by unfold_locales (simp add: Atoi_Itoa)

lemma new_var_simps [simp]:
  "v_Name (new_var name d description t) = name" "v_DefaultValue (new_var name d description t) = d"
  by (simp_all add: new_var_def)

lemma getVar_registered:
  assumes "vars name = None \<or> description \<noteq> []"
  shows "getVar name (fst (RegisterVar (new_var name d description t) vars)) = new_var name d description t"
  using assms by (auto simp: getVar_def RegisterVar_def new_var_def split: option.splits)

text \<open>
  A variable that is registered with a description, or for the first time, reads as the
  environment says when that parses, and as its own default otherwise.
\<close>

lemma int_variable:
  assumes "vars name = None \<or> description \<noteq> []" "- (2 ^ 63) \<le> d" "d < 2 ^ 63"
  shows "IntVar_Lookup env (fst (RegisterIntVar name d description vars)) =
    (case env name of None \<Rightarrow> (d, False) | Some s \<Rightarrow> (case Atoi s of None \<Rightarrow> d | Some x \<Rightarrow> x, True))"
  using int_var.lookup_value [of "new_var name (Itoa d) description INT'" d env] assms
  by (simp add: RegisterIntVar_def getVar_registered IntVar_Lookup_def Let_def)

lemma bool_variable:
  assumes "vars name = None \<or> description \<noteq> []"
  shows "BoolVar_Lookup env (fst (RegisterBoolVar name d description vars)) =
    (case env name of None \<Rightarrow> (d, False) | Some s \<Rightarrow> (case ParseBool s of None \<Rightarrow> d | Some x \<Rightarrow> x, True))"
  using bool_var.lookup_value [of "new_var name (FormatBool d) description BOOL" d env] assms
  by (simp add: RegisterBoolVar_def getVar_registered BoolVar_Lookup_def Let_def)

text \<open>
  Registering a name again without a description gives the variable of the first registration,
  with its default; for a float it gives the new default.
\<close>

lemma undescribed_int_keeps_first:
  assumes "vars name = Some old"
  shows "RegisterIntVar name d [] vars = (old, vars)"
  using assms by (simp add: RegisterIntVar_def RegisterVar_def new_var_def getVar_def Let_def)

lemma undescribed_float_takes_new:
  assumes "vars name = Some old"
  shows "RegisterFloatVar fmt name d [] vars = (new_var name (fmt d) [] FLOAT, vars)"
  using assms by (simp add: RegisterFloatVar_def RegisterVar_def new_var_def Let_def)

text \<open>The registry maps every name to a variable of that name, and the listing is sorted and complete.\<close>

definition registry_ok :: "registry \<Rightarrow> bool" where
  "registry_ok vars \<longleftrightarrow> (\<forall>n v. vars n = Some v \<longrightarrow> v_Name v = n)"

lemma registry_ok_empty: "registry_ok Map.empty"
  by (simp add: registry_ok_def)

lemma registry_ok_RegisterVar: "registry_ok vars \<Longrightarrow> registry_ok (fst (RegisterVar v vars))"
  by (auto simp: registry_ok_def RegisterVar_def split: option.splits)

lemma VarDescriptions_sorted: "sorted (map (string_key \<circ> v_Name) (VarDescriptions order vars))"
  unfolding VarDescriptions_def by (rule sorted_sort_key)

lemma VarDescriptions_complete:
  "set (order vars) = ran vars \<Longrightarrow> set (VarDescriptions order vars) = ran vars"
  by (simp add: VarDescriptions_def)

text \<open>So the listing does not depend on the order in which the map is visited.\<close>

lemma string_key_inj: "inj string_key"
  unfolding string_key_def by (rule inj_mapI) (auto intro: injI)

lemma VarDescriptions_unique:
  assumes "registry_ok vars" "set (order vars) = ran vars" "distinct (order vars)"
    and "set (order' vars) = ran vars" "distinct (order' vars)"
  shows "VarDescriptions order vars = VarDescriptions order' vars"
proof -
  let ?k = "string_key \<circ> v_Name"
  have inj: "inj_on ?k (ran vars)"
    using assms(1) string_key_inj by (fastforce simp: inj_on_def registry_ok_def ran_def dest: injD)
  show ?thesis
    by (rule map_sorted_distinct_set_unique [where f = ?k])
      (use assms inj in \<open>auto simp: VarDescriptions_def distinct_map sorted_sort_key [unfolded o_def] simp del: o_apply\<close>)
qed

end
