(* ===== verification/Trace_Reader.thy ===== *)
theory Trace_Reader
  imports Log_Config Iptables_Builder Env_Var
begin

text \<open>
  The reader of traced packets, \<open>iptables/pkg/log/nflog.go\<close>: what the kernel reports for a packet that
  met a logging rule is turned into an entry of the scope \<open>iptables\<close>. The socket, the parser of IP
  headers and the names of interfaces are arguments.
\<close>

definition IDToCommand :: "string \<rightharpoonup> command" where
  "IDToCommand = map_of [(''JumpInbound'', JumpInbound), (''JumpOutbound'', JumpOutbound),
     (''ExcludeInboundPort'', ExcludeInboundPort), (''IncludeInboundPort'', IncludeInboundPort),
     (''InboundCapture'', InboundCapture), (''KubevirtCommand'', KubevirtCommand),
     (''ExcludeInterfaceCommand'', ExcludeInterfaceCommand), (''UndefinedCommand'', UndefinedCommand)]"

text \<open>A command that is not in the table is the zero value.\<close>

definition comment_of :: "string \<Rightarrow> string" where
  "comment_of pre = (case IDToCommand pre of Some c \<Rightarrow> Comment c | None \<Rightarrow> [])"

record nflog_attr =
  na_Payload :: "byte list option"
  na_Prefix :: "string option"
  na_UID :: "32 word option"
  na_GID :: "32 word option"
  na_InDev :: "32 word option"
  na_OutDev :: "32 word option"

record nflog_env =
  nx_header :: "byte list \<Rightarrow> (string \<times> string) option"
  nx_interface :: "int \<Rightarrow> string option"

definition device_name :: "nflog_env \<Rightarrow> 32 word option \<Rightarrow> string" where
  "device_name env dev = (case dev of None \<Rightarrow> [] | Some i \<Rightarrow> (case nx_interface env (uint i) of None \<Rightarrow> [] | Some n \<Rightarrow> n))"

definition packet_ends :: "nflog_env \<Rightarrow> nflog_attr \<Rightarrow> string \<times> string" where
  "packet_ends env a =
     (case na_Payload a of
        None \<Rightarrow> ([], [])
      | Some bs \<Rightarrow> (case nx_header env bs of None \<Rightarrow> ([], []) | Some ends \<Rightarrow> ends))"

definition id_text :: "32 word option \<Rightarrow> string" where
  "id_text x = nat_digits (case x of None \<Rightarrow> 0 | Some n \<Rightarrow> unat n)"

definition trace_prefix :: "nflog_attr \<Rightarrow> string" where
  "trace_prefix a = (case na_Prefix a of None \<Rightarrow> [] | Some p \<Rightarrow> p)"

definition trace_labels :: "nflog_env \<Rightarrow> nflog_attr \<Rightarrow> label_arg list" where
  "trace_labels env a =
     (case packet_ends env a of (src, dst) \<Rightarrow>
        [LString ''command'', LString (trace_prefix a), LString ''uid'', LOther (id_text (na_UID a)) ''uint32'',
         LString ''gid'', LOther (id_text (na_GID a)) ''uint32'', LString ''inDev'', LString (device_name env (na_InDev a)),
         LString ''outDev'', LString (device_name env (na_OutDev a)), LString ''src'', LString src, LString ''dst'', LString dst])"

text \<open>The callback for a packet, on the scope that was registered for it.\<close>

definition nflog_callback :: "(nat \<Rightarrow> nat) \<Rightarrow> log_world \<Rightarrow> nflog_env \<Rightarrow> scope \<Rightarrow> nflog_attr \<Rightarrow> log_outcome" where
  "nflog_callback grow w env iptablesTrace a =
     (case WithLabels grow (trace_labels env a) (iptablesTrace, lw_heap w) of (s, h) \<Rightarrow>
        Scope_Infof (w\<lparr>lw_heap := h\<rparr>) s [OtherArg (comment_of (trace_prefix a))])"

datatype trace_end = TraceOff | OpenFailed string | RegisterFailed string | ContextDone

text \<open>\<open>ReadNFLOGSocket\<close>: the entries of the packets that come before the context ends.\<close>

definition TraceLoggingEnabled :: "environment \<Rightarrow> bool" where
  "TraceLoggingEnabled env = BoolVar_Get env (new_var ''IPTABLES_TRACE_LOGGING'' (FormatBool False)
     ''When enable, all iptables actions will be logged. This requires NET_ADMIN privilege and has noisy logs; as a result, this is intended for debugging only'' BOOL)"

definition ReadNFLOGSocket ::
  "(nat \<Rightarrow> nat) \<Rightarrow> log_world \<Rightarrow> environment \<Rightarrow> nflog_env \<Rightarrow> scope \<Rightarrow> string option \<Rightarrow> string option \<Rightarrow> nflog_attr list \<Rightarrow> log_outcome list \<times> trace_end" where
  "ReadNFLOGSocket grow w e env iptablesTrace openErr registerErr packets =
     (if \<not> TraceLoggingEnabled e then ([], TraceOff)
      else (case openErr of
              Some err \<Rightarrow> ([], OpenFailed err)
            | None \<Rightarrow>
                (case registerErr of
                   Some err \<Rightarrow> ([], RegisterFailed err)
                 | None \<Rightarrow> (map (nflog_callback grow w env iptablesTrace) packets, ContextDone))))"

section \<open>Rules and their comments\<close>

definition traced_commands :: "command list" where
  "traced_commands = [JumpInbound, JumpOutbound, ExcludeInboundPort, IncludeInboundPort, InboundCapture, KubevirtCommand,
     ExcludeInterfaceCommand, UndefinedCommand]"

lemmas command_defs = JumpInbound_def JumpOutbound_def ExcludeInboundPort_def IncludeInboundPort_def InboundCapture_def
  KubevirtCommand_def ExcludeInterfaceCommand_def UndefinedCommand_def

text \<open>Every command finds its own comment by its identifier, which is short enough for the kernel.\<close>

lemma identifier_comment:
  "list_all (\<lambda>c. comment_of (Identifier c) = Comment c \<and> length (Identifier c) < 64) traced_commands"
  by (simp add: traced_commands_def comment_of_def IDToCommand_def command_defs)

text \<open>
  The rule carries the identifier in quotes. \<open>iptables-restore\<close> removes them; when the rules are
  executed as single commands there is no shell to do so, the prefix of the packets has the
  quotes, and no comment is found for it.
\<close>

lemma quoted_identifier_unknown: "list_all (\<lambda>c. comment_of (go_quote (Identifier c)) = []) traced_commands"
  by (simp add: traced_commands_def comment_of_def IDToCommand_def command_defs go_quote_def)

text \<open>A packet is traced when the scope lets information through, with all labels in order.\<close>

lemma callback_written:
  assumes "InfoEnabled iptablesTrace"
  shows "\<exists>e. nflog_callback grow w env iptablesTrace a = Written e \<and> le_LoggerName e = sc_nameToEmit iptablesTrace"
proof -
  obtain s h where s: "WithLabels grow (trace_labels env a) (iptablesTrace, lw_heap w) = (s, h)" by fastforce
  from WithLabels_level [OF s] assms show ?thesis
    by (simp add: nflog_callback_def s Scope_Infof_def logf_at_def getErrorStruct_def InfoEnabled_def write_entry_def emit_def Let_def
        split: prod.split)
qed

lemma callback_labels:
  assumes "WithLabels grow (trace_labels env a) (iptablesTrace, h) = (s, h')" "slice_ok h (sc_labelKeys iptablesTrace)" "\<And>n. n < grow n"
  shows "slice_keys h' (sc_labelKeys s) =
    slice_keys h (sc_labelKeys iptablesTrace) @ [''command'', ''uid'', ''gid'', ''inDev'', ''outDev'', ''src'', ''dst'']"
proof -
  obtain src dst where "packet_ends env a = (src, dst)" by fastforce
  then obtain ps where ps: "label_pairs (trace_labels env a) = Some ps"
    "map fst ps = [''command'', ''uid'', ''gid'', ''inDev'', ''outDev'', ''src'', ''dst'']"
    by (auto simp: trace_labels_def)
  from WithLabels_labels [OF assms(1) ps(1) assms(2,3)] ps(2) show ?thesis by simp
qed

end
