(* ===== verification/Iptables_Command.thy ===== *)
theory Iptables_Command
  imports Iptables_Exec Env_Var
begin

text \<open>
  The command lines of the two programs, \<open>iptables/pkg/cmd/root.go\<close> and \<open>clean-iptables/pkg/cmd/root.go\<close>:
  flags, their binding to settings, what is read from the settings, and the commands from there to
  the exit code. The library that resolves a setting from flag, environment and default is an
  argument, and so are its conversions; what its documentation promises are the predicates
  \<open>documented_get\<close> and \<open>documented_casts\<close>.
\<close>

section \<open>Names of settings\<close>

definition key_InboundInterceptionMode :: string where "key_InboundInterceptionMode = ''istio-inbound-interception-mode''"
definition key_InboundTProxyMark :: string where "key_InboundTProxyMark = ''istio-inbound-tproxy-mark''"
definition key_InboundTProxyRouteTable :: string where "key_InboundTProxyRouteTable = ''istio-inbound-tproxy-route-table''"
definition key_InboundPorts :: string where "key_InboundPorts = ''istio-inbound-ports''"
definition key_LocalExcludePorts :: string where "key_LocalExcludePorts = ''istio-local-exclude-ports''"
definition key_ExcludeInterfaces :: string where "key_ExcludeInterfaces = ''istio-exclude-interfaces''"
definition key_ServiceCidr :: string where "key_ServiceCidr = ''istio-service-cidr''"
definition key_ServiceExcludeCidr :: string where "key_ServiceExcludeCidr = ''istio-service-exclude-cidr''"
definition key_OutboundPorts :: string where "key_OutboundPorts = ''istio-outbound-ports''"
definition key_LocalOutboundPortsExclude :: string where "key_LocalOutboundPortsExclude = ''istio-local-outbound-ports-exclude''"
definition key_EnvoyPort :: string where "key_EnvoyPort = ''envoy-port''"
definition key_InboundCapturePort :: string where "key_InboundCapturePort = ''inbound-capture-port''"
definition key_InboundTunnelPort :: string where "key_InboundTunnelPort = ''inbound-tunnel-port''"
definition key_ProxyUID :: string where "key_ProxyUID = ''proxy-uid''"
definition key_ProxyGID :: string where "key_ProxyGID = ''proxy-gid''"
definition key_KubeVirtInterfaces :: string where "key_KubeVirtInterfaces = ''kube-virt-interfaces''"
definition key_DryRun :: string where "key_DryRun = ''dry-run''"
definition key_TraceLogging :: string where "key_TraceLogging = ''iptables-trace-logging''"
definition key_RestoreFormat :: string where "key_RestoreFormat = ''restore-format''"
definition key_SkipRuleApply :: string where "key_SkipRuleApply = ''skip-rule-apply''"
definition key_RunValidation :: string where "key_RunValidation = ''run-validation''"
definition key_IptablesProbePort :: string where "key_IptablesProbePort = ''iptables-probe-port''"
definition key_ProbeTimeout :: string where "key_ProbeTimeout = ''probe-timeout''"
definition key_RedirectDNS :: string where "key_RedirectDNS = ''redirect-dns''"
definition key_DropInvalid :: string where "key_DropInvalid = ''drop-invalid''"
definition key_CaptureAllDNS :: string where "key_CaptureAllDNS = ''capture-all-dns''"
definition key_OutputPath :: string where "key_OutputPath = ''output-paths''"
definition key_NetworkNamespace :: string where "key_NetworkNamespace = ''network-namespace''"
definition key_CNIMode :: string where "key_CNIMode = ''cni-mode''"
definition key_OwnerGroupsInclude :: string where "key_OwnerGroupsInclude = ''ISTIO_OUTBOUND_OWNER_GROUPS''"
definition key_OwnerGroupsExclude :: string where "key_OwnerGroupsExclude = ''ISTIO_OUTBOUND_OWNER_GROUPS_EXCLUDE''"

lemmas setting_keys = key_InboundInterceptionMode_def key_InboundTProxyMark_def key_InboundTProxyRouteTable_def key_InboundPorts_def key_LocalExcludePorts_def
  key_ExcludeInterfaces_def key_ServiceCidr_def key_ServiceExcludeCidr_def key_OutboundPorts_def key_LocalOutboundPortsExclude_def
  key_EnvoyPort_def key_InboundCapturePort_def key_InboundTunnelPort_def key_ProxyUID_def key_ProxyGID_def
  key_KubeVirtInterfaces_def key_DryRun_def key_TraceLogging_def key_RestoreFormat_def key_SkipRuleApply_def
  key_RunValidation_def key_IptablesProbePort_def key_ProbeTimeout_def key_RedirectDNS_def key_DropInvalid_def
  key_CaptureAllDNS_def key_OutputPath_def key_NetworkNamespace_def key_CNIMode_def key_OwnerGroupsInclude_def
  key_OwnerGroupsExclude_def

definition DefaultIptablesProbePort :: string where "DefaultIptablesProbePort = ''15002''"
definition DefaultProbeTimeout :: int where "DefaultProbeTimeout = 5 * 1000000000"
definition ValidationErrorCode :: int where "ValidationErrorCode = 126"
definition CommandConfigureRoutes :: string where "CommandConfigureRoutes = ''configure-routes''"

section \<open>Flags and bindings\<close>

text \<open>A value of a setting; a registered variable is one too, since any Go value can be stored.\<close>

datatype setting = SString string | SBool bool | SDuration int | SVar var | SNil

datatype setting_kind = KString | KBool | KDuration | KOther

fun kind_of :: "setting \<Rightarrow> setting_kind" where
  "kind_of (SString _) = KString"
| "kind_of (SBool _) = KBool"
| "kind_of (SDuration _) = KDuration"
| "kind_of (SVar _) = KOther"
| "kind_of SNil = KOther"

record cmd_flag =
  cmd_name :: string
  cmd_short :: string
  cmd_default :: setting

text \<open>\<open>dns\<close> and \<open>invalid\<close> are the values of the two variables at the start of the program.\<close>

definition bindCmdlineFlags :: "bool \<Rightarrow> bool \<Rightarrow> cmd_flag list" where
  "bindCmdlineFlags dns invalid = map (\<lambda>(n, s, d). \<lparr>cmd_name = n, cmd_short = s, cmd_default = d\<rparr>)
    [(key_EnvoyPort, ''p'', SString []), (key_InboundCapturePort, ''z'', SString []),
     (key_InboundTunnelPort, ''e'', SString []), (key_ProxyUID, ''u'', SString []),
     (key_ProxyGID, ''g'', SString []), (key_InboundInterceptionMode, ''m'', SString []),
     (key_InboundPorts, ''b'', SString []), (key_LocalExcludePorts, ''d'', SString []),
     (key_ExcludeInterfaces, '''', SString []), (key_ServiceCidr, ''i'', SString []),
     (key_ServiceExcludeCidr, ''x'', SString []), (key_OutboundPorts, ''q'', SString []),
     (key_LocalOutboundPortsExclude, ''o'', SString []), (key_KubeVirtInterfaces, ''k'', SString []),
     (key_InboundTProxyMark, ''t'', SString []), (key_InboundTProxyRouteTable, ''r'', SString []),
     (key_DryRun, ''n'', SBool False), (key_TraceLogging, '''', SBool False),
     (key_RestoreFormat, ''f'', SBool True), (key_IptablesProbePort, '''', SString DefaultIptablesProbePort),
     (key_ProbeTimeout, '''', SDuration DefaultProbeTimeout), (key_SkipRuleApply, '''', SBool False),
     (key_RunValidation, '''', SBool False), (key_RedirectDNS, '''', SBool dns),
     (key_DropInvalid, '''', SBool invalid), (key_CaptureAllDNS, '''', SBool False),
     (key_OutputPath, '''', SString []), (key_NetworkNamespace, '''', SString []),
     (key_CNIMode, '''', SBool False)]"

definition clean_flags :: "bool \<Rightarrow> cmd_flag list" where
  "clean_flags dns = map (\<lambda>(n, s, d). \<lparr>cmd_name = n, cmd_short = s, cmd_default = d\<rparr>)
    [(key_DryRun, ''n'', SBool False), (key_ProxyUID, ''u'', SString []), (key_ProxyGID, ''g'', SString []),
     (key_RedirectDNS, [], SBool dns)]"

datatype binding = BindPFlag string | BindEnv string | SetDefault string setting

text \<open>The calls of \<open>bindFlags\<close>, after \<open>AutomaticEnv\<close> and the replacement of \<open>-\<close> by \<open>_\<close>.\<close>

definition bindFlags_calls :: "bool \<Rightarrow> var \<Rightarrow> binding list" where
  "bindFlags_calls dns invalidVar =
    [BindPFlag key_EnvoyPort, SetDefault key_EnvoyPort (SString ''15001''),
     BindPFlag key_InboundCapturePort, SetDefault key_InboundCapturePort (SString ''15006''),
     BindPFlag key_InboundTunnelPort, SetDefault key_InboundTunnelPort (SString ''15008''),
     BindPFlag key_ProxyUID, SetDefault key_ProxyUID (SString []),
     BindPFlag key_ProxyGID, SetDefault key_ProxyGID (SString []),
     BindPFlag key_InboundInterceptionMode, SetDefault key_InboundInterceptionMode (SString []),
     BindPFlag key_InboundPorts, SetDefault key_InboundPorts (SString []),
     BindPFlag key_LocalExcludePorts, SetDefault key_LocalExcludePorts (SString []),
     BindPFlag key_ExcludeInterfaces, SetDefault key_ExcludeInterfaces (SString []),
     BindPFlag key_ServiceCidr, SetDefault key_ServiceCidr (SString []),
     BindPFlag key_ServiceExcludeCidr, SetDefault key_ServiceExcludeCidr (SString []),
     BindEnv key_OwnerGroupsInclude, SetDefault key_OwnerGroupsInclude (SString ''*''),
     BindEnv key_OwnerGroupsExclude, SetDefault key_OwnerGroupsExclude (SString []),
     BindPFlag key_OutboundPorts, SetDefault key_OutboundPorts (SString []),
     BindPFlag key_LocalOutboundPortsExclude, SetDefault key_LocalOutboundPortsExclude (SString []),
     BindPFlag key_KubeVirtInterfaces, SetDefault key_KubeVirtInterfaces (SString []),
     BindPFlag key_InboundTProxyMark, SetDefault key_InboundTProxyMark (SString ''1337''),
     BindPFlag key_InboundTProxyRouteTable, SetDefault key_InboundTProxyRouteTable (SString ''133''),
     BindPFlag key_DryRun, SetDefault key_DryRun (SBool False),
     BindPFlag key_TraceLogging, SetDefault key_TraceLogging (SBool False),
     BindPFlag key_RestoreFormat, SetDefault key_RestoreFormat (SBool True),
     BindPFlag key_IptablesProbePort, SetDefault key_IptablesProbePort (SString DefaultIptablesProbePort),
     BindPFlag key_ProbeTimeout, SetDefault key_ProbeTimeout (SDuration DefaultProbeTimeout),
     BindPFlag key_SkipRuleApply, SetDefault key_SkipRuleApply (SBool False),
     BindPFlag key_RunValidation, SetDefault key_RunValidation (SBool False),
     BindPFlag key_RedirectDNS, SetDefault key_RedirectDNS (SBool dns),
     BindPFlag key_DropInvalid, SetDefault key_DropInvalid (SVar invalidVar),
     BindPFlag key_CaptureAllDNS, SetDefault key_CaptureAllDNS (SBool False),
     BindPFlag key_OutputPath, SetDefault key_OutputPath (SString []),
     BindPFlag key_NetworkNamespace, SetDefault key_NetworkNamespace (SString []),
     BindPFlag key_CNIMode, SetDefault key_CNIMode (SBool False)]"

definition clean_bindFlags_calls :: "bool \<Rightarrow> binding list" where
  "clean_bindFlags_calls dns =
    [BindPFlag key_DryRun, SetDefault key_DryRun (SBool False), BindPFlag key_ProxyUID, SetDefault key_ProxyUID (SString []),
     BindPFlag key_ProxyGID, SetDefault key_ProxyGID (SString []), BindPFlag key_RedirectDNS, SetDefault key_RedirectDNS (SBool dns),
     BindEnv key_OwnerGroupsInclude, SetDefault key_OwnerGroupsInclude (SString ''*''),
     BindEnv key_OwnerGroupsExclude, SetDefault key_OwnerGroupsExclude (SString [])]"

text \<open>What the library was told: the flags that are bound, and the defaults.\<close>

record bindings =
  bd_flags :: "string \<rightharpoonup> cmd_flag"
  bd_defaults :: "string \<rightharpoonup> setting"

definition cmd_Lookup :: "cmd_flag list \<Rightarrow> string \<Rightarrow> cmd_flag option" where
  "cmd_Lookup flags name = find (\<lambda>f. cmd_name f = name) flags"

text \<open>A binding to a flag that does not exist ends the program (\<open>None\<close>).\<close>

fun bind_calls :: "cmd_flag list \<Rightarrow> binding list \<Rightarrow> bindings \<Rightarrow> bindings option" where
  "bind_calls flags [] b = Some b"
| "bind_calls flags (BindPFlag key # cs) b =
     (case cmd_Lookup flags key of
        None \<Rightarrow> None
      | Some f \<Rightarrow> bind_calls flags cs (b\<lparr>bd_flags := (bd_flags b)(key \<mapsto> f)\<rparr>))"
| "bind_calls flags (BindEnv key # cs) b = bind_calls flags cs b"
| "bind_calls flags (SetDefault key v # cs) b = bind_calls flags cs (b\<lparr>bd_defaults := (bd_defaults b)(key \<mapsto> v)\<rparr>)"

definition no_bindings :: bindings where
  "no_bindings = \<lparr>bd_flags = Map.empty, bd_defaults = Map.empty\<rparr>"

text \<open>The variables of the program, with the environment it started in.\<close>

definition dnsCaptureByAgent :: "environment \<Rightarrow> bool" where
  "dnsCaptureByAgent env = BoolVar_Get env (new_var ''IDEFAV_META_DNS_CAPTURE'' (FormatBool False)
     ''If set to true, enable the capture of outgoing DNS packets on port 53, redirecting to istio-agent on :15053'' BOOL)"

definition InvalidDropByIptables :: var where
  "InvalidDropByIptables = new_var ''INVALID_DROP'' (FormatBool False)
     ''If set to true, enable the invalid drop iptables rule, default false will cause iptables reset out of window packets'' BOOL"

definition clean_dnsCaptureByAgent :: "environment \<Rightarrow> bool" where
  "clean_dnsCaptureByAgent env = BoolVar_Get env (new_var ''ISTIO_META_DNS_CAPTURE'' (FormatBool False)
     ''If set to true, enable the capture of outgoing DNS packets on port 53, redirecting to istio-agent on :15053'' BOOL)"

definition root_flags :: "environment \<Rightarrow> cmd_flag list" where
  "root_flags env = bindCmdlineFlags (dnsCaptureByAgent env) (BoolVar_Get env InvalidDropByIptables)"

definition iptables_bindFlags :: "environment \<Rightarrow> bindings option" where
  "iptables_bindFlags env = bind_calls (root_flags env) (bindFlags_calls (dnsCaptureByAgent env) InvalidDropByIptables) no_bindings"

definition clean_bindFlags :: "environment \<Rightarrow> bindings option" where
  "clean_bindFlags env =
     bind_calls (clean_flags (clean_dnsCaptureByAgent env)) (clean_bindFlags_calls (clean_dnsCaptureByAgent env)) no_bindings"

section \<open>Reading settings\<close>

text \<open>The variable that belongs to a setting; an empty variable counts as not set.\<close>

definition env_key :: "string \<Rightarrow> string" where
  "env_key k = map (\<lambda>c. upper_char (if c = CHR ''-'' then CHR ''_'' else c)) k"

definition env_setting :: "environment \<Rightarrow> string \<Rightarrow> string option" where
  "env_setting env key = (case env (env_key key) of Some s \<Rightarrow> if s = [] then None else Some s | None \<Rightarrow> None)"

text \<open>
  The order in which a setting is resolved, as documented: a flag that was given, the environment,
  the default that was set, the default of the flag. \<open>given\<close> holds the flags on the command line.
\<close>

definition documented_get :: "(string \<rightharpoonup> setting) \<Rightarrow> environment \<Rightarrow> bindings \<Rightarrow> (string \<Rightarrow> setting) \<Rightarrow> bool" where
  "documented_get given env b get \<longleftrightarrow>
     (\<forall>key.
        (bd_flags b key \<noteq> None \<longrightarrow> (\<forall>v. given key = Some v \<longrightarrow> get key = v)) \<and>
        (bd_flags b key = None \<or> given key = None \<longrightarrow>
           (case env_setting env key of
              Some s \<Rightarrow> get key = SString s
            | None \<Rightarrow>
                (case bd_defaults b key of
                   Some d \<Rightarrow> get key = d
                 | None \<Rightarrow> get key = (case bd_flags b key of Some f \<Rightarrow> cmd_default f | None \<Rightarrow> SNil)))))"

text \<open>Conversions: a text is parsed, and a value of another type is converted to the zero value.\<close>

record casts =
  ca_bool :: "setting \<Rightarrow> bool"
  ca_string :: "setting \<Rightarrow> string"
  ca_uint :: "setting \<Rightarrow> nat"
  ca_duration :: "setting \<Rightarrow> int"

definition documented_casts :: "casts \<Rightarrow> bool" where
  "documented_casts ca \<longleftrightarrow>
     (\<forall>b. ca_bool ca (SBool b) = b) \<and>
     (\<forall>s. ca_bool ca (SString s) = (case ParseBool s of Some b \<Rightarrow> b | None \<Rightarrow> False)) \<and>
     (\<forall>v. ca_bool ca (SVar v) = False) \<and> ca_bool ca SNil = False \<and>
     (\<forall>s. ca_string ca (SString s) = s) \<and>
     (\<forall>n. n < 2 ^ 63 \<longrightarrow> ca_uint ca (SString (nat_digits n)) = n) \<and>
     (\<forall>d. ca_duration ca (SDuration d) = d)"

record cmd_config =
  cg_ipt :: ipt_config
  cg_DryRun :: bool
  cg_RouteTable :: string
  cg_ProbePort :: "16 word"
  cg_ProbeTimeout :: int
  cg_SkipRuleApply :: bool
  cg_RunValidation :: bool
  cg_NetworkNamespace :: string
  cg_CNIMode :: bool

text \<open>The literal at the beginning of \<open>constructConfig\<close>; the port of the probe is cut to 16 bits.\<close>

definition raw_config :: "casts \<Rightarrow> (string \<Rightarrow> setting) \<Rightarrow> cmd_config" where
  "raw_config ca get =
     (let str = (\<lambda>k. ca_string ca (get k)); bl = (\<lambda>k. ca_bool ca (get k)) in
      \<lparr>cg_ipt = zero_config\<lparr>
         TraceLogging := bl key_TraceLogging, RestoreFormat := bl key_RestoreFormat,
         ProxyPort := str key_EnvoyPort, InboundCapturePort := str key_InboundCapturePort,
         InboundTunnelPort := str key_InboundTunnelPort, ProxyUID := str key_ProxyUID, ProxyGID := str key_ProxyGID,
         InboundInterceptionMode := str key_InboundInterceptionMode, InboundTProxyMark := str key_InboundTProxyMark,
         InboundPortsInclude := str key_InboundPorts, InboundPortsExclude := str key_LocalExcludePorts,
         OwnerGroupsInclude := str key_OwnerGroupsInclude, OwnerGroupsExclude := str key_OwnerGroupsExclude,
         OutboundPortsInclude := str key_OutboundPorts, OutboundPortsExclude := str key_LocalOutboundPortsExclude,
         OutboundIPRangesInclude := str key_ServiceCidr, OutboundIPRangesExclude := str key_ServiceExcludeCidr,
         KubeVirtInterfaces := str key_KubeVirtInterfaces, ExcludeInterfaces := str key_ExcludeInterfaces,
         RedirectDNS := bl key_RedirectDNS, DropInvalid := bl key_DropInvalid, CaptureAllDNS := bl key_CaptureAllDNS,
         OutputPath := str key_OutputPath\<rparr>,
       cg_DryRun = bl key_DryRun, cg_RouteTable = str key_InboundTProxyRouteTable,
       cg_ProbePort = of_nat (ca_uint ca (get key_IptablesProbePort)),
       cg_ProbeTimeout = ca_duration ca (get key_ProbeTimeout),
       cg_SkipRuleApply = bl key_SkipRuleApply, cg_RunValidation = bl key_RunValidation,
       cg_NetworkNamespace = str key_NetworkNamespace, cg_CNIMode = bl key_CNIMode\<rparr>)"

definition clean_raw_config :: "casts \<Rightarrow> (string \<Rightarrow> setting) \<Rightarrow> clean_config" where
  "clean_raw_config ca get =
     (let str = (\<lambda>k. ca_string ca (get k)); bl = (\<lambda>k. ca_bool ca (get k)) in
      \<lparr>cc_ProxyUID = str key_ProxyUID, cc_ProxyGID = str key_ProxyGID, cc_RedirectDNS = bl key_RedirectDNS,
       cc_DNSServersV4 = [], cc_DNSServersV6 = [], cc_CaptureAllDNS = bl key_CaptureAllDNS,
       cc_OwnerGroupsInclude = str key_OwnerGroupsInclude, cc_OwnerGroupsExclude = str key_OwnerGroupsExclude\<rparr>)"

subsection \<open>What is bound\<close>

fun default_calls :: "binding list \<Rightarrow> (string \<times> setting) list" where
  "default_calls [] = []"
| "default_calls (SetDefault key v # cs) = (key, v) # default_calls cs"
| "default_calls (_ # cs) = default_calls cs"

fun flag_calls :: "binding list \<Rightarrow> string list" where
  "flag_calls [] = []"
| "flag_calls (BindPFlag key # cs) = key # flag_calls cs"
| "flag_calls (_ # cs) = flag_calls cs"

lemma bind_calls_result:
  "bind_calls flags cs b = Some b' \<Longrightarrow>
   bd_defaults b' = bd_defaults b ++ map_of (rev (default_calls cs)) \<and>
   (\<forall>key. bd_flags b' key = (if key \<in> set (flag_calls cs) then cmd_Lookup flags key else bd_flags b key))"
  by (induction flags cs b rule: bind_calls.induct) (auto simp: map_add_upd split: option.splits)

lemma bind_calls_ok:
  "(\<exists>b'. bind_calls flags cs b = Some b') \<longleftrightarrow> (\<forall>key\<in>set (flag_calls cs). cmd_Lookup flags key \<noteq> None)"
  by (induction flags cs b rule: bind_calls.induct) (auto split: option.splits)

lemma cmd_Lookup_names: "cmd_Lookup flags key \<noteq> None \<longleftrightarrow> key \<in> set (map cmd_name flags)"
  by (auto simp: cmd_Lookup_def find_None_iff image_iff)

lemma iptables_bindings:
  "set (flag_calls (bindFlags_calls dns v)) = set (map cmd_name (bindCmdlineFlags dns' i))"
  "set (flag_calls (clean_bindFlags_calls dns)) = set (map cmd_name (clean_flags dns'))"
  by (auto simp: bindFlags_calls_def bindCmdlineFlags_def clean_bindFlags_calls_def clean_flags_def)

text \<open>Every setting is bound to a flag that exists, so that neither command ends before it starts.\<close>

lemma iptables_bindFlags_ok: "\<exists>b. iptables_bindFlags env = Some b"
  unfolding iptables_bindFlags_def root_flags_def bind_calls_ok cmd_Lookup_names
    iptables_bindings(1) [of _ _ "dnsCaptureByAgent env" "BoolVar_Get env InvalidDropByIptables"]
  by blast

lemma clean_bindFlags_ok: "\<exists>b. clean_bindFlags env = Some b"
  unfolding clean_bindFlags_def bind_calls_ok cmd_Lookup_names iptables_bindings(2) [of _ "clean_dnsCaptureByAgent env"]
  by blast

lemma distinct_settings: "distinct (map fst (default_calls (bindFlags_calls dns v)))"
  by (simp add: bindFlags_calls_def setting_keys)

lemma iptables_default:
  assumes "iptables_bindFlags env = Some b" "(key, d) \<in> set (default_calls (bindFlags_calls (dnsCaptureByAgent env) InvalidDropByIptables))"
  shows "bd_defaults b key = Some d"
proof -
  have "bd_defaults b = map_of (rev (default_calls (bindFlags_calls (dnsCaptureByAgent env) InvalidDropByIptables)))"
    using bind_calls_result [OF assms(1) [unfolded iptables_bindFlags_def]] by (simp add: no_bindings_def)
  moreover have "distinct (map fst (rev (default_calls (bindFlags_calls (dnsCaptureByAgent env) InvalidDropByIptables))))"
    using distinct_settings by (simp add: rev_map [symmetric])
  ultimately show ?thesis using assms(2) by simp
qed

lemma iptables_flag:
  assumes "iptables_bindFlags env = Some b"
  shows "bd_flags b key = cmd_Lookup (root_flags env) key"
proof -
  have "bd_flags b key = (if key \<in> set (map cmd_name (root_flags env)) then cmd_Lookup (root_flags env) key else None)"
    using bind_calls_result [OF assms [unfolded iptables_bindFlags_def]]
    by (simp add: no_bindings_def root_flags_def
        iptables_bindings(1) [of _ _ "dnsCaptureByAgent env" "BoolVar_Get env InvalidDropByIptables"] del: set_map)
  then show ?thesis using cmd_Lookup_names [of "root_flags env" key] by (auto simp del: set_map)
qed

text \<open>A setting for which no flag and no variable is given has its default.\<close>

lemma get_default:
  assumes "documented_get given env' b get" "given key = None" "env_setting env' key = None" "bd_defaults b key = Some d"
  shows "get key = d"
  using assms(1) [unfolded documented_get_def, THEN spec [of _ key]] assms(2-4) by simp

lemma get_env:
  assumes "documented_get given env' b get" "given key = None" "env_setting env' key = Some s"
  shows "get key = SString s"
  using assms(1) [unfolded documented_get_def, THEN spec [of _ key]] assms(2,3) by simp

lemma get_flag:
  assumes "documented_get given env' b get" "given key = Some v" "bd_flags b key \<noteq> None"
  shows "get key = v"
  using assms by (auto simp: documented_get_def)

section \<open>Kinds of settings\<close>

text \<open>The settings that \<open>constructConfig\<close> reads, and as what.\<close>

definition read_settings :: "(string \<times> setting_kind) list" where
  "read_settings = map (\<lambda>k. (k, KBool)) [key_DryRun, key_TraceLogging, key_RestoreFormat, key_SkipRuleApply, key_RunValidation,
       key_RedirectDNS, key_DropInvalid, key_CaptureAllDNS, key_CNIMode] @
     map (\<lambda>k. (k, KString)) [key_EnvoyPort, key_InboundCapturePort, key_InboundTunnelPort, key_ProxyUID, key_ProxyGID,
       key_InboundInterceptionMode, key_InboundTProxyMark, key_InboundTProxyRouteTable, key_InboundPorts, key_LocalExcludePorts,
       key_OwnerGroupsInclude, key_OwnerGroupsExclude, key_OutboundPorts, key_LocalOutboundPortsExclude, key_ServiceCidr,
       key_ServiceExcludeCidr, key_KubeVirtInterfaces, key_ExcludeInterfaces, key_IptablesProbePort, key_OutputPath,
       key_NetworkNamespace] @
     [(key_ProbeTimeout, KDuration)]"

text \<open>The parser of flags gives a flag a value of the kind of its default.\<close>

definition flags_typed :: "cmd_flag list \<Rightarrow> (string \<rightharpoonup> setting) \<Rightarrow> bool" where
  "flags_typed flags given \<longleftrightarrow>
     (\<forall>key v f. given key = Some v \<longrightarrow> cmd_Lookup flags key = Some f \<longrightarrow> kind_of v = kind_of (cmd_default f))"

definition well_kinded :: "cmd_flag list \<Rightarrow> (string \<times> setting) list \<Rightarrow> string \<times> setting_kind \<Rightarrow> bool" where
  "well_kinded flags defaults = (\<lambda>(key, k).
     (case cmd_Lookup flags key of Some f \<Rightarrow> kind_of (cmd_default f) = k | None \<Rightarrow> True) \<and>
     (case map_of defaults key of Some d \<Rightarrow> kind_of d = k | None \<Rightarrow> False))"

lemma settings_well_kinded:
  "list_all (\<lambda>kk. fst kk = key_DropInvalid \<or> well_kinded (bindCmdlineFlags dns i) (default_calls (bindFlags_calls dns v)) kk) read_settings"
  by code_simp

text \<open>
  A setting that is read as a kind has that kind, or is a text from the environment, which is
  parsed; whatever flags are given. The exception is \<open>drop-invalid\<close>, whose default is the variable
  itself and not its value.
\<close>

lemma setting_kind:
  assumes "iptables_bindFlags env = Some b" "documented_get given env' b get" "flags_typed (root_flags env) given"
    and "(key, k) \<in> set read_settings" "key \<noteq> key_DropInvalid"
  shows "kind_of (get key) = (if (bd_flags b key = None \<or> given key = None) \<and> env_setting env' key \<noteq> None then KString else k)"
proof -
  let ?flags = "root_flags env" and ?ds = "default_calls (bindFlags_calls (dnsCaptureByAgent env) InvalidDropByIptables)"
  have w: "well_kinded ?flags ?ds (key, k)"
    using settings_well_kinded [of "dnsCaptureByAgent env" "BoolVar_Get env InvalidDropByIptables" InvalidDropByIptables] assms(4,5)
    by (auto simp: list_all_iff root_flags_def)
  then obtain d where d: "map_of ?ds key = Some d" "kind_of d = k" by (auto simp: well_kinded_def split: option.splits)
  have def: "bd_defaults b key = Some d" by (rule iptables_default [OF assms(1) map_of_SomeD [OF d(1)]])
  note g = assms(2) [unfolded documented_get_def, THEN spec [of _ key]]
  show ?thesis
  proof (cases "bd_flags b key = None \<or> given key = None")
    case True
    with g def d(2) show ?thesis by (auto split: option.splits)
  next
    case False
    then obtain f v where f: "cmd_Lookup ?flags key = Some f" "given key = Some v"
      using iptables_flag [OF assms(1), of key] by auto
    then have "kind_of v = k" using assms(3) w by (auto simp: flags_typed_def well_kinded_def)
    with g False f show ?thesis by auto
  qed
qed

text \<open>
  The variable \<open>INVALID_DROP\<close> has no effect: without the flag and without the variable \<open>DROP_INVALID\<close>
  the rule is off.
\<close>

lemma invalid_drop_ignored:
  assumes "iptables_bindFlags env = Some b" "documented_get given env' b get" "documented_casts ca"
    and "given key_DropInvalid = None" "env_setting env' key_DropInvalid = None"
  shows "\<not> DropInvalid (cg_ipt (raw_config ca get))"
proof -
  have "bd_defaults b key_DropInvalid = Some (SVar InvalidDropByIptables)"
    by (rule iptables_default [OF assms(1)]) (simp add: bindFlags_calls_def)
  from get_default [OF assms(2,4,5) this] assms(3) show ?thesis
    by (simp add: raw_config_def documented_casts_def Let_def)
qed

text \<open>The flag itself would have had the variable as its default.\<close>

lemma drop_flag_default:
  "map_option cmd_default (cmd_Lookup (root_flags [''INVALID_DROP'' \<mapsto> ''true'']) key_DropInvalid) = Some (SBool True)"
  by (simp add: root_flags_def bindCmdlineFlags_def cmd_Lookup_def setting_keys BoolVar_Get_def BoolVar_Lookup_def parsed_Lookup_def
      InvalidDropByIptables_def env_text_def new_var_def ParseBool_def)

text \<open>
  Setup and cleaner are started in one environment and read their default for DNS from different
  variables: with \<open>IDEFAV_META_DNS_CAPTURE\<close> the setup adds DNS rules that the cleaner does not remove.
\<close>

lemma dns_variables_differ:
  "dnsCaptureByAgent [''IDEFAV_META_DNS_CAPTURE'' \<mapsto> ''true''] \<and> \<not> clean_dnsCaptureByAgent [''IDEFAV_META_DNS_CAPTURE'' \<mapsto> ''true'']"
  by (simp add: dnsCaptureByAgent_def clean_dnsCaptureByAgent_def BoolVar_Get_def BoolVar_Lookup_def parsed_Lookup_def env_text_def
      new_var_def ParseBool_def FormatBool_def)

text \<open>The port of the probe wraps around.\<close>

lemma probe_port_wraps:
  assumes "documented_casts ca" "get key_IptablesProbePort = SString (nat_digits n)" "n < 2 ^ 63"
  shows "unat (cg_ProbePort (raw_config ca get)) = n mod 65536"
  using assms by (simp add: raw_config_def documented_casts_def Let_def unat_of_nat)

section \<open>The commands\<close>

text \<open>
  What surrounds the program: the account, addresses and resolver file of \<open>constructConfig\<close>, whether
  the files for the two restore runs can be written, and what processes, netlink and the probe
  answer.
\<close>

record cmd_env =
  ev_lookup :: "string option"
  ev_addrs :: "ip option list option"
  ev_resolv :: "string list option"
  ev_cidr :: "ipnet \<Rightarrow> string"
  ev_order :: "string list \<Rightarrow> string list"
  ev_files :: "bool \<times> bool"
  ev_file :: string
  ev_out :: "string option"
  ev_run :: "string list \<Rightarrow> run_out \<times> run_out list"
  ev_net :: net_env
  ev_self :: string
  ev_addrs_later :: "ip option list option"
  ev_ip_text :: "ip \<Rightarrow> string"
  ev_listen :: "string \<Rightarrow> accepted list option"

datatype cmd_outcome = CmdExit int | CmdPanic | CmdDone

definition cmd_constructConfig :: "cmd_env \<Rightarrow> casts \<Rightarrow> (string \<Rightarrow> setting) \<Rightarrow> cmd_config option" where
  "cmd_constructConfig ev ca get =
     (let raw = raw_config ca get in
      map_option (\<lambda>c. raw\<lparr>cg_ipt := c\<rparr>) (constructConfig (cg_ipt raw) (ev_lookup ev) (ev_addrs ev) (ev_resolv ev)))"

definition real_deps :: "cmd_env \<Rightarrow> cmd_config \<Rightarrow> exec_env" where
  "real_deps ev c = \<lparr>ee_CNIMode = cg_CNIMode c, ee_namespace = cg_NetworkNamespace c, ee_run = ev_run ev\<rparr>"

text \<open>The dependencies of a dry run log the command and do nothing else.\<close>

definition stub_line :: "string list \<Rightarrow> string" where
  "stub_line command = (case command of [] \<Rightarrow> [] | cmd # args \<Rightarrow> cmd @ '' '' @ join_with '' '' args)"

text \<open>
  The steps of \<open>executeCommands\<close>: the command, and whether the file it needs could be written. The
  result is what was started, and the exit code when the process ended.
\<close>

definition executed_command :: "string \<Rightarrow> executed \<Rightarrow> string list" where
  "executed_command file x = (case x of RunOrFail c \<Rightarrow> c | Restored cmd _ \<Rightarrow> [cmd, ''--noflush'', file])"

definition rule_steps :: "cmd_env \<Rightarrow> cmd_config \<Rightarrow> builder \<Rightarrow> (bool \<times> string list) list" where
  "rule_steps ev c rb =
     (let cmds = map (executed_command (ev_file ev)) (fst (executeCommands (ev_order ev) (cg_ipt c) rb (ev_out ev))) in
      if RestoreFormat (cg_ipt c) then zip [fst (ev_files ev), snd (ev_files ev)] cmds else map (Pair True) cmds)"

fun exec_steps :: "exec_env option \<Rightarrow> (bool \<times> string list) list \<Rightarrow> string list list \<times> int option" where
  "exec_steps ext [] = ([], None)"
| "exec_steps ext ((ok, c) # cs) =
     (if \<not> ok then ([], Some 1)
      else if (case ext of None \<Rightarrow> False | Some x \<Rightarrow> deps_Run x c \<noteq> None) then ([c], Some (-1))
      else (case exec_steps ext cs of (ds, code) \<Rightarrow> (c # ds, code)))"

definition cmd_ext :: "cmd_env \<Rightarrow> cmd_config \<Rightarrow> exec_env option" where
  "cmd_ext ev c = (if cg_DryRun c then None else Some (real_deps ev c))"

definition cmd_routes :: "cmd_env \<Rightarrow> cmd_config \<Rightarrow> bool \<Rightarrow> routes_error option \<times> net_op list" where
  "cmd_routes ev c with_ext =
     ConfigureRoutes (ev_net ev) (real_deps ev c) (cg_DryRun c)
       (if with_ext \<and> cg_CNIMode c then Some (ev_self ev) else None) (cg_RouteTable c) (cg_ipt c)"

definition cmd_validate :: "cmd_env \<Rightarrow> cmd_config \<Rightarrow> cmd_outcome" where
  "cmd_validate ev c =
     (if \<not> cg_RunValidation c then CmdDone
      else (case getLocalIP (ev_addrs_later ev) of
              None \<Rightarrow> CmdPanic
            | Some hostIP \<Rightarrow>
                (case Validator_Run (NewValidator (ev_ip_text ev) (cg_ipt c) (cg_ProbePort c) (cg_ProbeTimeout c) hostIP) (ev_listen ev) of
                   Inl e \<Rightarrow> CmdExit ValidationErrorCode
                 | Inr _ \<Rightarrow> CmdDone)))"

text \<open>The run function of the root command: the commands that were started, and how it ended.\<close>

definition rootCmd_Run :: "cmd_env \<Rightarrow> casts \<Rightarrow> (string \<Rightarrow> setting) \<Rightarrow> string list list \<times> cmd_outcome" where
  "rootCmd_Run ev ca get =
     (case cmd_constructConfig ev ca get of
        None \<Rightarrow> ([], CmdPanic)
      | Some c \<Rightarrow>
          (case ipt_Validate (cg_ipt c) of
             Some e \<Rightarrow> ([], CmdExit 1)
           | None \<Rightarrow>
               if cg_SkipRuleApply c then ([], cmd_validate ev c)
               else
                 (case ipt_Run (ev_cidr ev) (cg_ipt c) of
                    None \<Rightarrow> ([], CmdPanic)
                  | Some rb \<Rightarrow>
                      (case exec_steps (cmd_ext ev c) (rule_steps ev c rb) of
                         (ds, Some code) \<Rightarrow> (ds, CmdExit code)
                       | (ds, None) \<Rightarrow>
                           (case fst (cmd_routes ev c True) of
                              Some e \<Rightarrow> (ds, CmdExit 1)
                            | None \<Rightarrow> (ds, cmd_validate ev c))))))"

definition configureRoutes_Run :: "cmd_env \<Rightarrow> casts \<Rightarrow> (string \<Rightarrow> setting) \<Rightarrow> cmd_outcome" where
  "configureRoutes_Run ev ca get =
     (case cmd_constructConfig ev ca get of
        None \<Rightarrow> CmdPanic
      | Some c \<Rightarrow>
          (case ipt_Validate (cg_ipt c) of
             Some e \<Rightarrow> CmdExit 1
           | None \<Rightarrow>
               if cg_SkipRuleApply c then CmdDone
               else (case fst (cmd_routes ev c False) of Some e \<Rightarrow> CmdExit 1 | None \<Rightarrow> CmdDone)))"

text \<open>The cleaner ignores the errors of its commands; an invalid configuration is its only error.\<close>

definition clean_rootCmd_Run ::
  "cmd_env \<Rightarrow> casts \<Rightarrow> (string \<Rightarrow> setting) \<Rightarrow> string list list \<times> cmd_outcome" where
  "clean_rootCmd_Run ev ca get =
     (case clean_constructConfig (clean_raw_config ca get) (ev_lookup ev) (ev_resolv ev) of
        None \<Rightarrow> ([], CmdPanic)
      | Some c \<Rightarrow>
          (case ValidateOwnerGroups (cc_OwnerGroupsInclude c) (cc_OwnerGroupsExclude c) of
             Some e \<Rightarrow> ([], CmdExit 1)
           | None \<Rightarrow> (cleaner_Run c, CmdDone)))"

subsection \<open>Exit codes\<close>

lemma exec_steps_ok:
  "exec_steps ext cs = (ds, None) \<Longrightarrow>
   ds = map snd cs \<and> (\<forall>x. ext = Some x \<longrightarrow> (\<forall>c\<in>set ds. deps_Run x c = None))"
proof (induction cs arbitrary: ds)
  case (Cons okc cs)
  obtain ok c where okc: "okc = (ok, c)" by fastforce
  obtain ds' where "exec_steps ext cs = (ds', None)" "ds = c # ds'" "\<forall>x. ext = Some x \<longrightarrow> deps_Run x c = None"
    using Cons.prems by (auto simp: okc split: if_splits prod.splits option.splits)
  with Cons.IH show ?case by (auto simp: okc)
qed simp

lemma exec_steps_code: "exec_steps ext cs = (ds, Some n) \<Longrightarrow> n \<in> {1, -1}"
  by (induction ext cs arbitrary: ds rule: exec_steps.induct) (auto split: if_splits prod.splits)

lemma cmd_validate_cases:
  "cmd_validate ev c = CmdExit n \<Longrightarrow> n = ValidationErrorCode \<and> cg_RunValidation c"
  by (auto simp: cmd_validate_def split: if_splits option.splits sum.splits)

text \<open>The exit code tells what failed: the validation, a command, or anything before.\<close>

lemma rootCmd_exit_codes:
  assumes "rootCmd_Run ev ca get = (ds, CmdExit n)" "cmd_constructConfig ev ca get = Some c"
  shows "n \<in> {1, -1, ValidationErrorCode}" "n = ValidationErrorCode \<longleftrightarrow> cmd_validate ev c = CmdExit n \<and> ipt_Validate (cg_ipt c) = None \<and>
    (cg_SkipRuleApply c \<or> (\<exists>rb. ipt_Run (ev_cidr ev) (cg_ipt c) = Some rb \<and> exec_steps (cmd_ext ev c) (rule_steps ev c rb) = (ds, None) \<and>
       fst (cmd_routes ev c True) = None))"
  using assms
  by (auto simp: rootCmd_Run_def ValidationErrorCode_def dest!: exec_steps_code dest: cmd_validate_cases
      split: option.splits if_splits prod.splits)

text \<open>
  The command reports success only when it is true: every command of the rule set was run and
  none failed, the routes were set up, and the probe, when it was asked for, reached a port of
  the proxy.
\<close>

lemma rootCmd_success:
  assumes "rootCmd_Run ev ca get = (ds, CmdDone)"
  shows "\<exists>c. cmd_constructConfig ev ca get = Some c \<and> ipt_Validate (cg_ipt c) = None \<and>
    (if cg_SkipRuleApply c then ds = []
     else (\<exists>rb. ipt_Run (ev_cidr ev) (cg_ipt c) = Some rb \<and>
       ds = map (executed_command (ev_file ev)) (fst (executeCommands (ev_order ev) (cg_ipt c) rb (ev_out ev))) \<and>
       (cg_DryRun c \<or> (\<forall>d\<in>set ds. deps_Run (real_deps ev c) d = None)) \<and> fst (cmd_routes ev c True) = None)) \<and>
    (cg_RunValidation c \<longrightarrow>
      (\<exists>hostIP. getLocalIP (ev_addrs_later ev) = Some hostIP \<and>
         Validator_Run (NewValidator (ev_ip_text ev) (cg_ipt c) (cg_ProbePort c) (cg_ProbeTimeout c) hostIP) (ev_listen ev) = Inr ()))"
proof -
  obtain c where c: "cmd_constructConfig ev ca get = Some c" "ipt_Validate (cg_ipt c) = None" "cmd_validate ev c = CmdDone"
    "cg_SkipRuleApply c \<and> ds = [] \<or> \<not> cg_SkipRuleApply c \<and> (\<exists>rb. ipt_Run (ev_cidr ev) (cg_ipt c) = Some rb \<and>
       exec_steps (cmd_ext ev c) (rule_steps ev c rb) = (ds, None) \<and> fst (cmd_routes ev c True) = None)"
    using assms by (auto simp: rootCmd_Run_def split: option.splits if_splits prod.splits)
  have "cg_RunValidation c \<longrightarrow> (\<exists>hostIP. getLocalIP (ev_addrs_later ev) = Some hostIP \<and>
      Validator_Run (NewValidator (ev_ip_text ev) (cg_ipt c) (cg_ProbePort c) (cg_ProbeTimeout c) hostIP) (ev_listen ev) = Inr ())"
    using c(3) by (auto simp: cmd_validate_def split: option.splits sum.splits)
  moreover have "map snd (rule_steps ev c rb) =
      map (executed_command (ev_file ev)) (fst (executeCommands (ev_order ev) (cg_ipt c) rb (ev_out ev)))" for rb
    by (simp add: rule_steps_def executeCommands_def Let_def comp_def case_prod_beta)
  moreover have "cg_DryRun c \<or> cmd_ext ev c = Some (real_deps ev c)" by (simp add: cmd_ext_def)
  ultimately show ?thesis using c exec_steps_ok by (intro exI [of _ c]) (auto, metis+)
qed

text \<open>A dry run starts no process and asks netlink for nothing.\<close>

lemma dry_run_no_effect:
  assumes "ca_bool ca (get key_DryRun)"
  shows "rootCmd_Run (ev\<lparr>ev_run := r, ev_net := n\<rparr>) ca get = rootCmd_Run ev ca get"
proof -
  let ?ev = "ev\<lparr>ev_run := r, ev_net := n\<rparr>"
  have "cg_DryRun c" if "cmd_constructConfig ev ca get = Some c" for c
    using that assms by (auto simp: cmd_constructConfig_def raw_config_def Let_def)
  moreover have "cmd_constructConfig ?ev ca get = cmd_constructConfig ev ca get" by (simp add: cmd_constructConfig_def)
  moreover have "rule_steps ?ev c rb = rule_steps ev c rb" "cmd_validate ?ev c = cmd_validate ev c" for c rb
    by (simp_all add: rule_steps_def cmd_validate_def Let_def split: option.split sum.split)
  moreover have "cg_DryRun c \<Longrightarrow> cmd_ext e c = None \<and> cmd_routes e c w = (None, [])" for e c w
    by (simp add: cmd_ext_def cmd_routes_def ConfigureRoutes_def)
  ultimately show ?thesis by (simp add: rootCmd_Run_def split: option.split)
qed

subsection \<open>From the command line to the packet\<close>

text \<open>The settings that a command has which is only told to capture everything.\<close>

definition capture_all :: "string \<rightharpoonup> setting" where
  "capture_all = [key_ServiceCidr \<mapsto> SString ''*'']"

lemma capture_all_settings:
  assumes "iptables_bindFlags Map.empty = Some b" "documented_get capture_all Map.empty b get" "documented_casts ca"
    and "cmd_constructConfig ev ca get = Some c"
  shows "ProxyPort (cg_ipt c) = ''15001''" "OutboundIPRangesInclude (cg_ipt c) = ''*''" "OutboundIPRangesExclude (cg_ipt c) = []"
    "OutboundPortsInclude (cg_ipt c) = []" "OutboundPortsExclude (cg_ipt c) = []" "ExcludeInterfaces (cg_ipt c) = []"
    "OwnerGroupsInclude (cg_ipt c) = ''*''" "OwnerGroupsExclude (cg_ipt c) = []" "\<not> RedirectDNS (cg_ipt c)"
    "ProxyUID (cg_ipt c) = default_uid (ev_lookup ev) []" "ProxyGID (cg_ipt c) = default_uid (ev_lookup ev) []"
    "\<not> cg_DryRun c" "\<not> cg_SkipRuleApply c" "\<not> cg_RunValidation c" "\<not> cg_CNIMode c" "RestoreFormat (cg_ipt c)" "OutputPath (cg_ipt c) = []"
    "InboundPortsInclude (cg_ipt c) = []"
proof -
  let ?ds = "default_calls (bindFlags_calls (dnsCaptureByAgent Map.empty) InvalidDropByIptables)"
  have dns: "\<not> dnsCaptureByAgent Map.empty"
    by (simp add: dnsCaptureByAgent_def BoolVar_Get_def BoolVar_Lookup_def parsed_Lookup_def env_text_def new_var_def ParseBool_def FormatBool_def)
  have d: "get key = d" if "(key, d) \<in> set ?ds" "key \<noteq> key_ServiceCidr" for key d
    using get_default [OF assms(2) _ _ iptables_default [OF assms(1) that(1)]] that(2)
    by (simp add: capture_all_def env_setting_def)
  have i: "get key_ServiceCidr = SString ''*''"
  proof (rule get_flag [OF assms(2)])
    show "bd_flags b key_ServiceCidr \<noteq> None"
      unfolding iptables_flag [OF assms(1)] cmd_Lookup_names by (simp add: root_flags_def bindCmdlineFlags_def)
  qed (simp add: capture_all_def)
  have all: "list_all (\<lambda>(key, d). key = key_ServiceCidr \<or> get key = d) ?ds"
    using d by (auto simp: list_all_iff)
  have gets: "get key_EnvoyPort = SString ''15001'' \<and> get key_ServiceExcludeCidr = SString [] \<and> get key_OutboundPorts = SString [] \<and>
    get key_LocalOutboundPortsExclude = SString [] \<and> get key_ExcludeInterfaces = SString [] \<and> get key_OwnerGroupsInclude = SString ''*'' \<and>
    get key_OwnerGroupsExclude = SString [] \<and> get key_RedirectDNS = SBool False \<and> get key_ProxyUID = SString [] \<and>
    get key_ProxyGID = SString [] \<and> get key_DryRun = SBool False \<and> get key_SkipRuleApply = SBool False \<and>
    get key_RunValidation = SBool False \<and> get key_CNIMode = SBool False \<and> get key_RestoreFormat = SBool True \<and>
    get key_OutputPath = SString [] \<and> get key_InboundPorts = SString []"
    using all dns by (simp add: bindFlags_calls_def setting_keys)
  from assms(4) show "ProxyPort (cg_ipt c) = ''15001''" "OutboundIPRangesInclude (cg_ipt c) = ''*''" "OutboundIPRangesExclude (cg_ipt c) = []"
    "OutboundPortsInclude (cg_ipt c) = []" "OutboundPortsExclude (cg_ipt c) = []" "ExcludeInterfaces (cg_ipt c) = []"
    "OwnerGroupsInclude (cg_ipt c) = ''*''" "OwnerGroupsExclude (cg_ipt c) = []" "\<not> RedirectDNS (cg_ipt c)"
    "ProxyUID (cg_ipt c) = default_uid (ev_lookup ev) []" "ProxyGID (cg_ipt c) = default_uid (ev_lookup ev) []"
    "\<not> cg_DryRun c" "\<not> cg_SkipRuleApply c" "\<not> cg_RunValidation c" "\<not> cg_CNIMode c" "RestoreFormat (cg_ipt c)" "OutputPath (cg_ipt c) = []"
    "InboundPortsInclude (cg_ipt c) = []"
    using assms(3) gets i
    by (auto simp: cmd_constructConfig_def constructConfig_def raw_config_def documented_casts_def zero_config_def Let_def
        split: option.splits prod.splits if_splits)
qed

lemma exec_steps_all:
  assumes "\<forall>(ok, c)\<in>set cs. ok" "\<forall>x. ext = Some x \<longrightarrow> (\<forall>(ok, c)\<in>set cs. deps_Run x c = None)"
  shows "exec_steps ext cs = (map snd cs, None)"
  using assms by (induction cs) (auto split: option.split)

lemma capture_all_runs:
  assumes "OutboundIPRangesExclude c = []"
  shows "\<exists>rb. ipt_Run cs c = Some rb"
  using assms by (simp add: ipt_Run_def separateV4V6_def no_range_def)

lemma capture_all_walk:
  assumes "ipt_Run cs c = Some rb"
    and "OutboundIPRangesInclude c = ''*''" "OutboundIPRangesExclude c = []" "OutboundPortsInclude c = []" "OutboundPortsExclude c = []"
    "ExcludeInterfaces c = []" "OwnerGroupsInclude c = ''*''" "OwnerGroupsExclude c = []" "\<not> RedirectDNS c"
    and "prim ''-p'' ''tcp'' p" "\<not> prim ''-p'' ''udp'' p" "\<not> prim ''-o'' ''lo'' p" "\<not> prim ''-d'' ''127.0.0.1/32'' p"
    "\<forall>u\<in>set (Split (ProxyUID c)). \<not> prim ''--uid-owner'' u p" "\<forall>g\<in>set (Split (ProxyGID c)). \<not> prim ''--gid-owner'' g p"
  shows "walk prim (kernel (rules_of True rb)) NAT p 2 (kernel (rules_of True rb) (NAT, OUTPUT)) = Decided REDIRECT [''--to-ports'', ProxyPort c]"
proof -
  have "\<not> left_alone prim c p"
    using assms by (auto simp: left_alone_def port_in_def proxy_owners_def group_intercepted_def ParseInterceptFilter_def InterceptAllExcept_def)
  then have "outbound_spec cs prim True c p = Decided REDIRECT [''--to-ports'', ProxyPort c]"
    using assms
    by (simp add: outbound_spec_def dns_captured_def in_ranges_def separateV4V6_def no_range_def of_version_def localhost_def)
  then show ?thesis using outbound_walk [OF assms(1), of True prim p] assms(10-12) by simp
qed

subsection \<open>A library that behaves as documented\<close>

definition resolve :: "(string \<rightharpoonup> setting) \<Rightarrow> environment \<Rightarrow> bindings \<Rightarrow> string \<Rightarrow> setting" where
  "resolve given env b key =
     (case (if bd_flags b key = None then None else given key) of
        Some v \<Rightarrow> v
      | None \<Rightarrow>
          (case env_setting env key of
             Some s \<Rightarrow> SString s
           | None \<Rightarrow>
               (case bd_defaults b key of
                  Some d \<Rightarrow> d
                | None \<Rightarrow> (case bd_flags b key of Some f \<Rightarrow> cmd_default f | None \<Rightarrow> SNil))))"

lemma resolve_documented: "documented_get given env b (resolve given env b)"
  by (auto simp: documented_get_def resolve_def split: option.split)

definition plain_casts :: casts where
  "plain_casts = \<lparr>
     ca_bool = (\<lambda>v. case v of SBool b \<Rightarrow> b | SString s \<Rightarrow> (case ParseBool s of Some b \<Rightarrow> b | None \<Rightarrow> False) | _ \<Rightarrow> False),
     ca_string = (\<lambda>v. case v of SString s \<Rightarrow> s | SBool b \<Rightarrow> FormatBool b | _ \<Rightarrow> []),
     ca_uint = (\<lambda>v. case v of SString s \<Rightarrow> (case Atoi s of Some i \<Rightarrow> nat i | None \<Rightarrow> 0) | _ \<Rightarrow> 0),
     ca_duration = (\<lambda>v. case v of SDuration d \<Rightarrow> d | _ \<Rightarrow> 0)\<rparr>"

lemma plain_casts_documented: "documented_casts plain_casts"
proof -
  have "(case Atoi (nat_digits n) of Some i \<Rightarrow> nat i | None \<Rightarrow> 0) = n" if "n < 2 ^ 63" for n
    using Atoi_Itoa [of "int n"] that by (simp add: Itoa_def)
  then show ?thesis by (simp add: documented_casts_def plain_casts_def)
qed

section \<open>Settings of a child process\<close>

text \<open>
  The command that sets up routes in the namespace of a pod is started with no arguments; its
  settings are handed over in the environment, printed by \<open>execute\<close>. \<open>dur\<close> and \<open>vtext\<close> print a
  duration and a variable.
\<close>

definition setting_text :: "(int \<Rightarrow> string) \<Rightarrow> (var \<Rightarrow> string) \<Rightarrow> setting \<Rightarrow> string option" where
  "setting_text dur vtext v =
     (case v of SString s \<Rightarrow> Some s | SBool b \<Rightarrow> Some (FormatBool b) | SDuration d \<Rightarrow> Some (dur d) | SVar x \<Rightarrow> Some (vtext x) | SNil \<Rightarrow> None)"

definition child_entries :: "(setting \<Rightarrow> string option) \<Rightarrow> string list \<Rightarrow> (string \<Rightarrow> setting) \<Rightarrow> (string \<times> string) list" where
  "child_entries text keys get = concat (map (\<lambda>k. case text (get k) of None \<Rightarrow> [] | Some s \<Rightarrow> [(env_key k, s)]) keys)"

definition child_env :: "(setting \<Rightarrow> string option) \<Rightarrow> string list \<Rightarrow> (string \<Rightarrow> setting) \<Rightarrow> environment" where
  "child_env text keys get = map_of (rev (child_entries text keys get))"

definition AllKeys :: "string list" where
  "AllKeys = map fst (default_calls (bindFlags_calls False InvalidDropByIptables))"

lemma upper_char_letters:
  "upper_char CHR ''a'' = CHR ''A''" "upper_char CHR ''b'' = CHR ''B''" "upper_char CHR ''c'' = CHR ''C''"
  "upper_char CHR ''d'' = CHR ''D''" "upper_char CHR ''e'' = CHR ''E''" "upper_char CHR ''f'' = CHR ''F''"
  "upper_char CHR ''g'' = CHR ''G''" "upper_char CHR ''h'' = CHR ''H''" "upper_char CHR ''i'' = CHR ''I''"
  "upper_char CHR ''j'' = CHR ''J''" "upper_char CHR ''k'' = CHR ''K''" "upper_char CHR ''l'' = CHR ''L''"
  "upper_char CHR ''m'' = CHR ''M''" "upper_char CHR ''n'' = CHR ''N''" "upper_char CHR ''o'' = CHR ''O''"
  "upper_char CHR ''p'' = CHR ''P''" "upper_char CHR ''q'' = CHR ''Q''" "upper_char CHR ''r'' = CHR ''R''"
  "upper_char CHR ''s'' = CHR ''S''" "upper_char CHR ''t'' = CHR ''T''" "upper_char CHR ''u'' = CHR ''U''"
  "upper_char CHR ''v'' = CHR ''V''" "upper_char CHR ''w'' = CHR ''W''" "upper_char CHR ''x'' = CHR ''X''"
  "upper_char CHR ''y'' = CHR ''Y''" "upper_char CHR ''z'' = CHR ''Z''"
  "upper_char CHR ''B'' = CHR ''B''" "upper_char CHR ''C'' = CHR ''C''" "upper_char CHR ''D'' = CHR ''D''"
  "upper_char CHR ''E'' = CHR ''E''" "upper_char CHR ''G'' = CHR ''G''" "upper_char CHR ''I'' = CHR ''I''"
  "upper_char CHR ''L'' = CHR ''L''" "upper_char CHR ''N'' = CHR ''N''" "upper_char CHR ''O'' = CHR ''O''"
  "upper_char CHR ''P'' = CHR ''P''" "upper_char CHR ''R'' = CHR ''R''" "upper_char CHR ''S'' = CHR ''S''"
  "upper_char CHR ''T'' = CHR ''T''" "upper_char CHR ''U'' = CHR ''U''" "upper_char CHR ''W'' = CHR ''W''"
  "upper_char CHR ''X'' = CHR ''X''" "upper_char CHR ''_'' = CHR ''_''"
  by (simp_all add: upper_char_def char_of_def bit_0)

lemma env_keys_distinct: "distinct (map env_key AllKeys)"
  by (simp add: AllKeys_def bindFlags_calls_def env_key_def setting_keys upper_char_letters)

lemma child_entries_keys: "map fst (child_entries text keys get) = map env_key (filter (\<lambda>k. text (get k) \<noteq> None) keys)"
  by (induction keys) (auto simp: child_entries_def split: option.split)

lemma child_env_lookup:
  assumes "key \<in> set AllKeys" "text (get key) = Some s"
  shows "child_env text AllKeys get (env_key key) = Some s"
proof -
  have "distinct (map fst (child_entries text AllKeys get))"
    unfolding child_entries_keys using env_keys_distinct by (simp add: distinct_map_filter)
  moreover have "(env_key key, s) \<in> set (child_entries text AllKeys get)"
    using assms by (force simp: child_entries_def)
  ultimately show ?thesis unfolding child_env_def by (intro map_of_is_SomeI) (simp_all add: rev_map [symmetric])
qed

text \<open>
  The child reads what its parent read: texts that are not empty and booleans arrive unchanged.
\<close>

lemma child_reads_string:
  assumes "documented_get Map.empty (child_env (setting_text dur vtext) AllKeys get) b get'"
    and "key \<in> set AllKeys" "get key = SString s" "s \<noteq> []"
  shows "get' key = SString s"
proof (rule get_env [OF assms(1)])
  show "env_setting (child_env (setting_text dur vtext) AllKeys get) key = Some s"
    using child_env_lookup [OF assms(2), of "setting_text dur vtext" get s] assms(3,4)
    by (simp add: env_setting_def setting_text_def)
qed simp

lemma child_reads_bool:
  assumes "documented_get Map.empty (child_env (setting_text dur vtext) AllKeys get) b get'" "documented_casts ca"
    and "key \<in> set AllKeys" "get key = SBool v"
  shows "ca_bool ca (get' key) = v"
proof -
  have "get' key = SString (FormatBool v)"
  proof (rule get_env [OF assms(1)])
    show "env_setting (child_env (setting_text dur vtext) AllKeys get) key = Some (FormatBool v)"
      using child_env_lookup [OF assms(3), of "setting_text dur vtext" get "FormatBool v"] assms(4)
      by (simp add: env_setting_def setting_text_def FormatBool_def)
  qed simp
  then show ?thesis using assms(2) by (simp add: documented_casts_def ParseBool_def FormatBool_def)
qed

text \<open>An empty text does not arrive: the child has the default then.\<close>

lemma child_reads_empty:
  assumes "documented_get Map.empty (child_env (setting_text dur vtext) AllKeys get) b get'"
    and "key \<in> set AllKeys" "get key = SString []" "bd_defaults b key = Some d"
  shows "get' key = d"
proof (rule get_default [OF assms(1) _ _ assms(4)])
  show "env_setting (child_env (setting_text dur vtext) AllKeys get) key = None"
    using child_env_lookup [OF assms(2), of "setting_text dur vtext" get "[]"] assms(3)
    by (simp add: env_setting_def setting_text_def)
qed simp

section \<open>Main properties\<close>




definition calm_env :: cmd_env where
  "calm_env = \<lparr>ev_lookup = None, ev_addrs = Some [Some (v4_in_v6_prefix @ [10, 0, 0, 1])], ev_resolv = None, ev_cidr = (\<lambda>_. []),
     ev_order = (\<lambda>ts. ts), ev_files = (True, True), ev_file = ''rules'', ev_out = None,
     ev_run = (\<lambda>_. (\<lparr>ro_stdout = [], ro_stderr = [], ro_err = None\<rparr>, [])),
     ev_net = \<lparr>ne_link = None, ne_do = (\<lambda>_ _. None)\<rparr>, ev_self = ''idefav-iptables'',
     ev_addrs_later = None, ev_ip_text = (\<lambda>_. []), ev_listen = (\<lambda>_. None)\<rparr>"

lemma calm_commands: "deps_Run (real_deps calm_env c) d = None"
  by (auto simp: deps_Run_def real_deps_def calm_env_def executeXTables_def execute_def xt_retry.simps lock_failure_def exitCode_def
      split: list.split)

lemma calm_command:
  assumes "iptables_bindFlags Map.empty = Some b"
  shows "\<exists>ds. rootCmd_Run calm_env plain_casts (resolve capture_all Map.empty b) = (ds, CmdDone)"
proof -
  let ?get = "resolve capture_all Map.empty b"
  have "getLocalIP (ev_addrs calm_env) = Some (v4_in_v6_prefix @ [10, 0, 0, 1])"
    by (simp add: calm_env_def getLocalIP_def IsLoopback_def IsLinkLocalUnicast_def IsLinkLocalMulticast_def)
  moreover have "?get key_RedirectDNS = SBool False"
  proof (rule get_default [OF resolve_documented])
    show "bd_defaults b key_RedirectDNS = Some (SBool False)"
      by (rule iptables_default [OF assms])
        (simp add: bindFlags_calls_def dnsCaptureByAgent_def BoolVar_Get_def BoolVar_Lookup_def parsed_Lookup_def env_text_def
          new_var_def ParseBool_def FormatBool_def)
  qed (simp_all add: capture_all_def setting_keys env_setting_def)
  then have "\<not> RedirectDNS (cg_ipt (raw_config plain_casts ?get))" by (simp add: raw_config_def plain_casts_def Let_def)
  ultimately obtain c where c: "cmd_constructConfig calm_env plain_casts ?get = Some c" "\<not> EnableInboundIPv6 (cg_ipt c)"
    by (auto simp: cmd_constructConfig_def constructConfig_def Let_def)
  note s = capture_all_settings [OF assms resolve_documented plain_casts_documented c(1)]
  obtain rb where rb: "ipt_Run (ev_cidr calm_env) (cg_ipt c) = Some rb" using capture_all_runs s(3) by blast
  have "ipt_Validate (cg_ipt c) = None"
    using s(7,8) by (simp add: ipt_Validate_def ValidateOwnerGroups_def ParseInterceptFilter_def InterceptAllExcept_def Let_def)
  moreover have "exec_steps (cmd_ext calm_env c) (rule_steps calm_env c rb) = (map snd (rule_steps calm_env c rb), None)"
  proof (rule exec_steps_all)
    show "\<forall>(ok, d)\<in>set (rule_steps calm_env c rb). ok"
      by (auto simp: rule_steps_def calm_env_def Let_def dest!: set_zip_leftD)
  qed (simp add: cmd_ext_def s(12) calm_commands)
  moreover have "fst (cmd_routes calm_env c True) = None"
    using s(12,15,18) c(2)
    by (simp add: cmd_routes_def ConfigureRoutes_def configureIPv6Addresses_def configureTProxyRoutes_def)
  ultimately show ?thesis using c(1) rb s(13,14) by (simp add: rootCmd_Run_def cmd_validate_def)
qed


end
