(* ===== verification/Management.thy ===== *)
theory Management
  imports Iptables_Exec Iptables_Clean Env_Var Config_Source
begin

text \<open>
  The management server, \<open>cmd/mgr\<close>: the endpoints that set up and remove the packet filter rules
  and the replacement of the executable. The server itself and its profiling endpoints are the
  library's.
\<close>

section \<open>Replacing the executable\<close>

datatype download_error =
    CreateFailed string
  | ChmodFailed string
  | GetFailed string
  | NotAvailable
  | CopyFailed string
  | RenameFailed string

text \<open>
  The faults of one call, and the answer of the download service: an error, or a status with what
  could be copied of the body and the error that ended it.
\<close>

record download_env =
  de_exe :: string
  de_create :: "string option"
  de_chmod :: "string option"
  de_get :: "string \<Rightarrow> string + (int \<times> string \<times> string option)"
  de_remove_fails :: bool
  de_rename_old :: "string option"
  de_rename_new :: "string option"

definition download_url :: "string \<Rightarrow> string \<Rightarrow> string" where
  "download_url appName version =
     ''http://localhost:18888/api/download?appName='' @ appName @ ''&version='' @ version"

definition os_Rename :: "string \<Rightarrow> string \<Rightarrow> files \<Rightarrow> files" where
  "os_Rename a b fs = (if a = b then fs else fs(b := fs a, a := None))"

definition Download :: "download_env \<Rightarrow> string \<Rightarrow> string \<Rightarrow> files \<Rightarrow> download_error option \<times> files" where
  "Download env appName version fs =
     (let exPath = de_exe env;
          newVersionPath = exPath @ ''-'' @ version;
          bakFile = exPath @ ''-bak'' in
      case de_create env of
        Some e \<Rightarrow> (Some (CreateFailed e), fs)
      | None \<Rightarrow>
          let fs1 = fs(newVersionPath \<mapsto> []) in
          (case de_chmod env of
             Some e \<Rightarrow> (Some (ChmodFailed e), fs1)
           | None \<Rightarrow>
               (case de_get env (download_url appName version) of
                  Inl e \<Rightarrow> (Some (GetFailed e), fs1)
                | Inr (status, body, copyErr) \<Rightarrow>
                    if status \<noteq> 200 then (Some NotAvailable, fs1)
                    else
                      let fs2 = fs1(newVersionPath \<mapsto> body) in
                      (case copyErr of
                         Some e \<Rightarrow> (Some (CopyFailed e), fs2)
                       | None \<Rightarrow>
                           let fs3 = (if de_remove_fails env then fs2 else fs2(bakFile := None)) in
                           (case de_rename_old env of
                              Some e \<Rightarrow> (Some (RenameFailed e), fs3)
                            | None \<Rightarrow>
                                let fs4 = os_Rename exPath bakFile fs3 in
                                (case de_rename_new env of
                                   Some e \<Rightarrow> (Some (RenameFailed e), fs4)
                                 | None \<Rightarrow> (None, os_Rename newVersionPath exPath fs4)))))))"

lemma version_path_neq [simp]:
  "exe @ CHR ''-'' # v \<noteq> exe" "exe \<noteq> exe @ CHR ''-'' # v"
  by simp_all

text \<open>
  A download that succeeds has put the whole body in place of the executable and kept the old one
  as a backup.
\<close>

lemma Download_success:
  assumes "Download env appName version fs = (None, fs')" "version \<noteq> ''bak''"
  shows "\<exists>body. de_get env (download_url appName version) = Inr (200, body, None) \<and>
    fs' (de_exe env) = Some body \<and> fs' (de_exe env @ ''-bak'') = fs (de_exe env) \<and> fs' (de_exe env @ ''-'' @ version) = None"
  using assms
  by (auto simp: Download_def Let_def os_Rename_def split: option.splits sum.splits prod.splits if_splits)

text \<open>Until the renames begin, a failure leaves the executable alone.\<close>

lemma Download_failure_keeps:
  assumes "Download env appName version fs = (Some e, fs')" "de_rename_new env = None"
  shows "fs' (de_exe env) = fs (de_exe env)"
  using assms
  by (auto simp: Download_def Let_def os_Rename_def split: option.splits sum.splits prod.splits if_splits)

text \<open>When the second rename fails, there is no executable any more.\<close>

lemma Download_can_lose_executable:
  assumes "de_create env = None" "de_chmod env = None" "de_get env (download_url appName version) = Inr (200, body, None)"
    "de_rename_old env = None" "de_rename_new env = Some e" "version \<noteq> ''bak''"
  shows "\<exists>fs'. Download env appName version fs = (Some (RenameFailed e), fs') \<and> fs' (de_exe env) = None"
  using assms by (simp add: Download_def Let_def os_Rename_def)

text \<open>A version called \<open>bak\<close> is reported as installed, and the old executable stays.\<close>

lemma Download_version_bak:
  assumes "Download env appName ''bak'' fs = (None, fs')" "fs (de_exe env) = Some old"
  shows "fs' (de_exe env) = Some old"
  using assms
  by (auto simp: Download_def Let_def os_Rename_def split: option.splits sum.splits prod.splits if_splits)

section \<open>Rules\<close>

datatype mgr_outcome =
    Succeeded
  | InvalidOwnerGroups "nat \<times> string list"
  | RoutesFailed routes_error
  | ProcessExited
  | HandlerPanic

definition mgr_iptables_config :: "string \<Rightarrow> ipt_config" where
  "mgr_iptables_config user = zero_config\<lparr>ProxyPort := ''15001'', InboundCapturePort := ''15006'', InboundTunnelPort := ''15008'',
     ProxyUID := user, ProxyGID := user, InboundTProxyMark := ''1337'', InboundPortsInclude := ''*'',
     InboundPortsExclude := ''18080,22,15030'', OwnerGroupsInclude := ''*'', OutboundPortsExclude := ''28080,22'',
     OutboundIPRangesInclude := ''*''\<rparr>"

definition mgr_clean_config :: clean_config where
  "mgr_clean_config = \<lparr>cc_ProxyUID = [], cc_ProxyGID = [], cc_RedirectDNS = False, cc_DNSServersV4 = [],
     cc_DNSServersV6 = [], cc_CaptureAllDNS = False, cc_OwnerGroupsInclude = ''*'', cc_OwnerGroupsExclude = []\<rparr>"

text \<open>
  \<open>/iptables\<close>: the user comes from the environment. A command that fails ends the process, as
  \<open>RunOrFail\<close> does.
\<close>

definition mgr_iptables ::
  "exec_env \<Rightarrow> net_env \<Rightarrow> (ipnet \<Rightarrow> string) \<Rightarrow> environment \<Rightarrow> registry \<Rightarrow> mgr_outcome \<times> registry" where
  "mgr_iptables ext net cidr_text env vars =
     (case RegisterStringVar ''ENVOY_USER'' ''lhotse-agent'' ''Envoy proxy username'' vars of (v, vars') \<Rightarrow>
        let c = mgr_iptables_config (StringVar_Get env v) in
        (case ipt_Validate c of
           Some e \<Rightarrow> InvalidOwnerGroups e
         | None \<Rightarrow>
             (case ipt_Run cidr_text c of
                None \<Rightarrow> HandlerPanic
              | Some rb \<Rightarrow>
                  if snd (run_or_fail ext (BuildV4 rb @ BuildV6 rb)) then ProcessExited
                  else (case ConfigureRoutes net ext False None ''133'' c of
                          (Some e, _) \<Rightarrow> RoutesFailed e
                        | (None, _) \<Rightarrow> Succeeded)), vars'))"

definition mgr_clean_iptables :: "(nat \<times> string list) option \<times> string list list" where
  "mgr_clean_iptables =
     (case ValidateOwnerGroups (cc_OwnerGroupsInclude mgr_clean_config) (cc_OwnerGroupsExclude mgr_clean_config) of
        Some e \<Rightarrow> (Some e, [])
      | None \<Rightarrow> (None, cleaner_Run mgr_clean_config))"

lemma all_groups_valid: "ValidateOwnerGroups ''*'' [] = None"
  by (simp add: ValidateOwnerGroups_def ParseInterceptFilter_def InterceptAllExcept_def Split_def Let_def)

lemma mgr_config_valid: "ipt_Validate (mgr_iptables_config user) = None"
  by (simp add: ipt_Validate_def mgr_iptables_config_def zero_config_def all_groups_valid)

lemma mgr_config_runs: "\<exists>rb. ipt_Run cidr_text (mgr_iptables_config user) = Some rb"
  by (simp add: ipt_Run_def mgr_iptables_config_def zero_config_def separateV4V6_def Split_def no_range_def)

text \<open>The settings need no routes, so the setup succeeds or ends the process; there is no other answer.\<close>

lemma mgr_iptables_outcome:
  "fst (mgr_iptables ext net cidr_text env vars) \<in> {Succeeded, ProcessExited}"
proof -
  let ?user = "StringVar_Get env (fst (RegisterStringVar ''ENVOY_USER'' ''lhotse-agent'' ''Envoy proxy username'' vars))"
  obtain rb where rb: "ipt_Run cidr_text (mgr_iptables_config ?user) = Some rb" using mgr_config_runs by blast
  have "ConfigureRoutes net ext False None tab (mgr_iptables_config ?user) = (None, [])" for tab
    by (simp add: ConfigureRoutes_def configureIPv6Addresses_def configureTProxyRoutes_def mgr_iptables_config_def zero_config_def
        TPROXY_def)
  with rb show ?thesis by (simp add: mgr_iptables_def mgr_config_valid Let_def case_prod_beta)
qed

text \<open>
  The setup ends the agent when any command fails, as the creation of a chain does that exists:
  a second call without a removal in between.
\<close>

lemma run_or_fail_exits: "c \<in> set cs \<Longrightarrow> deps_Run ext c \<noteq> None \<Longrightarrow> snd (run_or_fail ext cs)"
  by (induction cs) (auto split: prod.splits)

lemma failing_setup_ends_agent:
  assumes "ipt_Run cidr_text (mgr_iptables_config user) = Some rb" "c \<in> set (BuildV4 rb)" "deps_Run ext c \<noteq> None"
    and "user = StringVar_Get env (fst (RegisterStringVar ''ENVOY_USER'' ''lhotse-agent'' ''Envoy proxy username'' vars))"
  shows "fst (mgr_iptables ext net cidr_text env vars) = ProcessExited"
proof -
  have "snd (run_or_fail ext (BuildV4 rb @ BuildV6 rb))" using assms(2,3) by (intro run_or_fail_exits) auto
  then show ?thesis using assms(1) unfolding assms(4)
    by (simp add: mgr_iptables_def mgr_config_valid Let_def case_prod_beta)
qed

text \<open>The removal needs no settings of the setup: the commands are the same for every user.\<close>

lemma mgr_clean_commands: "mgr_clean_iptables = (None, cleaner_Run (clean_of (mgr_iptables_config user)))"
proof -
  have "removeOldChains mgr_clean_config cmd = removeOldChains (clean_of (mgr_iptables_config user)) cmd" for cmd
    by (simp add: removeOldChains_def mgr_clean_config_def clean_of_def mgr_iptables_config_def zero_config_def)
  then show ?thesis
    using all_groups_valid by (simp add: mgr_clean_iptables_def) (simp add: mgr_clean_config_def cleaner_Run_def)
qed

text \<open>
  The two endpoints fit: removing after setting up brings every chain of either IP version back
  to what it was, for every user in the environment.
\<close>

lemma mgr_setup_then_clean:
  assumes "ipt_Run cidr_text (mgr_iptables_config user) = Some rb" "cmd = (if v4 then ''iptables'' else ''ip6tables'')"
    and "\<forall>key\<in>set istio_chains. k key = []"
    and "\<forall>key. set (deletes key (removeOldChains mgr_clean_config cmd)) \<inter> set (k key) = {}"
  shows "run_commands cmd (snd mgr_clean_iptables) (fold add_rule (rules_of v4 rb) k) = k"
proof -
  have "undoable (mgr_iptables_config user)"
    by (simp add: undoable_def mgr_iptables_config_def zero_config_def TPROXY_def)
  moreover have "removeOldChains mgr_clean_config cmd = removeOldChains (clean_of (mgr_iptables_config user)) cmd"
    by (simp add: removeOldChains_def mgr_clean_config_def clean_of_def mgr_iptables_config_def zero_config_def)
  ultimately show ?thesis
    using run_then_clean [OF assms(1) _ assms(2,3)] assms(4) by (simp add: mgr_clean_commands [of user])
qed

end
