(* ===== verification/Data_Cache.thy ===== *)
theory Data_Cache
  imports Route_Match
begin

text \<open>
  Loading and saving the routing data, the rest of \<open>cmd/proxy/data/config.go\<close>: the cache file, the
  order in which \<open>Load\<close> reads its sources, the goroutine that saves and the timer that asks it
  to. The JSON codec and the contents of files are arguments. What the code relies on in the
  codec is that decoding an encoding gives back the data without the fields tagged
  \<open>json:"-"\<close>, which are the pointers to balancers.
\<close>

section \<open>The cache file\<close>

type_synonym route_data = "maps \<times> store"

text \<open>The codec: \<open>Marshal\<close> may fail, \<open>Unmarshal\<close> fills the data, as far as it comes.\<close>

record json_lib =
  json_Marshal :: "route_data \<Rightarrow> string + string"
  json_Unmarshal :: "string \<Rightarrow> route_data \<Rightarrow> route_data"

definition LoadCache :: "json_lib \<Rightarrow> (string \<Rightarrow> string option) \<Rightarrow> string \<Rightarrow> route_data \<Rightarrow> route_data" where
  "LoadCache lib readFile cacheFile d =
     (case readFile cacheFile of None \<Rightarrow> d | Some body \<Rightarrow> json_Unmarshal lib body d)"

text \<open>
  \<open>ioutil.WriteFile(cacheFile, data, 644)\<close>: the mode is decimal, and the bits of a new file are
  its nine lowest ones without those of the mask of the process.
\<close>

record cache_file =
  cf_mode :: nat
  cf_body :: string

definition cache_mode :: "nat \<Rightarrow> nat" where
  "cache_mode umask = (let perm = 644 mod 512 :: nat in perm - and perm umask)"

definition WriteCache :: "nat \<Rightarrow> string \<Rightarrow> cache_file option \<Rightarrow> cache_file option" where
  "WriteCache umask body old =
     Some \<lparr>cf_mode = (case old of None \<Rightarrow> cache_mode umask | Some f \<Rightarrow> cf_mode f), cf_body = body\<rparr>"

definition owner_readable :: "cache_file \<Rightarrow> bool" where
  "owner_readable f \<longleftrightarrow> bit (cf_mode f) 8"

definition others_readable :: "cache_file \<Rightarrow> bool" where
  "others_readable f \<longleftrightarrow> bit (cf_mode f) 2"

section \<open>Load\<close>

text \<open>
  \<open>data.Load\<close>: the cache, then the static file, over what the process has. \<open>None\<close> is a panic.
\<close>

definition data_Load ::
  "json_lib \<Rightarrow> (string \<Rightarrow> string + service list) \<Rightarrow> (string \<Rightarrow> string option) \<Rightarrow> string \<Rightarrow> string
     \<Rightarrow> route_data \<Rightarrow> route_data option" where
  "data_Load lib unmarshal readFile cacheFileName fileName d =
     LoadServiceData unmarshal fileName
       (if cacheFileName \<noteq> [] then LoadCache lib readFile cacheFileName d else d)"

text \<open>The copy that the container makes, through the codec.\<close>

definition cow_copy :: "json_lib \<Rightarrow> route_data \<Rightarrow> route_data \<Rightarrow> route_data" where
  "cow_copy lib dst src =
     (case json_Marshal lib src of Inl e \<Rightarrow> dst | Inr body \<Rightarrow> json_Unmarshal lib body dst)"

definition cow_dup :: "json_lib \<Rightarrow> route_data \<Rightarrow> route_data" where
  "cow_dup lib src = cow_copy lib (NewMaps, snd src) src"

definition NewCowMaps :: "json_lib \<Rightarrow> route_data \<Rightarrow> route_data" where
  "NewCowMaps lib maps = cow_dup lib maps"

definition cow_Update :: "json_lib \<Rightarrow> (route_data \<Rightarrow> route_data) \<Rightarrow> route_data \<Rightarrow> route_data" where
  "cow_Update lib callback src = callback (cow_dup lib src)"

section \<open>Data without pointers\<close>

definition strip_cluster :: "cluster_config \<Rightarrow> cluster_config" where
  "strip_cluster c = c\<lparr>TrafficPolicy := (TrafficPolicy c)\<lparr>lb_LoadBalancer := None\<rparr>\<rparr>"

definition strip_rule :: "route_rule \<Rightarrow> route_rule" where
  "strip_rule rule = rule\<lparr>Http := map (map_option (\<lambda>r. r\<lparr>route_LoadBalancer := None\<rparr>)) (Http rule)\<rparr>"

definition strip_service :: "service \<Rightarrow> service" where
  "strip_service s = s\<lparr>LB := None, sv_Clusters := map strip_cluster (sv_Clusters s), sv_Rules := map strip_rule (sv_Rules s)\<rparr>"

definition strip_maps :: "maps \<Rightarrow> maps" where
  "strip_maps m = m\<lparr>
     ServiceMap := map_option strip_service \<circ> ServiceMap m,
     RuleMap := map_option (map strip_rule) \<circ> RuleMap m,
     Clusters := map_option (\<lambda>cm. map_option strip_cluster \<circ> cm) \<circ> Clusters m\<rparr>"

definition json_drops_pointers :: "json_lib \<Rightarrow> route_data \<Rightarrow> bool" where
  "json_drops_pointers lib d \<longleftrightarrow>
     (\<forall>body st. json_Marshal lib d = Inr body \<longrightarrow> json_Unmarshal lib body (NewMaps, st) = (strip_maps (fst d), st))"

lemma strip_service_simps [simp]:
  "LB (strip_service s) = None" "sv_Name (strip_service s) = sv_Name s" "sv_Hosts (strip_service s) = sv_Hosts s"
  by (simp_all add: strip_service_def)

lemma strip_maps_simps [simp]:
  "ServiceMap (strip_maps m) h = map_option strip_service (ServiceMap m h)"
  "RuleMap (strip_maps m) s = map_option (map strip_rule) (RuleMap m s)"
  "Endpoints (strip_maps m) = Endpoints m"
  by (simp_all add: strip_maps_def)

text \<open>No route of such data is ever taken, whatever its conditions say.\<close>

lemma route_candidate_strip:
  "first_some (route_candidate regexp req) (Http (strip_rule rule)) = None"
proof -
  have "first_some (route_candidate regexp req) (map (map_option (\<lambda>r. r\<lparr>route_LoadBalancer := None\<rparr>)) rs) = None" for rs
    by (induction rs) (auto simp: route_candidate_def split: option.splits)
  then show ?thesis by (simp add: strip_rule_def)
qed

lemma first_some_strip:
  "first_some (\<lambda>rule. first_some (route_candidate regexp req) (Http rule)) (map strip_rule rules) = None"
  by (induction rules) (simp_all add: route_candidate_strip)

definition stripped_result :: "((string \<rightharpoonup> endpoint) \<Rightarrow> endpoint list) \<Rightarrow> maps \<Rightarrow> string \<Rightarrow> match_result" where
  "stripped_result order m host =
     (case ServiceMap m host of
        None \<Rightarrow> MatchError ''no service''
      | Some svc \<Rightarrow>
          if RuleMap m (sv_Name svc) \<notin> {None, Some []} then MatchError ''no endpoint''
          else if GetEndpoints order m (sv_Name svc) = [] then MatchError ''no cluster''
          else MatchPanic)"

lemma Match_stripped:
  "Match regexp order rand req (strip_maps m, st) = (stripped_result order m (rq_Host req), st)"
  by (auto simp: Match_def GetService_def GetRule_def GetEndpoints_def stripped_result_def first_some_strip Let_def
      split: option.splits)

text \<open>
  The same happens to an update that changes nothing: the copy goes through the codec, so that what
  is stored has no balancer, and the requests that were routed before are not any more.
\<close>

lemma update_stops_routing:
  assumes "json_drops_pointers lib d" "json_Marshal lib d = Inr body"
  shows "Match regexp order rand req (cow_Update lib (\<lambda>m. m) d) = (stripped_result order (fst d) (rq_Host req), snd d)"
  using assms by (simp add: cow_Update_def cow_dup_def cow_copy_def json_drops_pointers_def Match_stripped)

text \<open>Without an encoding the copy is empty, and every host is unknown.\<close>

lemma failed_copy_forgets:
  assumes "json_Marshal lib d = Inl e"
  shows "fst (Match regexp order rand req (NewCowMaps lib d)) = MatchError ''no service''"
  using assms by (simp add: NewCowMaps_def cow_dup_def cow_copy_def Match_def GetService_def NewMaps_def)

text \<open>
  C18. The cache file alone routes nothing: an agent that starts from the cache which an earlier
  one saved, and cannot read its static configuration, sends no request anywhere. Services with
  rules have no route, because no balancer comes back from the file; and for a service that has
  endpoints and no rules the first request ends in a nil pointer.
\<close>

theorem cache_alone_routes_nothing:
  assumes "json_drops_pointers lib d" "json_Marshal lib d = Inr body"
    and "cacheFile \<noteq> []" "readFile cacheFile = Some body" "unmarshal staticFile = Inl e"
  shows "\<exists>m st. data_Load lib unmarshal readFile cacheFile staticFile (NewMaps, empty_store) = Some (m, st) \<and>
    (\<forall>regexp order rand req. Match regexp order rand req (m, st) = (stripped_result order (fst d) (rq_Host req), st))"
proof -
  have "data_Load lib unmarshal readFile cacheFile staticFile (NewMaps, empty_store) = Some (strip_maps (fst d), empty_store)"
    using assms by (simp add: data_Load_def LoadCache_def LoadServiceData_def json_drops_pointers_def)
  with Match_stripped show ?thesis by blast
qed

definition plain_data :: route_data where
  "plain_data =
     (NewMaps\<lparr>ServiceMap := [''h'' \<mapsto> \<lparr>sv_Name = ''s'', sv_Hosts = [''h''], sv_Clusters = [], sv_Rules = [], LB = Some 0\<rparr>],
        Endpoints := [''s'' \<mapsto> [''k'' \<mapsto> \<lparr>Ip = ''10.0.0.1'', Port = ''80''\<rparr>]]\<rparr>,
      empty_store\<lparr>lbs := [0 \<mapsto> RoundRobinLoadBalancer 0]\<rparr>)"

definition plain_lib :: json_lib where
  "plain_lib = \<lparr>json_Marshal = (\<lambda>d. Inr ''data''),
     json_Unmarshal = (\<lambda>body d. if body = ''data'' then (strip_maps (fst plain_data), snd d) else d)\<rparr>"

definition plain_order :: "(string \<rightharpoonup> endpoint) \<Rightarrow> endpoint list" where
  "plain_order em = (case em ''k'' of None \<Rightarrow> [] | Some e \<Rightarrow> [e])"

definition plain_request :: route_request where
  "plain_request = \<lparr>rq_Host = ''h'', rq_Method = [], rq_Authority = [], rq_Scheme = [], rq_RequestURI = [],
     rq_Header = (\<lambda>_. []), rq_Query = (\<lambda>_. []), rq_Port = 0\<rparr>"

theorem cache_alone_routes_nothing_witness:
  "fst (Match (\<lambda>_ _. None) plain_order 0 plain_request plain_data) = MatchEndpoint (Some \<lparr>Ip = ''10.0.0.1'', Port = ''80''\<rparr>) \<and>
   (\<exists>m st. data_Load plain_lib (\<lambda>_. Inl ''no file'') [''c'' \<mapsto> ''data''] ''c'' ''config.yaml'' (NewMaps, empty_store) = Some (m, st) \<and>
      fst (Match (\<lambda>_ _. None) plain_order 0 plain_request (m, st)) = MatchPanic)"
proof -
  have lib: "json_drops_pointers plain_lib plain_data" "json_Marshal plain_lib plain_data = Inr ''data''"
    by (simp_all add: json_drops_pointers_def plain_lib_def)
  have res: "stripped_result plain_order (fst plain_data) (rq_Host plain_request) = MatchPanic"
    by (simp add: stripped_result_def plain_data_def plain_order_def plain_request_def NewMaps_def GetEndpoints_def)
  have "\<exists>m st. data_Load plain_lib (\<lambda>_. Inl ''no file'') [''c'' \<mapsto> ''data''] ''c'' ''config.yaml'' (NewMaps, empty_store) = Some (m, st) \<and>
      (\<forall>regexp order rand req. Match regexp order rand req (m, st) = (stripped_result order (fst plain_data) (rq_Host req), st))"
    by (rule cache_alone_routes_nothing [OF lib]) simp_all
  moreover have "fst (Match (\<lambda>_ _. None) plain_order 0 plain_request plain_data) = MatchEndpoint (Some \<lparr>Ip = ''10.0.0.1'', Port = ''80''\<rparr>)"
    by (simp add: plain_data_def plain_order_def plain_request_def Match_def GetService_def GetRule_def GetEndpoints_def NewMaps_def
        empty_store_def run_lb_def RoundRobin_Select_def go_rem_def go_at_def)
  ultimately show ?thesis using res by auto
qed

text \<open>The file that a first save creates can be read by others, and not by its owner.\<close>

lemma new_cache_unreadable: "\<not> owner_readable (the (WriteCache 18 body None))"
  by (simp add: owner_readable_def WriteCache_def cache_mode_def)

lemma new_cache_public: "others_readable (the (WriteCache 18 body None))"
  by (simp add: others_readable_def WriteCache_def cache_mode_def)

section \<open>Restarts repeat the rules\<close>

lemma load_rules_appends:
  "load_rules svc rs (m, st) = Some (m', st') \<Longrightarrow>
   length (case RuleMap m' svc of None \<Rightarrow> [] | Some l \<Rightarrow> l) = length (case RuleMap m svc of None \<Rightarrow> [] | Some l \<Rightarrow> l) + length rs"
proof (induction rs arbitrary: m st)
  case (Cons rule rs)
  obtain http' st1 where h: "init_routes (Http rule) st = Some (http', st1)" using Cons.prems by (auto split: option.splits)
  from Cons.prems h Cons.IH show ?case by (fastforce simp: Let_def)
qed simp

text \<open>
  Loading a service appends its rules to those that the cache brought, which are the same ones
  of the last run: the list grows with every restart.
\<close>

lemma load_service_appends:
  assumes "load_service s (m, st) = Some (m', st')"
  shows "length (case RuleMap m' (sv_Name s) of None \<Rightarrow> [] | Some l \<Rightarrow> l) =
    length (case RuleMap m (sv_Name s) of None \<Rightarrow> [] | Some l \<Rightarrow> l) + length (sv_Rules s)"
  using assms
  by (auto simp: load_service_def Let_def alloc_lb_def case_prod_beta split: option.splits dest!: load_rules_appends)

section \<open>Saving\<close>

text \<open>
  The goroutines behind \<open>Load\<close>. The channel holds one message; a sender that finds it full waits.
  The timer is a \<open>time.Timer\<close>, which fires once. \<open>sv_senders\<close> counts the calls of \<open>SaveAsync\<close> that
  are under way, the one at the end of \<open>Load\<close> and the one of the timer.
\<close>

record saver =
  sv_data :: route_data
  sv_pending :: bool
  sv_senders :: nat
  sv_alive :: bool
  sv_timer :: bool
  sv_file :: "cache_file option"
  sv_writes :: nat

definition start_saver :: "route_data \<Rightarrow> cache_file option \<Rightarrow> saver" where
  "start_saver d f = \<lparr>sv_data = d, sv_pending = False, sv_senders = 1, sv_alive = True, sv_timer = True,
     sv_file = f, sv_writes = 0\<rparr>"

inductive save_step :: "json_lib \<Rightarrow> nat \<Rightarrow> saver \<Rightarrow> saver \<Rightarrow> bool" for lib umask where
  Fire: "sv_timer s \<Longrightarrow> save_step lib umask s (s\<lparr>sv_timer := False, sv_senders := sv_senders s + 1\<rparr>)"
| Send: "0 < sv_senders s \<Longrightarrow> \<not> sv_pending s \<Longrightarrow>
    save_step lib umask s (s\<lparr>sv_senders := sv_senders s - 1, sv_pending := True\<rparr>)"
| Encode_Fails: "sv_alive s \<Longrightarrow> sv_pending s \<Longrightarrow> json_Marshal lib (sv_data s) = Inl e \<Longrightarrow>
    save_step lib umask s (s\<lparr>sv_pending := False, sv_alive := False\<rparr>)"
| Save: "sv_alive s \<Longrightarrow> sv_pending s \<Longrightarrow> json_Marshal lib (sv_data s) = Inr body \<Longrightarrow>
    save_step lib umask s (s\<lparr>sv_pending := False, sv_writes := sv_writes s + 1, sv_file := WriteCache umask body (sv_file s)\<rparr>)"
| Save_Fails: "sv_alive s \<Longrightarrow> sv_pending s \<Longrightarrow> json_Marshal lib (sv_data s) = Inr body \<Longrightarrow>
    save_step lib umask s (s\<lparr>sv_pending := False, sv_file := f\<rparr>)"

inductive_cases save_stepE: "save_step lib umask s t"

inductive save_reach :: "json_lib \<Rightarrow> nat \<Rightarrow> route_data \<Rightarrow> cache_file option \<Rightarrow> saver \<Rightarrow> bool" for lib umask d f where
  Loaded: "save_reach lib umask d f (start_saver d f)"
| Saving: "save_reach lib umask d f s \<Longrightarrow> save_step lib umask s t \<Longrightarrow> save_reach lib umask d f t"

definition saves_left :: "saver \<Rightarrow> nat" where
  "saves_left s = sv_senders s + (if sv_pending s then 1 else 0) + (if sv_timer s then 1 else 0)"

lemma save_step_left: "save_step lib umask s t \<Longrightarrow> sv_writes t + saves_left t \<le> sv_writes s + saves_left s"
  by (elim save_stepE) (auto simp: saves_left_def)

text \<open>
  However the goroutines run, the file is written twice at most in the life of the process:
  once after loading and once when the interval is over.
\<close>

lemma saved_twice_at_most:
  assumes "save_reach lib umask d f s"
  shows "sv_writes s \<le> 2"
proof -
  from assms have "sv_writes s + saves_left s \<le> 2"
  proof induction
    case Loaded
    then show ?case by (simp add: start_saver_def saves_left_def)
  next
    case (Saving s t)
    then show ?case using save_step_left by fastforce
  qed
  then show ?thesis by simp
qed

text \<open>What the file holds, when a save went well, is the encoding of the loaded data.\<close>

lemma saved_file:
  assumes "save_reach lib umask d f s" "save_step lib umask s t" "sv_writes t = sv_writes s + 1"
  shows "\<exists>body. json_Marshal lib d = Inr body \<and> map_option cf_body (sv_file t) = Some body"
proof -
  from assms(1) have "sv_data s = d"
    by induction (auto simp: start_saver_def elim: save_stepE)
  with assms(2,3) show ?thesis by (elim save_stepE) (auto simp: WriteCache_def)
qed

text \<open>Nothing waits for ever: a state with no step left has no pending message or sender, while the saver runs.\<close>

lemma save_quiescent:
  assumes "\<And>t. \<not> save_step lib umask s t" "sv_alive s"
  shows "saves_left s = 0"
proof -
  have "\<not> sv_timer s" using assms(1) save_step.Fire by blast
  moreover have "\<not> sv_pending s"
  proof
    assume p: "sv_pending s"
    show False
      using assms save_step.Encode_Fails [OF assms(2) p] save_step.Save [OF assms(2) p]
      by (cases "json_Marshal lib (sv_data s)") blast+
  qed
  moreover from this have "sv_senders s = 0" using assms(1) save_step.Send by blast
  ultimately show ?thesis by (simp add: saves_left_def)
qed

end
