(* ===== verification/Proxy_Settings.thy ===== *)
theory Proxy_Settings
  imports Go_Strings
begin

text \<open>
  The settings of the proxy command, \<open>cmd/proxy/server.go\<close> with \<open>constants\<close> and \<open>config\<close>: the flags
  that are declared, the keys that are bound to them and the configuration that is read. The
  library that merges flags, environment and files is an argument with its four typed getters.
\<close>

section \<open>Configuration\<close>

record viper =
  GetString :: "string \<Rightarrow> string"
  GetInt32 :: "string \<Rightarrow> int"
  GetDuration :: "string \<Rightarrow> int"
  GetBool :: "string \<Rightarrow> bool"

record proxy_config =
  pc_ServerName :: string
  pc_FileName :: string
  pc_CacheFileName :: string
  pc_ProxyMgrPort :: int
  pc_InBoundProxyPort :: int
  pc_OutBoundProxyPort :: int
  pc_UDPProxyPort :: int
  pc_ConnIdleTimeOut :: int
  pc_CacheDuration :: int
  pc_DomainPolicyURL :: string
  pc_DomainPolicyCacheFile :: string
  pc_DomainPolicyRefreshInterval :: int
  pc_DomainPolicyFetchTimeout :: int
  pc_DomainPolicyScope :: string
  pc_AppName :: string
  pc_InstanceIP :: string
  pc_MITMEnabled :: bool
  pc_VaultURI :: string
  pc_AgentID :: string
  pc_UpstreamCAFile :: string
  pc_CAPollInterval :: int
  pc_CAInitTimeout :: int
  pc_CredentialRuntimeCacheFile :: string
  pc_CredentialRuntimeRefresh :: int
  pc_CredentialRuntimeFetch :: int

definition constructCfg :: "viper \<Rightarrow> proxy_config" where
  "constructCfg v = \<lparr>
     pc_ServerName = GetString v ''server-name'',
     pc_FileName = GetString v ''file-name'',
     pc_CacheFileName = GetString v ''cache-file-name'',
     pc_ProxyMgrPort = GetInt32 v ''proxy-mgr-port'',
     pc_InBoundProxyPort = GetInt32 v ''in-bound-proxy-port'',
     pc_OutBoundProxyPort = GetInt32 v ''out-bound-proxy-port'',
     pc_UDPProxyPort = GetInt32 v ''udp-proxy-port'',
     pc_ConnIdleTimeOut = GetDuration v ''conn-idle-time-out'',
     pc_CacheDuration = GetDuration v ''cache-duration'',
     pc_DomainPolicyURL = GetString v ''domain-policy-url'',
     pc_DomainPolicyCacheFile = GetString v ''domain-policy-cache-file'',
     pc_DomainPolicyRefreshInterval = GetDuration v ''domain-policy-refresh-interval'',
     pc_DomainPolicyFetchTimeout = GetDuration v ''domain-policy-fetch-timeout'',
     pc_DomainPolicyScope = GetString v ''domain-policy-scope'',
     pc_AppName = GetString v ''app-name'',
     pc_InstanceIP = GetString v ''instance-ip'',
     pc_MITMEnabled = GetBool v ''mitm-enabled'',
     pc_VaultURI = GetString v ''vault-uri'',
     pc_AgentID = GetString v ''agent-id'',
     pc_UpstreamCAFile = GetString v ''upstream-ca-file'',
     pc_CAPollInterval = GetDuration v ''ca-poll-interval'',
     pc_CAInitTimeout = GetDuration v ''ca-init-timeout'',
     pc_CredentialRuntimeCacheFile = GetString v ''credential-runtime-cache-file'',
     pc_CredentialRuntimeRefresh = GetDuration v ''credential-runtime-refresh-interval'',
     pc_CredentialRuntimeFetch = GetDuration v ''credential-runtime-fetch-timeout''\<rparr>"

section \<open>Flags\<close>

datatype flag_value = FString string | FInt32 int | FDuration int | FBool bool

record flag =
  fl_name :: string
  fl_short :: string
  fl_default :: flag_value

abbreviation flag :: "string \<Rightarrow> string \<Rightarrow> flag_value \<Rightarrow> flag" where
  "flag n s v \<equiv> \<lparr>fl_name = n, fl_short = s, fl_default = v\<rparr>"

definition bound_keys :: "string list" where
  "bound_keys = [
     ''server-name'',
     ''file-name'',
     ''cache-file-name'',
     ''cache-duration'',
     ''proxy-mgr-port'',
     ''in-bound-proxy-port'',
     ''out-bound-proxy-port'',
     ''udp-proxy-port'',
     ''conn-idle-time-out'',
     ''domain-policy-url'',
     ''domain-policy-cache-file'',
     ''domain-policy-refresh-interval'',
     ''domain-policy-fetch-timeout'',
     ''domain-policy-scope'',
     ''app-name'',
     ''instance-ip'',
     ''mitm-enabled'',
     ''vault-uri'',
     ''agent-id'',
     ''upstream-ca-file'',
     ''ca-poll-interval'',
     ''ca-init-timeout'',
     ''credential-runtime-cache-file'',
     ''credential-runtime-refresh-interval'',
     ''credential-runtime-fetch-timeout'']"

definition bindCmdFlags :: "flag list" where
  "bindCmdFlags = [
     flag ''server-name'' ''s'' (FString ''Lhotse Proxy''),
     flag ''file-name'' ''c'' (FString ''config.yaml''),
     flag ''cache-file-name'' [] (FString ''cache.json''),
     flag ''proxy-mgr-port'' ''m'' (FInt32 15030),
     flag ''in-bound-proxy-port'' ''i'' (FInt32 15006),
     flag ''out-bound-proxy-port'' ''o'' (FInt32 15001),
     flag ''udp-proxy-port'' [] (FInt32 15009),
     flag ''conn-idle-time-out'' [] (FDuration 60000000000),
     flag ''cache-duration'' [] (FDuration 60000000000),
     flag ''domain-policy-url'' [] (FString []),
     flag ''domain-policy-cache-file'' [] (FString ''/tmp/lhotse-domain-policy-cache.json''),
     flag ''domain-policy-refresh-interval'' [] (FDuration 300000000000),
     flag ''domain-policy-fetch-timeout'' [] (FDuration 5000000000),
     flag ''domain-policy-scope'' [] (FString ''outbound''),
     flag ''app-name'' [] (FString []),
     flag ''instance-ip'' [] (FString []),
     flag ''mitm-enabled'' [] (FBool False),
     flag ''vault-uri'' [] (FString []),
     flag ''agent-id'' [] (FString []),
     flag ''upstream-ca-file'' [] (FString []),
     flag ''ca-poll-interval'' [] (FDuration 300000000000),
     flag ''ca-init-timeout'' [] (FDuration 120000000000),
     flag ''credential-runtime-cache-file'' [] (FString ''/tmp/lhotse-credential-runtime-cache.json''),
     flag ''credential-runtime-refresh-interval'' [] (FDuration 300000000000),
     flag ''credential-runtime-fetch-timeout'' [] (FDuration 5000000000)]"

text \<open>
  \<open>bindFlags\<close> binds each key to the flag of that name; a key without one ends the process. The
  result is \<open>Inl\<close> of the first such key.
\<close>

definition flag_Lookup :: "flag list \<Rightarrow> string \<Rightarrow> flag option" where
  "flag_Lookup flags key = find (\<lambda>f. fl_name f = key) flags"

definition bindFlags :: "(string \<Rightarrow> flag option) \<Rightarrow> (string, unit) result" where
  "bindFlags lookup_flag =
     (case find (\<lambda>key. lookup_flag key = None) bound_keys of Some key \<Rightarrow> Inl key | None \<Rightarrow> Inr ())"

section \<open>The declared defaults\<close>

text \<open>The library with nothing but the flags: a getter of another type gives a zero value.\<close>

definition flags_viper :: "flag list \<Rightarrow> viper" where
  "flags_viper flags = \<lparr>
     GetString = (\<lambda>k. case flag_Lookup flags k of Some f \<Rightarrow> (case fl_default f of FString s \<Rightarrow> s | _ \<Rightarrow> []) | None \<Rightarrow> []),
     GetInt32 = (\<lambda>k. case flag_Lookup flags k of Some f \<Rightarrow> (case fl_default f of FInt32 n \<Rightarrow> n | _ \<Rightarrow> 0) | None \<Rightarrow> 0),
     GetDuration = (\<lambda>k. case flag_Lookup flags k of Some f \<Rightarrow> (case fl_default f of FDuration d \<Rightarrow> d | _ \<Rightarrow> 0) | None \<Rightarrow> 0),
     GetBool = (\<lambda>k. case flag_Lookup flags k of Some f \<Rightarrow> (case fl_default f of FBool b \<Rightarrow> b | _ \<Rightarrow> False) | None \<Rightarrow> False)\<rparr>"

definition default_proxy_config :: proxy_config where
  "default_proxy_config = \<lparr>
     pc_ServerName = ''Lhotse Proxy'',
     pc_FileName = ''config.yaml'',
     pc_CacheFileName = ''cache.json'',
     pc_ProxyMgrPort = 15030,
     pc_InBoundProxyPort = 15006,
     pc_OutBoundProxyPort = 15001,
     pc_UDPProxyPort = 15009,
     pc_ConnIdleTimeOut = 60000000000,
     pc_CacheDuration = 60000000000,
     pc_DomainPolicyURL = [],
     pc_DomainPolicyCacheFile = ''/tmp/lhotse-domain-policy-cache.json'',
     pc_DomainPolicyRefreshInterval = 300000000000,
     pc_DomainPolicyFetchTimeout = 5000000000,
     pc_DomainPolicyScope = ''outbound'',
     pc_AppName = [],
     pc_InstanceIP = [],
     pc_MITMEnabled = False,
     pc_VaultURI = [],
     pc_AgentID = [],
     pc_UpstreamCAFile = [],
     pc_CAPollInterval = 300000000000,
     pc_CAInitTimeout = 120000000000,
     pc_CredentialRuntimeCacheFile = ''/tmp/lhotse-credential-runtime-cache.json'',
     pc_CredentialRuntimeRefresh = 300000000000,
     pc_CredentialRuntimeFetch = 5000000000\<rparr>"

lemma flag_names: "map fl_name bindCmdFlags = [
    ''server-name'', ''file-name'', ''cache-file-name'', ''proxy-mgr-port'', ''in-bound-proxy-port'',
    ''out-bound-proxy-port'', ''udp-proxy-port'', ''conn-idle-time-out'', ''cache-duration'', ''domain-policy-url'',
    ''domain-policy-cache-file'', ''domain-policy-refresh-interval'', ''domain-policy-fetch-timeout'',
    ''domain-policy-scope'', ''app-name'', ''instance-ip'', ''mitm-enabled'', ''vault-uri'', ''agent-id'',
    ''upstream-ca-file'', ''ca-poll-interval'', ''ca-init-timeout'', ''credential-runtime-cache-file'',
    ''credential-runtime-refresh-interval'', ''credential-runtime-fetch-timeout'']"
  by (simp add: bindCmdFlags_def)

lemma flag_Lookup_None: "flag_Lookup flags key = None \<longleftrightarrow> key \<notin> set (map fl_name flags)"
  by (auto simp: flag_Lookup_def find_None_iff)

text \<open>Every flag is bound, and every key that is bound has its flag, so the command never ends here.\<close>

lemma all_flags_bound: "set bound_keys = set (map fl_name bindCmdFlags)"
  by (auto simp: flag_names bound_keys_def)

lemma bindFlags_ok: "bindFlags (flag_Lookup bindCmdFlags) = Inr ()"
proof -
  have "find (\<lambda>key. flag_Lookup bindCmdFlags key = None) bound_keys = None"
    by (simp add: find_None_iff flag_Lookup_None all_flags_bound)
  then show ?thesis by (simp add: bindFlags_def)
qed

lemma flag_names_distinct: "distinct (map fl_name bindCmdFlags)"
  by (simp add: flag_names)

text \<open>
  Each field is read under its own key and at the type its flag has: with no other source the
  configuration is the declared one.
\<close>

lemma constructCfg_defaults: "constructCfg (flags_viper bindCmdFlags) = default_proxy_config"
  by (simp add: constructCfg_def default_proxy_config_def flags_viper_def flag_Lookup_def bindCmdFlags_def)

end
