(* ===== verification/Server_Start.thy ===== *)
theory Server_Start
  imports Policy_Manager Runtime_Config Cert_Store Data_Cache Proxy_Settings
begin

text \<open>
  Start and stop of the agent (\<open>cmd/server/server.go\<close>, the proxy command of \<open>cmd/proxy/server.go\<close>)
  and its trust material: waiting for the CA, the bundle that clients download, the roots that
  upstream certificates are checked against (\<open>outbound.go\<close>). The order of the command is kept:
  policy manager, routing data, interception, then the servers.
\<close>

section \<open>The server manager\<close>

text \<open>The \<open>Startup\<close> and \<open>Shutdown\<close> of a server return an error or nothing.\<close>

definition AddServer :: "'s list \<Rightarrow> 's \<Rightarrow> 's list" where
  "AddServer servers s = servers @ [s]"

fun run_all :: "('s \<Rightarrow> string option) \<Rightarrow> 's list \<Rightarrow> string option \<times> 's list" where
  "run_all act [] = (None, [])"
| "run_all act (s # ss) =
     (case act s of
        Some e \<Rightarrow> (Some e, [s])
      | None \<Rightarrow> (case run_all act ss of (r, called) \<Rightarrow> (r, s # called)))"

text \<open>Both loops return the first error, and the servers that were called.\<close>

definition sm_Startup :: "('s \<Rightarrow> string option) \<Rightarrow> 's list \<Rightarrow> string option \<times> 's list" where
  "sm_Startup startup servers = run_all startup servers"

definition sm_Shutdown :: "('s \<Rightarrow> string option) \<Rightarrow> 's list \<Rightarrow> string option \<times> 's list" where
  "sm_Shutdown shutdown servers = run_all shutdown servers"

lemma run_all_ok: "fst (run_all act ss) = None \<longleftrightarrow> (\<forall>s\<in>set ss. act s = None)"
  by (induction ss) (auto split: option.splits prod.splits)

lemma run_all_none: "\<forall>s\<in>set ss. act s = None \<Longrightarrow> run_all act ss = (None, ss)"
  by (induction ss) auto

lemma run_all_called:
  "snd (run_all act ss) = takeWhile (\<lambda>s. act s = None) ss @ take 1 (dropWhile (\<lambda>s. act s = None) ss)"
  by (induction ss) (auto split: option.splits prod.splits)

text \<open>Every server runs after a start without error, and they start in the order of registration.\<close>

lemma Startup_all: "fst (sm_Startup startup servers) = None \<Longrightarrow> snd (sm_Startup startup servers) = servers"
  by (simp add: sm_Startup_def run_all_ok run_all_none)

text \<open>A server that fails to stop keeps those behind it running.\<close>

lemma Shutdown_stops_early:
  assumes "shutdown s = Some e" "\<forall>x\<in>set before. shutdown x = None"
  shows "sm_Shutdown shutdown (before @ s # after) = (Some e, before @ [s])"
  using assms by (induction before) (simp_all add: sm_Shutdown_def)

section \<open>Waiting for the CA\<close>

text \<open>
  \<open>initializeCA\<close>: what the select sees is a list of ticks, each with the answer to the fetch, and
  the timeout. The loop ends with the loaded store or with the fatal error; \<open>None\<close> is a loop that
  is still waiting at the end of the list.
\<close>

datatype ca_tick = Tick ca_env | InitTimeout

datatype ca_outcome = CALoaded cert_store | CAFatal

fun initializeCA :: "x509_lib \<Rightarrow> ca_tick list \<Rightarrow> cert_store \<Rightarrow> ca_outcome option" where
  "initializeCA lib [] cs = None"
| "initializeCA lib (InitTimeout # ts) cs = Some CAFatal"
| "initializeCA lib (Tick env # ts) cs =
     (case FetchAndReload lib env cs of
        (None, cs') \<Rightarrow> Some (CALoaded cs')
      | (Some e, cs') \<Rightarrow> initializeCA lib ts cs')"

lemma FetchAndReload_failed: "FetchAndReload lib env cs = (Some e, cs') \<Longrightarrow> cs' = cs"
  by (auto simp: FetchAndReload_def Let_def split: if_splits sum.splits prod.splits)

text \<open>The wait ends: with the CA of the first answer that is good, or with the timeout.\<close>

lemma initializeCA_ends:
  assumes "InitTimeout \<in> set ts"
  shows "\<exists>r. initializeCA lib ts cs = Some r"
  using assms
proof (induction ts arbitrary: cs)
  case (Cons t ts)
  then show ?case by (cases t) (auto split: prod.splits option.splits)
qed simp

lemma initializeCA_first_good:
  assumes "\<forall>env\<in>set bad. fst (FetchAndReload lib env cs) \<noteq> None" "FetchAndReload lib env cs = (None, cs')"
  shows "initializeCA lib (map Tick bad @ Tick env # ts) cs = Some (CALoaded cs')"
  using assms
proof (induction bad)
  case (Cons b bad)
  obtain e cs1 where b: "FetchAndReload lib b cs = (Some e, cs1)" using Cons.prems(1) by (cases "FetchAndReload lib b cs") auto
  with FetchAndReload_failed [OF b] Cons show ?case by simp
qed simp

section \<open>The downloaded bundle\<close>

datatype bundle_error = NoSystemCABundle | NoActiveCA

definition systemCABundlePaths :: "string list" where
  "systemCABundlePaths =
     [''/etc/ssl/certs/ca-certificates.crt'', ''/etc/pki/tls/certs/ca-bundle.crt'', ''/etc/ssl/ca-bundle.pem'',
      ''/etc/pki/ca-trust/extracted/pem/tls-ca-bundle.pem'', ''/etc/ssl/cert.pem'']"

fun first_bundle :: "(string \<Rightarrow> string option) \<Rightarrow> string list \<Rightarrow> (bundle_error, string) result" where
  "first_bundle readFile [] = Inl NoSystemCABundle"
| "first_bundle readFile (path # paths) =
     (case readFile path of
        Some bundle \<Rightarrow> if TrimSpace bundle = [] then first_bundle readFile paths else Inr bundle
      | None \<Rightarrow> first_bundle readFile paths)"

definition loadSystemCABundle :: "(string \<Rightarrow> string option) \<Rightarrow> (bundle_error, string) result" where
  "loadSystemCABundle readFile = first_bundle readFile systemCABundlePaths"

definition combinedTrustBundle ::
  "x509_lib \<Rightarrow> (string \<Rightarrow> string option) \<Rightarrow> cert_store option \<Rightarrow> (bundle_error, string) result" where
  "combinedTrustBundle lib readFile certStore =
     and_then (loadSystemCABundle readFile) (\<lambda>systemBundle.
       case certStore of
         None \<Rightarrow> Inl NoActiveCA
       | Some cs \<Rightarrow>
           let activeCA = GetActiveCAPEM lib cs in
           if TrimSpace activeCA = [] then Inl NoActiveCA
           else Inr ((if systemBundle \<noteq> [] \<and> last systemBundle \<noteq> char_of (10 :: nat)
                      then systemBundle @ [char_of (10 :: nat)] else systemBundle) @ activeCA))"

text \<open>
  The answer of the \<open>/ca.crt\<close> endpoint: status, content type and body. \<open>http.Error\<close> ends its
  text with a line feed.
\<close>

definition bundle_error_text :: "bundle_error \<Rightarrow> string" where
  "bundle_error_text e =
     (case e of
        NoActiveCA \<Rightarrow> ''active MITM CA not loaded''
      | NoSystemCABundle \<Rightarrow> ''system CA bundle not found in '' @ join_with '', '' systemCABundlePaths)"

definition ca_bundle_response ::
  "x509_lib \<Rightarrow> (string \<Rightarrow> string option) \<Rightarrow> cert_store option \<Rightarrow> nat \<times> string \<times> string" where
  "ca_bundle_response lib readFile certStore =
     (case combinedTrustBundle lib readFile certStore of
        Inr bundle \<Rightarrow> (200, ''application/x-pem-file'', bundle)
      | Inl e \<Rightarrow>
          (if e = NoActiveCA then 503 else 500, ''text/plain; charset=utf-8'', bundle_error_text e @ [char_of (10 :: nat)]))"

lemma first_bundle_sound:
  "first_bundle readFile paths = Inr b \<Longrightarrow> \<exists>path\<in>set paths. readFile path = Some b \<and> TrimSpace b \<noteq> []"
  by (induction paths) (auto split: option.splits if_splits)

text \<open>
  A bundle that is served holds the system's certificates and the active CA, each PEM block
  starting on its own line.
\<close>

lemma combinedTrustBundle_parts:
  assumes "combinedTrustBundle lib readFile (Some cs) = Inr bundle"
  shows "\<exists>path\<in>set systemCABundlePaths. \<exists>sys sep. readFile path = Some sys \<and> TrimSpace sys \<noteq> [] \<and>
    bundle = sys @ sep @ GetActiveCAPEM lib cs \<and> last (sys @ sep) = char_of (10 :: nat) \<and> set sep \<subseteq> {char_of (10 :: nat)}"
proof -
  obtain sys where sys: "loadSystemCABundle readFile = Inr sys"
    using assms by (auto simp: combinedTrustBundle_def and_then_def split: sum.splits)
  then obtain path where path: "path \<in> set systemCABundlePaths" "readFile path = Some sys" "TrimSpace sys \<noteq> []"
    using first_bundle_sound [of readFile systemCABundlePaths sys] unfolding loadSystemCABundle_def by blast
  then have ne: "sys \<noteq> []" by auto
  define sep where "sep = (if last sys \<noteq> char_of (10 :: nat) then [char_of (10 :: nat)] else ([] :: string))"
  have "bundle = sys @ sep @ GetActiveCAPEM lib cs"
    using assms sys ne by (auto simp: combinedTrustBundle_def and_then_def sep_def Let_def split: if_splits)
  moreover have "last (sys @ sep) = char_of (10 :: nat)" "set sep \<subseteq> {char_of (10 :: nat)}" by (auto simp: sep_def)
  ultimately show ?thesis using path by blast
qed

section \<open>Roots for upstream certificates\<close>

datatype roots_error = ReadCAFile string | EmptyCAFile string | SystemPool | NoCertificates string

text \<open>
  \<open>loadMITMUpstreamRootCAs\<close>: \<open>Inr None\<close> leaves the choice of roots to the library. A pool is a
  list of certificates without repetitions; \<open>parsePEM\<close> lists the certificates of a file. The
  system's pool is \<open>None\<close> when it cannot be loaded and \<open>Some None\<close> when it is nil.
\<close>

definition loadMITMUpstreamRootCAs ::
  "string option \<Rightarrow> string \<Rightarrow> (string \<Rightarrow> string option) \<Rightarrow> (string list option) option \<Rightarrow> (string \<Rightarrow> string list)
     \<Rightarrow> (roots_error, string list option) result" where
  "loadMITMUpstreamRootCAs upstreamCAFile sslCertFile readFile systemPool parsePEM =
     (case upstreamCAFile of
        None \<Rightarrow> Inr None
      | Some configured \<Rightarrow>
          let caPath = (if TrimSpace configured = [] then TrimSpace sslCertFile else TrimSpace configured) in
          if caPath = [] then Inr None
          else (case readFile caPath of
                  None \<Rightarrow> Inl (ReadCAFile caPath)
                | Some pem \<Rightarrow>
                    if TrimSpace pem = [] then Inl (EmptyCAFile caPath)
                    else (case systemPool of
                            None \<Rightarrow> Inl SystemPool
                          | Some pool \<Rightarrow>
                              if parsePEM pem = [] then Inl (NoCertificates caPath)
                              else Inr (Some (fold List.insert (parsePEM pem) (case pool of None \<Rightarrow> [] | Some certs \<Rightarrow> certs))))))"

lemma set_fold_insert: "set (fold List.insert xs pool) = set xs \<union> set pool"
  by (induction xs arbitrary: pool) auto

text \<open>A configured file only adds roots, and a bad one is an error, never a smaller pool.\<close>

lemma loadMITMUpstreamRootCAs_extends:
  assumes "loadMITMUpstreamRootCAs (Some configured) env readFile (Some (Some certs)) parsePEM = Inr (Some pool)"
  shows "\<exists>path pem. readFile path = Some pem \<and> parsePEM pem \<noteq> [] \<and> set pool = set certs \<union> set (parsePEM pem)"
  using assms
  by (auto simp: loadMITMUpstreamRootCAs_def Let_def set_fold_insert split: if_splits option.splits) blast+

section \<open>The proxy command\<close>

text \<open>
  The outbound server holds the roots, the certificate store, the resolvers of credentials and
  identities, of which only the address they ask counts here, and the runtime configuration.
\<close>

datatype proxy_server =
    ManagementServer string
  | InProxyServer int int
  | OutboundServer int int "string list option" "cert_store option" "string option" "rc_manager option"
  | UDPServer int int

datatype boot_error =
    VaultURIRequired
  | AgentIDRequired
  | TrustRootsFailed roots_error
  | CAInitTimedOut
  | StartupFailed string
  | LoadPanic
  | ReadyPanic

text \<open>What the command meets: the environments of its parts, in the order they are used.\<close>

record 'u boot_env =
  be_policy :: "'u dp_env"
  be_policy_json :: "string \<Rightarrow> string + config_document"
  be_json :: json_lib
  be_yaml :: "string \<Rightarrow> string + service list"
  be_readFile :: "string \<Rightarrow> string option"
  be_sslCertFile :: string
  be_systemPool :: "string list option option"
  be_parsePEM :: "string \<Rightarrow> string list"
  be_runtime :: "'u rc_env"
  be_runtime_json :: "string \<Rightarrow> string + rc_document"
  be_x509 :: x509_lib
  be_ticks :: "ca_tick list"
  be_startup :: "proxy_server \<Rightarrow> string option"
  be_ready :: bool

text \<open>What a running agent holds. \<open>ag_refresh\<close>: which background loops were started.\<close>

record agent =
  ag_policy :: dp_manager
  ag_data :: route_data
  ag_runtime :: "rc_manager option"
  ag_certs :: "cert_store option"
  ag_roots :: "string list option"
  ag_vault :: "string option"
  ag_files :: files
  ag_servers :: "proxy_server list"
  ag_refresh :: "bool \<times> bool \<times> bool"

definition policy_options :: "proxy_config \<Rightarrow> dp_options" where
  "policy_options pc = \<lparr>URL = pc_DomainPolicyURL pc, CacheFile = pc_DomainPolicyCacheFile pc,
     RefreshInterval = pc_DomainPolicyRefreshInterval pc, FetchTimeout = pc_DomainPolicyFetchTimeout pc,
     Scope = pc_DomainPolicyScope pc, AppName = pc_AppName pc, InstanceIP = pc_InstanceIP pc\<rparr>"

definition runtime_options :: "proxy_config \<Rightarrow> rc_options" where
  "runtime_options pc = \<lparr>rc_URL = pc_VaultURI pc, rc_CacheFile = pc_CredentialRuntimeCacheFile pc,
     rc_RefreshInterval = pc_CredentialRuntimeRefresh pc, rc_FetchTimeout = pc_CredentialRuntimeFetch pc,
     rc_AppName = pc_AppName pc, rc_InstanceIP = pc_InstanceIP pc, rc_AgentID = pc_AgentID pc\<rparr>"

text \<open>
  The block for interception. \<open>None\<close> is a command that still waits for the CA. \<open>log.Fatal\<close> ends
  the process: the logger is left at its default level, at which fatal messages are written.
\<close>

definition setup_mitm ::
  "'u boot_env \<Rightarrow> proxy_config \<Rightarrow> files \<Rightarrow> (boot_error, string list option \<times> rc_manager \<times> cert_store \<times> files \<times> bool) result option" where
  "setup_mitm be pc fs =
     (if TrimSpace (pc_VaultURI pc) = [] then Some (Inl VaultURIRequired)
      else if TrimSpace (pc_AgentID pc) = [] then Some (Inl AgentIDRequired)
      else (case loadMITMUpstreamRootCAs (Some (pc_UpstreamCAFile pc)) (be_sslCertFile be) (be_readFile be)
                   (be_systemPool be) (be_parsePEM be) of
              Inl e \<Rightarrow> Some (Inl (TrustRootsFailed e))
            | Inr roots \<Rightarrow>
                (case rc_Start (be_runtime_json be) (be_runtime be) (rc_NewManager (runtime_options pc), fs) of
                   ((rm, fs'), loop) \<Rightarrow>
                     (case initializeCA (be_x509 be) (be_ticks be) (NewCertStore (pc_VaultURI pc)) of
                        None \<Rightarrow> None
                      | Some CAFatal \<Rightarrow> Some (Inl CAInitTimedOut)
                      | Some (CALoaded cs) \<Rightarrow> Some (Inr (roots, rm, cs, fs', loop))))))"

definition proxy_servers ::
  "proxy_config \<Rightarrow> string list option \<Rightarrow> cert_store option \<Rightarrow> string option \<Rightarrow> rc_manager option \<Rightarrow> proxy_server list" where
  "proxy_servers pc roots cs vault rm =
     AddServer (AddServer (AddServer (AddServer []
       (ManagementServer ('':'' @ Itoa (pc_ProxyMgrPort pc))))
       (InProxyServer (pc_ConnIdleTimeOut pc) (pc_InBoundProxyPort pc)))
       (OutboundServer (pc_ConnIdleTimeOut pc) (pc_OutBoundProxyPort pc) roots cs vault rm))
       (UDPServer (pc_ConnIdleTimeOut pc) (pc_UDPProxyPort pc))"

definition start_servers :: "'u boot_env \<Rightarrow> agent \<Rightarrow> (boot_error, agent) result" where
  "start_servers be ag =
     (case fst (sm_Startup (be_startup be) (ag_servers ag)) of
        Some e \<Rightarrow> Inl (StartupFailed e)
      | None \<Rightarrow> if be_ready be then Inr ag else Inl ReadyPanic)"

definition proxy_Run :: "'u boot_env \<Rightarrow> proxy_config \<Rightarrow> files \<Rightarrow> (boot_error, agent) result option" where
  "proxy_Run be pc fs =
     (case Start (be_policy_json be) (be_policy be) (NewManager (policy_options pc), fs) of
        ((pm, fs1), loop1) \<Rightarrow>
          (case data_Load (be_json be) (be_yaml be) (be_readFile be) (pc_CacheFileName pc) (pc_FileName pc)
                  (cow_dup (be_json be) (NewMaps, empty_store)) of
             None \<Rightarrow> Some (Inl LoadPanic)
           | Some d \<Rightarrow>
               if pc_MITMEnabled pc then
                 (case setup_mitm be pc fs1 of
                    None \<Rightarrow> None
                  | Some (Inl e) \<Rightarrow> Some (Inl e)
                  | Some (Inr (roots, rm, cs, fs2, loop2)) \<Rightarrow>
                      Some (start_servers be
                        \<lparr>ag_policy = pm, ag_data = d, ag_runtime = Some rm, ag_certs = Some cs, ag_roots = roots, ag_vault = Some (pc_VaultURI pc),
                         ag_files = fs2, ag_servers = proxy_servers pc roots (Some cs) (Some (pc_VaultURI pc)) (Some rm),
                         ag_refresh = (loop1, loop2, 0 < pc_CAPollInterval pc)\<rparr>))
               else
                 Some (start_servers be
                   \<lparr>ag_policy = pm, ag_data = d, ag_runtime = None, ag_certs = None, ag_roots = None, ag_vault = None,
                    ag_files = fs1, ag_servers = proxy_servers pc None None None None,
                    ag_refresh = (loop1, False, False)\<rparr>)))"

text \<open>The hook that runs when the process is told to end.\<close>

definition proxy_Shutdown :: "(proxy_server \<Rightarrow> string option) \<Rightarrow> agent \<Rightarrow> agent \<times> proxy_server list" where
  "proxy_Shutdown shutdown ag =
     (ag\<lparr>ag_policy := Stop (ag_policy ag), ag_runtime := map_option rc_Stop (ag_runtime ag)\<rparr>,
      snd (sm_Shutdown shutdown (ag_servers ag)))"

lemma FetchAndReload_loaded:
  "FetchAndReload lib env cs = (None, cs') \<Longrightarrow> \<exists>ca. primary cs' = Some ca"
  by (auto simp: FetchAndReload_def Let_def cs_Reload_def set_cas_def split: if_splits sum.splits prod.splits)

lemma initializeCA_loaded:
  "initializeCA lib ts cs = Some (CALoaded cs') \<Longrightarrow> \<exists>ca. primary cs' = Some ca"
  by (induction lib ts cs rule: initializeCA.induct)
    (auto split: prod.splits option.splits dest: FetchAndReload_loaded)

lemma start_servers_Inr:
  "start_servers be ag = Inr ag' \<longleftrightarrow> ag' = ag \<and> (\<forall>s\<in>set (ag_servers ag). be_startup be s = None) \<and> be_ready be"
  using run_all_ok [of "be_startup be" "ag_servers ag"]
  by (auto simp: start_servers_def sm_Startup_def split: option.splits)

lemma agent_up:
  assumes "proxy_Run be pc fs = Some (Inr ag)"
  shows "(\<forall>s\<in>set (ag_servers ag). be_startup be s = None) \<and>
    ag_servers ag = proxy_servers pc (ag_roots ag) (ag_certs ag) (ag_vault ag) (ag_runtime ag) \<and>
    (if pc_MITMEnabled pc
     then (\<exists>cs ca rm. ag_certs ag = Some cs \<and> primary cs = Some ca \<and> ag_runtime ag = Some rm \<and> ag_vault ag = Some (pc_VaultURI pc) \<and>
            TrimSpace (pc_VaultURI pc) \<noteq> [] \<and> TrimSpace (pc_AgentID pc) \<noteq> [])
     else ag_certs ag = None \<and> ag_runtime ag = None \<and> ag_vault ag = None \<and> ag_roots ag = None)"
  using assms
  by (auto simp: proxy_Run_def setup_mitm_def start_servers_Inr dest: initializeCA_loaded
      split: prod.splits option.splits sum.splits if_splits ca_outcome.splits)

text \<open>With the timeout among the events, the command does not wait for ever.\<close>

lemma proxy_Run_ends:
  assumes "InitTimeout \<in> set (be_ticks be)"
  shows "\<exists>r. proxy_Run be pc fs = Some r"
proof -
  obtain r where "initializeCA (be_x509 be) (be_ticks be) (NewCertStore (pc_VaultURI pc)) = Some r"
    using initializeCA_ends [OF assms] by blast
  then show ?thesis
    by (auto simp: proxy_Run_def setup_mitm_def split: prod.splits option.splits sum.splits if_splits ca_outcome.splits)
qed

text \<open>
  C30. The start of the agent ends, and traffic is only taken once everything it needs is there:
  the command reports an error, or it comes up with all four servers started. With interception on,
  the outbound server then has a certificate store that holds a CA and a runtime configuration
  manager, and the Vault address and the agent's name are set; with interception off it has none
  of them.
\<close>

theorem boot_ends_ready:
  assumes "InitTimeout \<in> set (be_ticks be)"
  shows "(\<exists>e. proxy_Run be pc fs = Some (Inl e)) \<or>
    (\<exists>ag. proxy_Run be pc fs = Some (Inr ag) \<and>
       (\<forall>s\<in>set (ag_servers ag). be_startup be s = None) \<and>
       ag_servers ag = proxy_servers pc (ag_roots ag) (ag_certs ag) (ag_vault ag) (ag_runtime ag) \<and>
       (if pc_MITMEnabled pc
        then (\<exists>cs ca rm. ag_certs ag = Some cs \<and> primary cs = Some ca \<and> ag_runtime ag = Some rm \<and> ag_vault ag = Some (pc_VaultURI pc) \<and>
               TrimSpace (pc_VaultURI pc) \<noteq> [] \<and> TrimSpace (pc_AgentID pc) \<noteq> [])
        else ag_certs ag = None \<and> ag_runtime ag = None \<and> ag_vault ag = None \<and> ag_roots ag = None))"
proof -
  obtain r where r: "proxy_Run be pc fs = Some r" using proxy_Run_ends [OF assms] by blast
  show ?thesis
  proof (cases r)
    case (Inl e)
    with r show ?thesis by blast
  next
    case (Inr ag)
    with r have "proxy_Run be pc fs = Some (Inr ag)" by simp
    from agent_up [OF this] this show ?thesis by blast
  qed
qed

definition demo_boot :: "unit boot_env" where
  "demo_boot = \<lparr>be_policy = demo_env False, be_policy_json = demo_unmarshal, be_json = plain_lib,
     be_yaml = (\<lambda>_. Inl ''no file''), be_readFile = (\<lambda>_. None), be_sslCertFile = [], be_systemPool = None,
     be_parsePEM = (\<lambda>_. []), be_runtime = demo_rc_env False, be_runtime_json = (\<lambda>_. Inr demo_rc_doc),
     be_x509 = demo_x509, be_ticks = [Tick (demo_ca_env ''old''), InitTimeout], be_startup = (\<lambda>_. None), be_ready = True\<rparr>"

definition demo_proxy_config :: proxy_config where
  "demo_proxy_config = default_proxy_config\<lparr>pc_MITMEnabled := True, pc_VaultURI := ''v/'', pc_AgentID := ''a1''\<rparr>"

lemma demo_boot_mitm: "\<exists>x. setup_mitm demo_boot demo_proxy_config fs = Some (Inr x)"
proof -
  have "initializeCA (be_x509 demo_boot) (be_ticks demo_boot) (NewCertStore (pc_VaultURI demo_proxy_config)) =
      Some (CALoaded (snd (FetchAndReload demo_x509 (demo_ca_env ''old'') (NewCertStore ''v/''))))"
    by (simp add: demo_boot_def demo_proxy_config_def demo_loaded)
  moreover have "TrimSpace (pc_VaultURI demo_proxy_config) \<noteq> []" "TrimSpace (pc_AgentID demo_proxy_config) \<noteq> []"
    by (simp_all add: demo_proxy_config_def str_eval)
  moreover have "loadMITMUpstreamRootCAs (Some (pc_UpstreamCAFile demo_proxy_config)) (be_sslCertFile demo_boot)
      (be_readFile demo_boot) (be_systemPool demo_boot) (be_parsePEM demo_boot) = Inr None"
    by (simp add: loadMITMUpstreamRootCAs_def demo_boot_def demo_proxy_config_def default_proxy_config_def)
  ultimately show ?thesis by (simp add: setup_mitm_def split: prod.split)
qed

lemma demo_boot_servers: "start_servers demo_boot ag = Inr ag"
  by (simp add: start_servers_Inr demo_boot_def)

lemma demo_boot_starts: "\<exists>ag. proxy_Run demo_boot demo_proxy_config Map.empty = Some (Inr ag)"
proof -
  obtain pm fs loop where s: "Start (be_policy_json demo_boot) (be_policy demo_boot)
      (NewManager (policy_options demo_proxy_config), Map.empty) = ((pm, fs), loop)" by (metis prod.exhaust)
  obtain roots rm cs fs' loop' where m: "setup_mitm demo_boot demo_proxy_config fs = Some (Inr (roots, rm, cs, fs', loop'))"
    using demo_boot_mitm by (metis prod_cases5)
  obtain d where d: "data_Load (be_json demo_boot) (be_yaml demo_boot) (be_readFile demo_boot) (pc_CacheFileName demo_proxy_config)
      (pc_FileName demo_proxy_config) (cow_dup (be_json demo_boot) (NewMaps, empty_store)) = Some d"
    by (simp add: data_Load_def LoadServiceData_def demo_boot_def)
  have "pc_MITMEnabled demo_proxy_config" by (simp add: demo_proxy_config_def)
  with s m d show ?thesis by (simp add: proxy_Run_def demo_boot_servers)
qed

theorem boot_ends_ready_witness:
  "\<exists>ag cs ca. proxy_Run demo_boot demo_proxy_config Map.empty = Some (Inr ag) \<and> ag_certs ag = Some cs \<and> primary cs = Some ca"
proof -
  have "InitTimeout \<in> set (be_ticks demo_boot)" by (simp add: demo_boot_def)
  moreover have "pc_MITMEnabled demo_proxy_config" by (simp add: demo_proxy_config_def)
  ultimately show ?thesis
    using boot_ends_ready [of demo_boot demo_proxy_config Map.empty] demo_boot_starts by auto
qed

end
