(* ===== verification/Listeners.thy ===== *)
theory Listeners
  imports Go_Strings
begin

text \<open>
  The servers around the connection handlers: the accept loops of \<open>cmd/proxy/inbound.go\<close> and
  \<open>outbound.go\<close> with the counter of open connections, the end of the process (\<open>cmd/upgrade\<close>), the
  wrapper of goroutines (\<open>util/safe.go\<close>), and the listener for one connection that hands an
  intercepted connection to an HTTP server. The loops and the goroutines of the connections
  interleave; their steps are relations.
\<close>

section \<open>Goroutines\<close>

datatype fn_result = Returned | Panicking string

text \<open>
  \<open>GO\<close>: the deferred function recovers a panic and logs it with \<open>log.Panic\<close>, which panics again with
  nothing left to recover it. The result tells whether the process ends.
\<close>

definition util_GO :: "fn_result \<Rightarrow> bool" where
  "util_GO r = (case r of Returned \<Rightarrow> False | Panicking e \<Rightarrow> True)"

section \<open>Accept loops\<close>

text \<open>
  A connection is accepted, its goroutine counts it, serves it, counts it down and closes it: the
  deferred calls run in the reverse order, so that the counter goes down before the connection is
  closed.
\<close>

datatype phase = Accepted | Serving | Leaving | Closed

record tcp_server =
  ts_numOpen :: "32 word"
  ts_phase :: "nat \<rightharpoonup> phase"
  ts_accepting :: bool
  ts_crashed :: bool

definition started_server :: tcp_server where
  "started_server = \<lparr>ts_numOpen = 0, ts_phase = Map.empty, ts_accepting = True, ts_crashed = False\<rparr>"

text \<open>\<open>listen\<close> gives the error of listening on an address.\<close>

definition tcp_Startup :: "(string \<Rightarrow> string option) \<Rightarrow> int \<Rightarrow> (string, tcp_server) result" where
  "tcp_Startup listen port = (case listen ('':'' @ Itoa port) of Some e \<Rightarrow> Inl e | None \<Rightarrow> Inr started_server)"

definition set_phase :: "nat \<Rightarrow> phase \<Rightarrow> tcp_server \<Rightarrow> tcp_server" where
  "set_phase i p s = s\<lparr>ts_phase := (ts_phase s)(i \<mapsto> p)\<rparr>"

definition add_open :: "32 word \<Rightarrow> tcp_server \<Rightarrow> tcp_server" where
  "add_open n s = s\<lparr>ts_numOpen := ts_numOpen s + n\<rparr>"

definition serving :: "tcp_server \<Rightarrow> nat set" where
  "serving s = {i. ts_phase s i = Some Serving}"

text \<open>The steps of the goroutine of a connection; a panic of the handler ends the process.\<close>

inductive conn_step :: "tcp_server \<Rightarrow> tcp_server \<Rightarrow> bool" where
  Count: "ts_phase s i = Some Accepted \<Longrightarrow> conn_step s (add_open 1 (set_phase i Serving s))"
| Serve_ends: "ts_phase s i = Some Serving \<Longrightarrow> conn_step s (add_open (-1) (set_phase i Leaving s))"
| Close_conn: "ts_phase s i = Some Leaving \<Longrightarrow> conn_step s (set_phase i Closed s)"
| Handler_panics: "ts_phase s i = Some Serving \<Longrightarrow> util_GO (Panicking e) \<Longrightarrow>
    conn_step s ((add_open (-1) (set_phase i Leaving s))\<lparr>ts_crashed := True\<rparr>)"

text \<open>The outbound loop returns on an error of \<open>Accept\<close>.\<close>

inductive outbound_loop :: "tcp_server \<Rightarrow> tcp_server \<Rightarrow> bool" where
  Accept: "ts_accepting s \<Longrightarrow> \<not> ts_crashed s \<Longrightarrow> ts_phase s i = None \<Longrightarrow> outbound_loop s (set_phase i Accepted s)"
| Accept_fails: "ts_accepting s \<Longrightarrow> \<not> ts_crashed s \<Longrightarrow> outbound_loop s (s\<lparr>ts_accepting := False\<rparr>)"
| Conn: "\<not> ts_crashed s \<Longrightarrow> conn_step s s' \<Longrightarrow> outbound_loop s s'"

text \<open>
  The inbound loop drops the error: the goroutine gets a nil connection, and the first statement,
  which defers its \<open>Close\<close>, panics.
\<close>

inductive inbound_loop :: "tcp_server \<Rightarrow> tcp_server \<Rightarrow> bool" where
  Accept: "ts_accepting s \<Longrightarrow> \<not> ts_crashed s \<Longrightarrow> ts_phase s i = None \<Longrightarrow> inbound_loop s (set_phase i Accepted s)"
| Accept_fails: "ts_accepting s \<Longrightarrow> \<not> ts_crashed s \<Longrightarrow> util_GO (Panicking e) \<Longrightarrow> inbound_loop s (s\<lparr>ts_crashed := True\<rparr>)"
| Conn: "\<not> ts_crashed s \<Longrightarrow> conn_step s s' \<Longrightarrow> inbound_loop s s'"

inductive_simps outbound_loop_simp: "outbound_loop s s'"
inductive_simps inbound_loop_simp: "inbound_loop s s'"

section \<open>Counting open connections\<close>

text \<open>
  What the counter promises to \<open>Shutdown\<close>: a loop that starts with no connection and changes the
  set of those that are served only by counting up and down.
\<close>

locale connection_counter =
  fixes server_step :: "'s \<Rightarrow> 's \<Rightarrow> bool" and first :: 's
    and numOpen :: "'s \<Rightarrow> 32 word" and served :: "'s \<Rightarrow> nat set"
  assumes first_none: "numOpen first = 0" "served first = {}"
    and step_counts: "server_step s s' \<Longrightarrow>
      served s' = served s \<and> numOpen s' = numOpen s \<or>
      (\<exists>i. i \<notin> served s \<and> served s' = insert i (served s) \<and> numOpen s' = numOpen s + 1) \<or>
      (\<exists>i. i \<in> served s \<and> served s' = served s - {i} \<and> numOpen s' = numOpen s - 1)"
begin

lemma counted:
  "server_step\<^sup>*\<^sup>* first s \<Longrightarrow> finite (served s) \<and> numOpen s = of_nat (card (served s))"
proof (induction rule: rtranclp_induct)
  case base
  then show ?case by (simp add: first_none)
next
  case (step s s')
  consider "served s' = served s" "numOpen s' = numOpen s"
    | i where "i \<notin> served s" "served s' = insert i (served s)" "numOpen s' = numOpen s + 1"
    | i where "i \<in> served s" "served s' = served s - {i}" "numOpen s' = numOpen s - 1"
    using step_counts [OF step(2)] by blast
  then show ?case
  proof cases
    case 3
    then have "card (served s) = Suc (card (served s'))"
      using step(3) by (metis card_Suc_Diff1)
    then show ?thesis using step(3) 3 by simp
  qed (use step(3) in auto)
qed

text \<open>While less than \<open>2^31\<close> connections are served the counter, read as a signed number, is their number.\<close>

lemma counter_value:
  assumes "server_step\<^sup>*\<^sup>* first s" "card (served s) < 2 ^ 31"
  shows "sint (numOpen s) = int (card (served s))"
proof -
  have s: "sint (word_of_int i :: 32 word) = signed_take_bit 31 i" for i by (simp add: signed_of_int)
  have "numOpen s = word_of_int (int (card (served s)))" using counted [OF assms(1)] by simp
  moreover have "signed_take_bit 31 (int (card (served s))) = int (card (served s))"
    using assms(2) by (intro signed_take_bit_int_eq_self) simp_all
  ultimately show ?thesis by (simp only: s)
qed

lemma drained:
  assumes "server_step\<^sup>*\<^sup>* first s" "card (served s) < 2 ^ 31"
  shows "\<not> 0 < sint (numOpen s) \<longleftrightarrow> served s = {}"
  using counter_value [OF assms] counted [OF assms(1)] by auto

end

lemma conn_step_counts:
  assumes "conn_step s s'"
  shows "serving s' = serving s \<and> ts_numOpen s' = ts_numOpen s \<or>
    (\<exists>i. i \<notin> serving s \<and> serving s' = insert i (serving s) \<and> ts_numOpen s' = ts_numOpen s + 1) \<or>
    (\<exists>i. i \<in> serving s \<and> serving s' = serving s - {i} \<and> ts_numOpen s' = ts_numOpen s - 1)"
  using assms
proof cases
  case (Count i)
  then show ?thesis by (intro disjI2 disjI1 exI [of _ i]) (auto simp: serving_def add_open_def set_phase_def)
next
  case (Serve_ends i)
  then show ?thesis by (intro disjI2 exI [of _ i]) (auto simp: serving_def add_open_def set_phase_def)
next
  case (Close_conn i)
  then show ?thesis by (intro disjI1) (auto simp: serving_def set_phase_def)
next
  case (Handler_panics i e)
  then show ?thesis by (intro disjI2 exI [of _ i]) (auto simp: serving_def add_open_def set_phase_def)
qed

interpretation outbound: connection_counter outbound_loop started_server ts_numOpen serving
proof
  fix s s'
  assume "outbound_loop s s'"
  then show "serving s' = serving s \<and> ts_numOpen s' = ts_numOpen s \<or>
    (\<exists>i. i \<notin> serving s \<and> serving s' = insert i (serving s) \<and> ts_numOpen s' = ts_numOpen s + 1) \<or>
    (\<exists>i. i \<in> serving s \<and> serving s' = serving s - {i} \<and> ts_numOpen s' = ts_numOpen s - 1)"
  proof cases
    case Conn
    then show ?thesis using conn_step_counts by blast
  qed (auto simp: serving_def set_phase_def split: if_splits)
qed (simp_all add: started_server_def serving_def)

interpretation inbound: connection_counter inbound_loop started_server ts_numOpen serving
proof
  fix s s'
  assume "inbound_loop s s'"
  then show "serving s' = serving s \<and> ts_numOpen s' = ts_numOpen s \<or>
    (\<exists>i. i \<notin> serving s \<and> serving s' = insert i (serving s) \<and> ts_numOpen s' = ts_numOpen s + 1) \<or>
    (\<exists>i. i \<in> serving s \<and> serving s' = serving s - {i} \<and> ts_numOpen s' = ts_numOpen s - 1)"
  proof cases
    case Conn
    then show ?thesis using conn_step_counts by blast
  qed (auto simp: serving_def set_phase_def split: if_splits)
qed (simp_all add: started_server_def serving_def)

section \<open>Shutdown\<close>

text \<open>
  \<open>Shutdown\<close> reads the counter once a second: the number of seconds it waited over the values it
  saw, \<open>None\<close> while it still waits. A connection counts while it is served only.
\<close>

fun tcp_Shutdown :: "32 word list \<Rightarrow> nat option" where
  "tcp_Shutdown [] = None"
| "tcp_Shutdown (n # ns) = (if 0 < sint n then map_option Suc (tcp_Shutdown ns) else Some 0)"

lemma tcp_Shutdown_reads:
  "tcp_Shutdown ns = Some k \<longleftrightarrow> k < length ns \<and> \<not> 0 < sint (ns ! k) \<and> (\<forall>j<k. 0 < sint (ns ! j))"
proof (induction ns arbitrary: k)
  case (Cons n ns)
  show ?case
  proof (cases k)
    case 0
    then show ?thesis by auto
  next
    case (Suc m)
    with Cons.IH [of m] show ?thesis by (auto simp: less_Suc_eq_0_disj)
  qed
qed simp

text \<open>It ends as soon as it sees no connection being served.\<close>

lemma tcp_Shutdown_ends: "n \<in> set ns \<Longrightarrow> \<not> 0 < sint n \<Longrightarrow> \<exists>k. tcp_Shutdown ns = Some k"
  by (induction ns) auto

text \<open>
  C31. Shutting a server down waits exactly as long as connections are served: over the states that
  its readings fall into, reachable by any interleaving of the accept loop and the goroutines of the
  connections, it ends with the first one in which no connection is being served, it does not end
  before, and it ends when there is such a state. This holds while the counter of 32 bits does not overflow.
\<close>

theorem shutdown_drains:
  assumes "\<forall>s\<in>set ss. outbound_loop\<^sup>*\<^sup>* started_server s \<or> inbound_loop\<^sup>*\<^sup>* started_server s"
    and "\<forall>s\<in>set ss. card (serving s) < 2 ^ 31"
  shows "tcp_Shutdown (map ts_numOpen ss) = Some k \<longleftrightarrow>
    k < length ss \<and> serving (ss ! k) = {} \<and> (\<forall>j<k. serving (ss ! j) \<noteq> {})"
proof -
  have "\<not> 0 < sint (ts_numOpen s) \<longleftrightarrow> serving s = {}" if "s \<in> set ss" for s
    using outbound.drained [of s] inbound.drained [of s] assms that by blast
  then have "0 < sint (ts_numOpen (ss ! i)) \<longleftrightarrow> serving (ss ! i) \<noteq> {}" if "i < length ss" for i
    using that nth_mem by blast
  then show ?thesis by (auto simp: tcp_Shutdown_reads)
qed

definition busy_server :: tcp_server where
  "busy_server = add_open 1 (set_phase 0 Serving (set_phase 0 Accepted started_server))"

lemma busy_reached: "outbound_loop\<^sup>*\<^sup>* started_server busy_server"
proof -
  have "outbound_loop started_server (set_phase 0 Accepted started_server)"
    by (rule outbound_loop.Accept) (simp_all add: started_server_def)
  moreover have "outbound_loop (set_phase 0 Accepted started_server) busy_server"
    unfolding busy_server_def
    by (rule outbound_loop.Conn, simp add: set_phase_def started_server_def, rule conn_step.Count, simp add: set_phase_def)
  ultimately show ?thesis by (meson converse_rtranclp_into_rtranclp rtranclp.rtrancl_refl)
qed

theorem shutdown_drains_witness:
  "tcp_Shutdown (map ts_numOpen [busy_server, busy_server, started_server]) = Some 2 \<and> serving busy_server = {0}"
proof -
  have b: "serving busy_server = {0}" "serving started_server = {}"
    by (auto simp: serving_def busy_server_def add_open_def set_phase_def started_server_def)
  have "tcp_Shutdown (map ts_numOpen [busy_server, busy_server, started_server]) = Some 2 \<longleftrightarrow>
      2 < length [busy_server, busy_server, started_server] \<and> serving ([busy_server, busy_server, started_server] ! 2) = {} \<and>
      (\<forall>j<2. serving ([busy_server, busy_server, started_server] ! j) \<noteq> {})"
    by (rule shutdown_drains) (simp_all add: busy_reached b)
  then show ?thesis using b by (simp add: less_2_cases_iff)
qed

text \<open>
  A connection that was accepted and is not yet counted is not waited for, and one that is counted
  down may still be open.
\<close>

lemma shutdown_misses_accepted:
  "\<exists>s. outbound_loop\<^sup>*\<^sup>* started_server s \<and> ts_phase s 0 = Some Accepted \<and> tcp_Shutdown [ts_numOpen s] = Some 0"
proof -
  let ?s = "set_phase 0 Accepted started_server"
  have "outbound_loop started_server ?s" by (rule outbound_loop.Accept) (simp_all add: started_server_def)
  then have "outbound_loop\<^sup>*\<^sup>* started_server ?s" by blast
  then show ?thesis by (intro exI [of _ ?s]) (simp add: set_phase_def started_server_def)
qed

lemma inbound_accept_error_crashes:
  assumes "ts_accepting s" "\<not> ts_crashed s"
  shows "inbound_loop s (s\<lparr>ts_crashed := True\<rparr>)"
  by (rule inbound_loop.Accept_fails [OF assms, of "''nil''"]) (simp add: util_GO_def)

lemma outbound_accept_error_keeps:
  assumes "ts_accepting s" "\<not> ts_crashed s"
  shows "outbound_loop s (s\<lparr>ts_accepting := False\<rparr>)" "serving (s\<lparr>ts_accepting := False\<rparr>) = serving s"
  using outbound_loop.Accept_fails [OF assms] by (simp_all add: serving_def)

section \<open>The end of the process\<close>

text \<open>
  \<open>upgrade.Stop\<close>: after the signal the hook runs, and a timer of 30 seconds ends the process in any
  case. \<open>hook\<close> is the time the hook takes in seconds, \<open>None\<close> when it does not end.
\<close>

datatype stop_outcome = Graceful nat | TimedOut

definition upgrade_Stop :: "nat option \<Rightarrow> stop_outcome" where
  "upgrade_Stop hook = (case hook of Some t \<Rightarrow> if t < 30 then Graceful t else TimedOut | None \<Rightarrow> TimedOut)"

definition stop_time :: "stop_outcome \<Rightarrow> nat" where
  "stop_time r = (case r of Graceful t \<Rightarrow> t | TimedOut \<Rightarrow> 30)"

text \<open>The servers shut down one after the other, each waiting for its own connections.\<close>

fun shutdown_time :: "32 word list list \<Rightarrow> nat option" where
  "shutdown_time [] = Some 0"
| "shutdown_time (ns # nss) =
     (case tcp_Shutdown ns of None \<Rightarrow> None | Some k \<Rightarrow> map_option (\<lambda>t. k + t) (shutdown_time nss))"

lemma stop_bounded: "stop_time (upgrade_Stop hook) \<le> 30"
  by (simp add: stop_time_def upgrade_Stop_def split: option.split)

text \<open>
  The process ends within 30 seconds of the signal, gracefully exactly when the waits of all
  servers together are shorter.
\<close>

lemma stop_graceful:
  "upgrade_Stop (shutdown_time nss) = Graceful t \<longleftrightarrow> shutdown_time nss = Some t \<and> t < 30"
  by (auto simp: upgrade_Stop_def split: option.splits if_splits)

section \<open>The listener for one connection\<close>

datatype chan = NilChan | OpenChan | ClosedChan

record singleConnListener =
  scl_used :: bool
  scl_done :: chan
  scl_once :: bool
  scl_conn_closed :: bool

definition new_listener :: singleConnListener where
  "new_listener = \<lparr>scl_used = False, scl_done = NilChan, scl_once = False, scl_conn_closed = False\<rparr>"

text \<open>Both operations make the channel when it is not there.\<close>

definition ensure_done :: "singleConnListener \<Rightarrow> singleConnListener" where
  "ensure_done l = (if scl_done l = NilChan then l\<lparr>scl_done := OpenChan\<rparr> else l)"

datatype accept_result = GotConn | GotErrClosed | Blocked

definition scl_Accept :: "singleConnListener \<Rightarrow> accept_result \<times> singleConnListener" where
  "scl_Accept l =
     (let l' = ensure_done l in
      if scl_used l' then (if scl_done l' = ClosedChan then GotErrClosed else Blocked, l')
      else (GotConn, l'\<lparr>scl_used := True\<rparr>))"

text \<open>
  \<open>close(l.done)\<close> under \<open>closeOnce\<close>; \<open>None\<close> is the panic of closing a channel that is nil or closed.
\<close>

definition close_done :: "singleConnListener \<Rightarrow> singleConnListener option" where
  "close_done l =
     (if scl_once l then Some l
      else if scl_done l = OpenChan then Some (l\<lparr>scl_once := True, scl_done := ClosedChan\<rparr>)
      else None)"

definition scl_Close :: "singleConnListener \<Rightarrow> singleConnListener option" where
  "scl_Close l = close_done (ensure_done l)"

text \<open>Closing the connection that \<open>Accept\<close> returned, plain or TLS.\<close>

definition singleConn_Close :: "singleConnListener \<Rightarrow> singleConnListener option" where
  "singleConn_Close l = close_done (l\<lparr>scl_conn_closed := True\<rparr>)"

datatype scl_label = LAccept accept_result | LClose | LConnClose

inductive scl_step :: "singleConnListener \<Rightarrow> scl_label \<Rightarrow> singleConnListener \<Rightarrow> bool" where
  Accept: "scl_Accept l = (r, l') \<Longrightarrow> scl_step l (LAccept r) l'"
| Close: "scl_Close l = Some l' \<Longrightarrow> scl_step l LClose l'"
| ConnClose: "scl_used l \<Longrightarrow> singleConn_Close l = Some l' \<Longrightarrow> scl_step l LConnClose l'"

inductive_cases scl_stepE: "scl_step l a l'"

inductive scl_run :: "singleConnListener \<Rightarrow> scl_label list \<Rightarrow> singleConnListener \<Rightarrow> bool" where
  Start: "scl_run l [] l"
| Next: "scl_run l as l' \<Longrightarrow> scl_step l' a l'' \<Longrightarrow> scl_run l (as @ [a]) l''"

text \<open>What holds along every history.\<close>

definition scl_inv :: "scl_label list \<Rightarrow> singleConnListener \<Rightarrow> bool" where
  "scl_inv as l \<longleftrightarrow>
     (scl_used l \<longleftrightarrow> LAccept GotConn \<in> set as) \<and> count_list as (LAccept GotConn) \<le> 1 \<and>
     (scl_used l \<longrightarrow> scl_done l \<noteq> NilChan) \<and>
     (scl_once l \<longleftrightarrow> scl_done l = ClosedChan) \<and>
     (scl_done l = ClosedChan \<longleftrightarrow> LClose \<in> set as \<or> LConnClose \<in> set as) \<and>
     (scl_conn_closed l \<longleftrightarrow> LConnClose \<in> set as) \<and>
     (LAccept GotErrClosed \<in> set as \<longrightarrow> scl_done l = ClosedChan)"

lemma count_list_append: "count_list (xs @ ys) z = count_list xs z + count_list ys z"
  by (induction xs) auto

lemma scl_inv_step:
  assumes "scl_inv as l" "scl_step l a l'"
  shows "scl_inv (as @ [a]) l'"
  using assms(2)
proof cases
  case (Accept r)
  have "count_list as (LAccept GotConn) = 0" if "\<not> scl_used l"
    using assms(1) that by (simp add: scl_inv_def count_list_0_iff)
  with Accept assms(1) show ?thesis
    by (cases "scl_used l"; cases "scl_done l") (auto simp: scl_inv_def scl_Accept_def ensure_done_def Let_def count_list_append)
next
  case Close
  with assms(1) show ?thesis
    by (cases "scl_done l") (auto simp: scl_inv_def scl_Close_def close_done_def ensure_done_def count_list_append split: if_splits)
next
  case ConnClose
  with assms(1) show ?thesis
    by (cases "scl_done l") (auto simp: scl_inv_def singleConn_Close_def close_done_def count_list_append split: if_splits)
qed

lemma scl_invariant: "scl_run new_listener as l \<Longrightarrow> scl_inv as l"
proof (induction new_listener as l rule: scl_run.induct)
  case Start
  then show ?case by (simp add: scl_inv_def new_listener_def)
qed (rule scl_inv_step)

text \<open>No operation panics, whatever happened before.\<close>

lemma scl_no_panic:
  assumes "scl_run new_listener as l"
  shows "scl_Close l \<noteq> None" "scl_used l \<Longrightarrow> singleConn_Close l \<noteq> None"
  using scl_invariant [OF assms]
  by (cases "scl_done l"; auto simp: scl_inv_def scl_Close_def singleConn_Close_def close_done_def ensure_done_def)+

text \<open>
  The connection is handed out once. A further \<open>Accept\<close> waits until the connection or the listener
  was closed and then fails, so that the server that uses the listener stays up exactly as long.
\<close>

lemma scl_accepts_once:
  assumes "scl_run new_listener as l"
  shows "count_list as (LAccept GotConn) \<le> 1"
    "fst (scl_Accept l) = (if LAccept GotConn \<notin> set as then GotConn
       else if LClose \<in> set as \<or> LConnClose \<in> set as then GotErrClosed else Blocked)"
  using scl_invariant [OF assms] by (auto simp: scl_inv_def scl_Accept_def ensure_done_def Let_def)

end
