(* ===== verification/Management_Server.thy ===== *)
theory Management_Server
  imports Management Server_Start Listeners
begin

text \<open>
  The HTTP side of the management server, \<open>cmd/mgr/mgr.go\<close>: the table of endpoints, what each answers,
  the start and stop of the server, and the command \<open>mgr\<close>. Routing is that of \<open>http.ServeMux\<close>.
\<close>

section \<open>Endpoints\<close>

datatype mgr_endpoint =
    PprofIndex | PprofCmdline | PprofProfile | PprofSymbol | PprofTrace
  | VersionEndpoint | DemoEndpoint | UpgradeEndpoint | DownloadEndpoint | CleanEndpoint | IptablesEndpoint

definition HttpMux :: "(string \<times> mgr_endpoint) list" where
  "HttpMux = [(''/debug/pprof/'', PprofIndex), (''/debug/pprof/cmdline'', PprofCmdline), (''/debug/pprof/profile'', PprofProfile),
     (''/debug/pprof/symbol'', PprofSymbol), (''/debug/pprof/trace'', PprofTrace), (''/version'', VersionEndpoint),
     (''/demo'', DemoEndpoint), (''/upgrade'', UpgradeEndpoint), (''/download'', DownloadEndpoint),
     (''/clean-iptables'', CleanEndpoint), (''/iptables'', IptablesEndpoint)]"

text \<open>
  \<open>ServeMux\<close> on a clean path: the pattern that is the path, else the longest pattern that ends in a
  slash and begins the path; a path that only lacks the slash is redirected.
\<close>

datatype mux_result = Handled mgr_endpoint | RedirectTo string | NotFound

fun longest_subtree :: "(string \<times> mgr_endpoint) list \<Rightarrow> string \<Rightarrow> (string \<times> mgr_endpoint) option" where
  "longest_subtree [] path = None"
| "longest_subtree ((pat, e) # m) path =
     (case longest_subtree m path of
        None \<Rightarrow> if HasSuffix pat ''/'' \<and> HasPrefix path pat then Some (pat, e) else None
      | Some (pat', e') \<Rightarrow>
          if HasSuffix pat ''/'' \<and> HasPrefix path pat \<and> length pat' < length pat then Some (pat, e) else Some (pat', e'))"

definition mux_route :: "(string \<times> mgr_endpoint) list \<Rightarrow> string \<Rightarrow> mux_result" where
  "mux_route m path =
     (case map_of m path of
        Some e \<Rightarrow> Handled e
      | None \<Rightarrow>
          if map_of m (path @ ''/'') \<noteq> None then RedirectTo (path @ ''/'')
          else (case longest_subtree m path of Some (_, e) \<Rightarrow> Handled e | None \<Rightarrow> NotFound))"

text \<open>The texts that are not ASCII, in UTF-8.\<close>

definition updated_text :: string where
  "updated_text = map char_of [0xe6, 0x9b, 0xb4, 0xe6, 0x96, 0xb0, 0xe6, 0x88, 0x90, 0xe5, 0x8a, 0x9f :: nat]"

definition success_text :: string where
  "success_text = map char_of [0xe6, 0x93, 0x8d, 0xe4, 0xbd, 0x9c, 0xe6, 0x88, 0x90, 0xe5, 0x8a, 0x9f :: nat]"

definition version_response :: "string \<Rightarrow> string" where
  "version_response version = version @ [CHR 0x0A]"

definition upgrade_response :: "string option \<Rightarrow> string" where
  "upgrade_response err = (case err of Some e \<Rightarrow> ''upgraded failed:'' @ e | None \<Rightarrow> ''upgraded success'')"

text \<open>\<open>ver\<close> is the form value, empty when there is none; \<open>text\<close> prints an error.\<close>

definition download_response ::
  "(download_error \<Rightarrow> string) \<Rightarrow> download_env \<Rightarrow> string \<Rightarrow> files \<Rightarrow> string \<times> files" where
  "download_response text env ver fs =
     (case Download env ''lhotse-agent'' ver fs of
        (Some e, fs') \<Rightarrow> (text e, fs')
      | (None, fs') \<Rightarrow> (updated_text, fs'))"

definition clean_response :: "(nat \<times> string list \<Rightarrow> string) \<Rightarrow> string \<times> string list list" where
  "clean_response text = (case mgr_clean_iptables of (Some e, cmds) \<Rightarrow> (text e, cmds) | (None, cmds) \<Rightarrow> (success_text, cmds))"

text \<open>\<open>None\<close> when there is no answer, because the process has ended or the handler panicked.\<close>

definition iptables_response ::
  "(mgr_outcome \<Rightarrow> string) \<Rightarrow> exec_env \<Rightarrow> net_env \<Rightarrow> (ipnet \<Rightarrow> string) \<Rightarrow> environment \<Rightarrow> registry \<Rightarrow> string option \<times> registry" where
  "iptables_response text ext net cidr_text env vars =
     (case mgr_iptables ext net cidr_text env vars of
        (Succeeded, vars') \<Rightarrow> (Some success_text, vars')
      | (ProcessExited, vars') \<Rightarrow> (None, vars')
      | (HandlerPanic, vars') \<Rightarrow> (None, vars')
      | (r, vars') \<Rightarrow> (Some (text r), vars'))"

subsection \<open>Properties\<close>

lemma longest_subtree_match:
  "longest_subtree m path = Some (pat, e) \<Longrightarrow> (pat, e) \<in> set m \<and> HasSuffix pat ''/'' \<and> HasPrefix path pat"
  by (induction m arbitrary: pat e) (auto split: option.splits if_splits)

lemma longest_subtree_None:
  "longest_subtree m path = None \<longleftrightarrow> (\<forall>(pat, e)\<in>set m. \<not> (HasSuffix pat ''/'' \<and> HasPrefix path pat))"
  by (induction m) (auto split: option.split if_splits)

lemma longest_subtree_max:
  assumes "longest_subtree m path = Some (pat, e)" "(pat', e') \<in> set m" "HasSuffix pat' ''/''" "HasPrefix path pat'"
  shows "length pat' \<le> length pat"
  using assms
proof (induction m arbitrary: pat e)
  case (Cons pe m)
  obtain p0 e0 where pe: "pe = (p0, e0)" by fastforce
  show ?case
  proof (cases "longest_subtree m path")
    case None
    then have "(pat', e') \<notin> set m" using Cons.prems(3,4) by (fastforce simp: longest_subtree_None)
    then show ?thesis using Cons.prems(1,2) None by (auto simp: pe split: if_splits)
  next
    case (Some x)
    obtain p1 e1 where x: "x = (p1, e1)" by fastforce
    have "length pat' \<le> length p1" if "(pat', e') \<in> set m"
      using Cons.IH [of p1 e1] Some x that Cons.prems(3,4) by simp
    then show ?thesis using Cons.prems Some x by (auto simp: pe split: if_splits)
  qed
qed simp

text \<open>
  Every registered path reaches its own handler, in whatever order it was registered; profiling
  takes everything below its directory and nothing else.
\<close>

lemma registered_path: "(path, e) \<in> set HttpMux \<Longrightarrow> mux_route HttpMux path = Handled e"
proof -
  have "distinct (map fst HttpMux)" by (simp add: HttpMux_def)
  moreover assume "(path, e) \<in> set HttpMux"
  ultimately show ?thesis by (simp add: mux_route_def)
qed

lemma unknown_path:
  assumes "path \<notin> fst ` set HttpMux" "path \<noteq> ''/debug/pprof''"
  shows "mux_route HttpMux path = (if HasPrefix path ''/debug/pprof/'' then Handled PprofIndex else NotFound)"
proof -
  have "map_of HttpMux path = None" using assms(1) by (simp add: map_of_eq_None_iff)
  moreover have "map_of HttpMux (path @ ''/'') = None"
  proof -
    have ends: "k \<in> fst ` set HttpMux \<Longrightarrow> last k = CHR ''/'' \<Longrightarrow> k = ''/debug/pprof'' @ ''/''" for k
      by (auto simp: HttpMux_def)
    have "path @ ''/'' \<notin> fst ` set HttpMux"
      using assms(2) ends [of "path @ ''/''"] by (auto simp del: append_Cons)
    then show ?thesis by (simp add: map_of_eq_None_iff)
  qed
  moreover have "longest_subtree HttpMux path = (if HasPrefix path ''/debug/pprof/'' then Some (''/debug/pprof/'', PprofIndex) else None)"
    by (simp add: HttpMux_def HasSuffix_def suffix_def)
  ultimately show ?thesis by (simp add: mux_route_def)
qed

text \<open>
  The download endpoint with no version asks for the empty version, and installs what it gets.
\<close>

lemma download_without_version:
  assumes "download_response text env [] fs = (updated_text, fs')" "\<And>e. text e \<noteq> updated_text"
  shows "\<exists>body. de_get env (download_url ''lhotse-agent'' []) = Inr (200, body, None) \<and> fs' (de_exe env) = Some body"
proof -
  obtain r where "Download env ''lhotse-agent'' [] fs = (r, fs')" "r = None"
    using assms by (auto simp: download_response_def split: prod.splits option.splits)
  with Download_success [of env "''lhotse-agent''" "[]" fs fs'] show ?thesis by auto
qed

section \<open>The server\<close>

text \<open>
  \<open>Startup\<close>: the goroutine that serves assigns its result to the variable that \<open>Startup\<close> returns.
  \<open>served\<close> is that result when the goroutine was faster, \<open>None\<close> when it was not.
\<close>

definition mgr_Startup :: "(string \<Rightarrow> string option) \<Rightarrow> string \<Rightarrow> string option \<Rightarrow> string option" where
  "mgr_Startup listen addr served = (case listen addr of Some e \<Rightarrow> Some e | None \<Rightarrow> served)"

definition mgr_addr :: string where "mgr_addr = '':18080''"

datatype mgr_run = StartFatal string | Stopped stop_outcome

text \<open>The command: register, start, report ready, and stop with the shutdown of all servers.\<close>

definition ManagerCmd_Run ::
  "(string \<Rightarrow> string option) \<Rightarrow> string option \<Rightarrow> string option \<Rightarrow> nat option \<Rightarrow> mgr_run option" where
  "ManagerCmd_Run listen served ready shutdown =
     (case sm_Startup (\<lambda>addr. mgr_Startup listen addr served) (AddServer [] mgr_addr) of
        (Some e, _) \<Rightarrow> Some (StartFatal e)
      | (None, _) \<Rightarrow> (case ready of Some e \<Rightarrow> None | None \<Rightarrow> Some (Stopped (upgrade_Stop shutdown))))"

text \<open>A listener that works does not make the start succeed: an early result of the server is taken for its error.\<close>

lemma serve_result_fails_start:
  "listen mgr_addr = None \<Longrightarrow> ManagerCmd_Run listen (Some e) ready shutdown = Some (StartFatal e)"
  by (simp add: ManagerCmd_Run_def mgr_Startup_def sm_Startup_def AddServer_def)

lemma manager_runs:
  assumes "listen mgr_addr = None"
  shows "ManagerCmd_Run listen None None shutdown = Some (Stopped (upgrade_Stop shutdown))"
  using assms by (simp add: ManagerCmd_Run_def mgr_Startup_def sm_Startup_def AddServer_def)

end
