(* ===== verification/Spec2Isabelle.thy ===== *)
theory Spec2Isabelle
  imports Outbound Udp_Start Conn_Pool Cow Header_Write Traffic_Log Trace_Reader Iptables_Command Management_Server
begin

text \<open>
  The lhotse agent is a transparent proxy that runs beside a service. Packet filter rules
  redirect the connections of the host to it. It decides by a domain policy which of them
  may go on, routes HTTP requests to endpoints, opens TLS connections of selected hosts
  with certificates of its own to put credentials into requests, and relays everything
  else. This development models the agent's own logic, part by part, and proves what the
  parts promise and what a client or an operator sees when they work together.

  \<^bold>\<open>Theories.\<close> Paths are below \<open>src/\<close>.

  \<^item> \<open>Prelude\<close>: results, Go's slices with their panics, generic lemmas.
  \<^item> \<open>Go_Strings\<close>, \<open>Go_Net\<close>, \<open>Go_Bufio\<close>, \<open>Go_Textproto\<close>: what the agent uses of Go's
    packages \<open>strings\<close>, \<open>strconv\<close>, \<open>net\<close>, \<open>net/netip\<close>, \<open>bufio\<close> and \<open>net/textproto\<close>.
  \<^item> \<open>Domain_Policy\<close>: \<open>cmd/proxy/domainpolicy/policy.go\<close>. Compiling and evaluating a policy.
    C1 to C3: evaluation refines an abstract reading of the document, compilation fails
    exactly on bad documents, the form of a name does not matter.
  \<^item> \<open>Client_Hello\<close>: \<open>pkg/protocol/tls/client_hello.go\<close>. The server name of a TLS hello.
    C5 to C7: no input makes the parser panic, it inverts an encoder of hellos, and
    peeking at a stream finds the name.
  \<^item> \<open>Config_Source\<close>, \<open>Policy_Manager\<close>, \<open>Runtime_Config\<close>: \<open>cmd/proxy/domainpolicy/manager.go\<close>
    and \<open>handlers.go\<close>, \<open>cmd/proxy/runtimeconfig/manager.go\<close> and \<open>handlers.go\<close>. Both managers
    interpret the locale \<open>config_manager\<close>, in which the last-known-good property is proved
    once. C8 to C12: last good configuration, recovery from the cache file after a restart,
    the refresh loop under interleaving, atomic replacement of the cache file.
  \<^item> \<open>Load_Balancer\<close>, \<open>Route_Match\<close>: \<open>cmd/config\<close> and \<open>cmd/proxy/data/config.go\<close>. The
    balancers interpret the locale \<open>load_balancer\<close>. C13 to C17: order and wrap of round
    robin, fairness of the weighted variant, selected endpoints are configured, when
    matching panics, the meaning of a match entry.
  \<^item> \<open>Data_Cache\<close>: the rest of \<open>cmd/proxy/data/config.go\<close>, the cache file of the routing data, the
    goroutine that saves it and its timer. C18: the cache alone routes nothing.
  \<^item> \<open>Ttl_Cache\<close>, \<open>Credentials\<close>: \<open>pkg/credential\<close>, \<open>pkg/identity\<close>, \<open>cmd/proxy/credentials.go\<close>.
    Both caches interpret the locale \<open>ttl_cache\<close>. C19: an injected credential is the
    requester's own; a theorem beside it: identities come from the identity service.
  \<^item> \<open>Http_Message\<close>, \<open>Header_Write\<close>, \<open>Http_Relay\<close>: \<open>pkg/protocol/http\<close>, the relay functions of
    \<open>cmd/proxy/http.go\<close>. C20 to C22: request lines pass unchanged, chunked
    bodies are relayed exactly, relaying never adds or reorders bytes. A written header is read
    back, with the line ends of its values replaced.
  \<^item> \<open>Cert_Store\<close>: \<open>pkg/tls/mitm/ca.go\<close>. C23 and C24: certificates fit their name and the
    primary CA, also under concurrent use; a lemma shows the race with a reload.
  \<^item> \<open>Enforcement\<close>, \<open>Tcp_Proxy\<close>, \<open>Outbound\<close>: \<open>cmd/proxy/domain_policy.go\<close>, \<open>inbound.go\<close>,
    \<open>inbound_target.go\<close>, \<open>outbound.go\<close> and the handlers of \<open>http.go\<close>. C25 to C29: refused
    requests and server names reach no upstream, which requests escape the policy, what
    interception forwards and to whom, and what happens to upgraded connections. Theorems beside
    them: the refusal is a well-formed response, and a refused target is never reached.
  \<^item> \<open>String_Set\<close>: \<open>util/sets/string.go\<close>. The locale \<open>set_operations\<close> states what the operations
    promise whatever order Go visits a map in.
  \<^item> \<open>Iptables_Config\<close>, \<open>Iptables_Builder\<close>, \<open>Iptables_Capture\<close>: \<open>iptables/pkg/config\<close>, \<open>constants\<close>,
    \<open>log/command.go\<close>, \<open>builder\<close> and \<open>capture\<close>. The methods of the configurator are the lists of
    builder calls they make; \<open>perform\<close> makes them. C37: the restore file and the commands
    say the same.
  \<^item> \<open>Packet_Filter\<close>, \<open>Capture_Spec\<close>: what rules do to packets. \<open>kernel\<close> builds the chains from the
    rules, \<open>walk\<close> sends a packet through them; which packets a single option matches is an
    argument, and the depth of jumps is a bound that the rule set keeps (two). C32 and C33: the
    generated rules take the decision that the settings describe, and never send the proxy's
    own traffic back to it.
  \<^item> \<open>Iptables_Clean\<close>, \<open>Iptables_Settings\<close>: \<open>clean-iptables\<close> and \<open>iptables/pkg/cmd/root.go\<close>. C34:
    cleaning undoes the setup. The settings of both commands agree, and what is executed with
    an output file.
  \<^item> \<open>Iptables_Command\<close>: both files \<open>root.go\<close> and \<open>constants.go\<close>, from the flags to the exit code. The library
    that resolves settings is an argument with its documented order as a hypothesis. C35: a setup
    that reports success has installed rules that capture; C36: settings have the type they are
    read as. Settings reach a child process through its environment.
  \<^item> \<open>Trace_Reader\<close>: \<open>iptables/pkg/log\<close>. What a traced packet writes into the log.
  \<^item> \<open>Original_Dst\<close>, \<open>Udp_Proxy\<close>, \<open>Udp_Start\<close>: \<open>pkg/socket\<close> and \<open>cmd/proxy/udp.go\<close>. Both tables of the UDP proxy
    interpret the locale \<open>keyed_table\<close>. C38: UDP flows never mix, under every interleaving; C39:
    the text of an original destination names the kernel's address and port.
  \<^item> \<open>Conn_Pool\<close>: \<open>pkg/pool/pool.go\<close>. C40: the pool keeps its limits.
  \<^item> \<open>Proxy_Settings\<close>, \<open>Server_Start\<close>: \<open>cmd/proxy/server.go\<close>, \<open>cmd/server/server.go\<close>. Flags and settings,
    the order of the start, the wait for the CA, the trust bundle. C30: the start ends, and
    with interception on only with a CA.
  \<^item> \<open>Listeners\<close>: the accept loops of \<open>inbound.go\<close> and \<open>outbound.go\<close>, \<open>cmd/upgrade\<close> and \<open>util/safe.go\<close>. Both
    loops interpret the locale \<open>connection_counter\<close>. C31: shutting down waits exactly as long as
    connections are served.
  \<^item> \<open>Iptables_Exec\<close>, \<open>Management\<close>, \<open>Management_Server\<close>: \<open>iptables/pkg/dependencies\<close>, \<open>run_linux.go\<close>, \<open>iptables/pkg/validation\<close>
    and \<open>cmd/mgr\<close>. Commands with the retry on the lock, routes, the probe, and the endpoints that
    set up and remove the rules and replace the executable, with their routing and answers.
  \<^item> \<open>Cow\<close>: \<open>util/sync/cow\<close>. Both containers interpret the locale \<open>cow_container\<close>: readers see whole
    changes only.
  \<^item> \<open>Env_Var\<close>: \<open>pkg/env/var.go\<close>. The kinds of variables interpret the locale \<open>typed_var\<close>.
  \<^item> \<open>Log_Options\<close>, \<open>Log_Scope\<close>, \<open>Log_Sinks\<close>, \<open>Log_Config\<close>, \<open>Traffic_Log\<close>: \<open>pkg/log\<close> and
    \<open>cmd/proxy/traffic_log.go\<close>. Levels of scopes, which calls are written and which end the process,
    labels with the arrays that they share; the sinks for the cloud and a socket, what configuring
    makes of the options, the adapters for other loggers. The socket sink sends what it buffered
    exactly once or loses it.
  \<^item> This theory: C4, a blocked network from the address bytes of the kernel to the wire, through
    the original destination, the policy, its manager and the outbound handler.

  \<^bold>\<open>State and effects.\<close> Structs are records, operations return the new state. Calls that
  fail return \<open>Inl\<close> of an error type; a Go panic is \<open>None\<close>, \<open>MatchPanic\<close> or \<open>Panicked\<close>.
  What lies outside the agent is an argument: clocks, HTTP answers, file faults, JSON
  codecs, regular expressions, random numbers, cryptography, the peers of connections, the
  order in which Go visits a map, and how many bytes a discarded reader had buffered.
  Mutexes make the guarded operations atomic; where the code shares state without one, the
  interleavings are a step relation (\<open>Policy_Manager.refresh_step\<close>, \<open>Cert_Store.cs_step\<close>, \<open>Udp_Proxy.udp_step\<close>,
  \<open>Data_Cache.save_step\<close>, \<open>Cow.cow_step\<close>, \<open>Log_Sinks.uds_step\<close>, \<open>Listeners.outbound_loop\<close> and \<open>inbound_loop\<close>,
  \<open>Listeners.scl_step\<close>).

  \<^bold>\<open>Termination.\<close> Every function is total. Loops that consume input end by the length of
  the input (\<open>trailer_loop\<close>, \<open>proxyChunkedBody\<close>, \<open>mime_loop\<close>, \<open>extension_loop\<close>); the loop of
  a connection handler runs over the list of its turns, so that a statement about all
  lists is one about every finite part of the connection. No fuel is used.

  \<^bold>\<open>Not modelled.\<close> The generated protobuf code, the profiling handlers, the \<open>main\<close> functions and the
  command that only holds the others, texts printed for help and debugging (\<open>Config.Print\<close>,
  \<open>logConfig\<close>), build variants for other systems, and deadlines of connections: these are calls of
  libraries with no logic of their own. Processes, netlink, sockets, files, encoders and the
  clients of remote services are arguments of the definitions that use them.
\<close>

section \<open>A blocked network, from the kernel to the wire\<close>

lemma blocked_network_decision:
  assumes "Compile doc = Inr p" "DomainPolicy conf = Some m" "Enabled m" "directionEnabled m outboundDirection" "m_policy m = Some p"
    and "find (\<lambda>r. rule_direction r = outboundDirection) (rev (Rules doc)) = Some r" "\<not> deny_by_default r"
    and "entry \<in> set (BlockList r)" "TrimSpace entry = addr @ ''/'' @ len" "CHR ''/'' \<notin> set addr"
    and "parse_v4 addr = Some x" "dtoi len = Some n" "n \<le> 32"
    and "extractIP target = Some t" "To4 t = Some y" "take n (ip_bits y) = take n (ip_bits x)"
  shows "\<not> Allowed (config_decision (Some conf) outboundDirection domain target)"
proof -
  have "entry_matches entry (normalizeDomain domain) (Some t)"
    by (rule entry_matches_network [OF assms(9-13) assms(15,16)])
  with assms(6-8) assms(14) have "policy_spec doc outboundDirection domain target = denied ''domain_policy_blocklist''"
    by (auto simp: policy_spec_def)
  with Evaluate_Compile [OF assms(1)] show ?thesis
    using assms(2-5) by (simp add: config_decision_def Manager_Evaluate_def denied_def)
qed

text \<open>
  C4. A blocked network is out of reach, through every part of the agent: when the policy in
  force was compiled from a document that allows by default and blocks \<open>addr/len\<close>, and the
  destination bytes that the kernel reports for a redirected connection lie in that network,
  then whatever the client sends, in any protocol and under any name, and however the
  environment behaves, the outbound handler opens no connection, forwards no intercepted
  request and asks for no credential.
\<close>

theorem blocked_network_unreached:
  assumes "Compile doc = Inr p" "DomainPolicy conf = Some m" "Enabled m" "directionEnabled m outboundDirection" "m_policy m = Some p"
    and "find (\<lambda>r. rule_direction r = outboundDirection) (rev (Rules doc)) = Some r" "\<not> deny_by_default r"
    and "entry \<in> set (BlockList r)" "TrimSpace entry = addr @ ''/'' @ len" "CHR ''/'' \<notin> set addr"
    and "parse_v4 addr = Some x" "dtoi len = Some n" "n \<le> 32"
    and "GetOriginalDst nilConn nilAddr fileOk (Some sa) cn = Inr (raw, dst)"
    and "take n (ip_bits [sa ! 4, sa ! 5, sa ! 6, sa ! 7]) = take n (ip_bits x)"
    and "outbound_proc conf ob envs dst c st = (e, c', st', replies)"
  shows "c_peers c' = c_peers c \<and> st' = st \<and> replies = []"
proof (rule denied_target_no_effect [OF _ _ assms(16)])
  have dst: "dst = host_text (sockaddr_ip sa) (sockaddr_port sa)"
    using assms(14) by (auto simp: GetOriginalDst_def split: if_splits option.splits bool.splits)
  then show "dst \<noteq> []" by (simp add: host_text_def)
  have "extractIP dst = Some (v4_in_v6_prefix @ [sa ! 4, sa ! 5, sa ! 6, sa ! 7])"
    by (simp add: dst sockaddr_ip_def extractIP_host_text del: dotted.simps)
  moreover have "To4 (v4_in_v6_prefix @ [sa ! 4, sa ! 5, sa ! 6, sa ! 7]) = Some [sa ! 4, sa ! 5, sa ! 6, sa ! 7]"
    by simp
  ultimately show "\<not> Allowed (config_decision (Some conf) outboundDirection domain dst)" for domain
    using assms(15) by (intro blocked_network_decision [OF assms(1-13)])
qed

definition network_config :: "policy \<Rightarrow> config" where
  "network_config p = \<lparr>ServerName = [], DomainPolicy = Some (NewStaticManager 0 (Some p) ScopeOutbound), MITMEnabled = False\<rparr>"

theorem blocked_network_unreached_witness:
  "\<exists>p raw dst e c' st' replies. Compile network_document = Inr p \<and>
     GetOriginalDst False False True (Some [2, 0, 1, 187, 198, 51, 100, 25]) (Some True) = Inr (raw, dst) \<and>
     outbound_proc (network_config p) demo_ob [(demo_tcp_env, demo_mitm_env)] dst demo_conn demo_ob_state = (e, c', st', replies) \<and>
     c_peers c' = [] \<and> replies = []"
proof -
  let ?r = "\<lparr>Direction = ''outbound'', Mode = [], AllowList = [], BlockList = ['' 198.51.100.0/24'']\<rparr>"
  let ?sa = "[2, 0, 1, 187, 198, 51, 100, 25] :: byte list"
  obtain p where p: "Compile network_document = Inr p" using network_document_compiles by blast
  obtain raw dst where dst: "GetOriginalDst False False True (Some ?sa) (Some True) = Inr (raw, dst)"
    by (simp add: GetOriginalDst_def)
  obtain e c' st' replies where run: "outbound_proc (network_config p) demo_ob [(demo_tcp_env, demo_mitm_env)] dst
      demo_conn demo_ob_state = (e, c', st', replies)"
    by (metis prod_cases4)
  let ?m = "NewStaticManager 0 (Some p) ScopeOutbound"
  have m: "DomainPolicy (network_config p) = Some ?m" "Enabled ?m" "directionEnabled ?m outboundDirection" "m_policy ?m = Some p"
    by (simp_all add: network_config_def NewStaticManager_def setPolicy_def NewManager_def default_options_def Enabled_def
        directionEnabled_def outboundDirection_def scope_consts policy_consts str_eval Let_def)
  have r: "find (\<lambda>r. rule_direction r = outboundDirection) (rev (Rules network_document)) = Some ?r"
    "\<not> deny_by_default ?r" "'' 198.51.100.0/24'' \<in> set (BlockList ?r)"
    "TrimSpace '' 198.51.100.0/24'' = ''198.51.100.0'' @ ''/'' @ ''24''" "CHR ''/'' \<notin> set ''198.51.100.0''"
    by (simp_all add: network_document_def rule_direction_def str_eval deny_by_default_def policy_consts outboundDirection_def)
  have a: "parse_v4 ''198.51.100.0'' = Some [198, 51, 100, 0]" "dtoi ''24'' = Some 24" "(24 :: nat) \<le> 32"
    "take 24 (ip_bits [?sa ! 4, ?sa ! 5, ?sa ! 6, ?sa ! 7]) = take 24 (ip_bits [198, 51, 100, 0])"
    by (simp_all add: net_eval ip_bits_Cons)
  from blocked_network_unreached [OF p m r a(1-3) dst a(4) run] p dst run show ?thesis by (auto simp: demo_conn_def)
qed

section \<open>Settings that fit together\<close>

text \<open>
  The rules that the management endpoint installs send traffic to the ports the proxy listens on
  by default, and leave its management port alone.
\<close>

lemma default_ports_fit:
  "ProxyPort (mgr_iptables_config user) = Itoa (pc_OutBoundProxyPort default_proxy_config)"
  "InboundCapturePort (mgr_iptables_config user) = Itoa (pc_InBoundProxyPort default_proxy_config)"
  "Itoa (pc_ProxyMgrPort default_proxy_config) \<in> set (Split (InboundPortsExclude (mgr_iptables_config user)))"
  by (simp_all add: mgr_iptables_config_def default_proxy_config_def zero_config_def Itoa_def nat_digits.simps Split_def
      filterEmpty_def char_of_def bit_0)

end
